(* ===== verification/Prelude.thy ===== *)
theory Prelude
  imports "HOL-Library.Word" "HOL-Library.State_Monad"
begin

text \<open>
  The vocabulary the components share.

  \<^item> Machine integers: the C types \<open>uint8_t\<close> to \<open>uint64_t\<close> as words, and the
    little-endian readers and writers that \<open>expansion_protocol.c\<close> and
    \<open>bridge_session.c\<close> both hold as static functions.
  \<^item> The error codes \<open>esp_err_t\<close> as a datatype.
  \<^item> A weakest-precondition calculus for the library's state monad, in which the
    operations that touch a task's state or the platform are written.
  \<^item> Two families of interfaces as locales: a machine with an invariant, and a decoder
    that is fed one byte at a time.
\<close>

unbundle bit_operations_syntax

section \<open>Machine integers\<close>

type_synonym u8 = "8 word"
type_synonym u16 = "16 word"
type_synonym u32 = "32 word"
type_synonym u64 = "64 word"

named_theorems word_bytes

definition write_u16_le :: "u16 \<Rightarrow> u8 list" where
  "write_u16_le v = [ucast v, ucast (drop_bit 8 v)]"

definition write_u32_le :: "u32 \<Rightarrow> u8 list" where
  "write_u32_le v =
     [ucast v, ucast (drop_bit 8 v), ucast (drop_bit 16 v), ucast (drop_bit 24 v)]"

definition read_u16_le :: "u8 list \<Rightarrow> u16" where
  "read_u16_le input = ucast (input ! 0) OR push_bit 8 (ucast (input ! 1))"

definition read_u32_le :: "u8 list \<Rightarrow> u32" where
  "read_u32_le input =
     ucast (input ! 0) OR push_bit 8 (ucast (input ! 1)) OR
     push_bit 16 (ucast (input ! 2)) OR push_bit 24 (ucast (input ! 3))"

lemma length_write_u16_le [simp]: "length (write_u16_le v) = 2"
  by (simp add: write_u16_le_def)

lemma length_write_u32_le [simp]: "length (write_u32_le v) = 4"
  by (simp add: write_u32_le_def)

lemma read_write_u16_le [simp, word_bytes]: "read_u16_le (write_u16_le v @ xs) = v"
  by (rule bit_word_eqI)
     (auto simp: read_u16_le_def write_u16_le_def bit_simps)

lemma read_write_u32_le [simp, word_bytes]: "read_u32_le (write_u32_le v @ xs) = v"
proof (rule bit_word_eqI)
  fix n :: nat
  assume "n < LENGTH(32)"
  then consider "n < 8" | "8 \<le> n" "n < 16" | "16 \<le> n" "n < 24" | "24 \<le> n" "n < 32"
    by fastforce
  then show "bit (read_u32_le (write_u32_le v @ xs)) n = bit v n"
    by cases (auto simp: read_u32_le_def write_u32_le_def bit_simps)
qed

lemma bit_u8_beyond: "8 \<le> n \<Longrightarrow> \<not> bit (a :: u8) n"
  by (auto dest: bit_imp_le_length)

lemma write_read_u16_le [word_bytes]: "write_u16_le (read_u16_le [a, b]) = [a, b]"
  by (auto simp: read_u16_le_def write_u16_le_def bit_simps bit_u8_beyond
      intro!: bit_word_eqI)

lemma write_read_u32_le [word_bytes]: "write_u32_le (read_u32_le [a, b, c, d]) = [a, b, c, d]"
  by (auto simp: read_u32_le_def write_u32_le_def bit_simps bit_u8_beyond
      intro!: bit_word_eqI)

lemma u8_le_2: "(c :: u8) \<le> 2 \<longleftrightarrow> c = 0 \<or> c = 1 \<or> c = 2"
  by (auto, unat_arith)

lemma u32_le_1: "(c :: u32) \<le> 1 \<longleftrightarrow> c = 0 \<or> c = 1"
  by (auto, unat_arith)

lemma unat_ucast_u8_u32 [simp]: "unat (ucast (c :: u8) :: u32) = unat c"
  using unsigned_less [of c, where ?'a = nat]
  by (simp add: unsigned_ucast_eq take_bit_nat_eq_self)

lemma ucast_u8_u32_le_1: "(ucast (c :: u8) :: u32) \<le> 1 \<longleftrightarrow> c = 0 \<or> c = 1"
  using unat_ucast_u8_u32 [of c] by (auto simp: word_le_nat_alt, unat_arith)

lemma xor_eq_0_iff [simp]: "x XOR y = 0 \<longleftrightarrow> x = (y :: 'a :: len word)"
  by (auto simp: bit_eq_iff bit_simps)

text \<open>Reading from a longer buffer reads the same bytes.\<close>

lemma read_u16_le_append: "2 \<le> length p \<Longrightarrow> read_u16_le (p @ q) = read_u16_le p"
  by (auto simp: read_u16_le_def nth_append)

lemma read_u32_le_append: "4 \<le> length p \<Longrightarrow> read_u32_le (p @ q) = read_u32_le p"
  by (auto simp: read_u32_le_def nth_append)

text \<open>An array that holds the bytes received so far, written at its index.\<close>

lemma take_update_used:
  "take n xs = ys \<Longrightarrow> length ys = n \<Longrightarrow> n < length xs \<Longrightarrow> take (Suc n) (xs[n := b]) = ys @ [b]"
  by (simp add: take_Suc_conv_app_nth)

lemma nth_of_take: "take n xs = ys \<Longrightarrow> i < length ys \<Longrightarrow> xs ! i = ys ! i"
  by (auto simp: min_def split: if_splits)

lemma prefix_of_take: "take (length ys) xs = ys \<Longrightarrow> \<exists>zs. xs = ys @ zs"
  by (metis append_take_drop_id)

text \<open>The bytes of a C string literal, without its terminator.\<close>

definition ascii :: "string \<Rightarrow> u8 list" where
  "ascii s = map of_char s"

lemma length_ascii [simp]: "length (ascii s) = length s"
  by (simp add: ascii_def)

section \<open>Error codes\<close>

text \<open>
  \<open>esp_err_t\<close> is an integer of the platform. The codes the sources name are
  constructors; any other code a platform call returns is kept as it is.
\<close>

datatype esp_err =
    ESP_OK
  | ESP_FAIL
  | ESP_ERR_NO_MEM
  | ESP_ERR_INVALID_ARG
  | ESP_ERR_INVALID_STATE
  | ESP_ERR_INVALID_SIZE
  | ESP_ERR_NOT_SUPPORTED
  | ESP_ERR_TIMEOUT
  | ESP_ERR_INVALID_RESPONSE
  | ESP_ERR_INVALID_CRC
  | ESP_ERR_NVS_NOT_FOUND
  | ESP_ERR_NVS_NO_FREE_PAGES
  | ESP_ERR_NVS_NEW_VERSION_FOUND
  | ESP_ERR_OTHER int

section \<open>Weakest preconditions over the state monad\<close>

text \<open>
  An operation of a task is a value of the library's state monad. \<open>wp m Q s\<close> says that
  running \<open>m\<close> from \<open>s\<close> ends in a result and a state that satisfy \<open>Q\<close>; the monad is total
  and deterministic, so this is total correctness. The equations compute it through the
  \<open>do\<close> blocks.
\<close>

abbreviation ret :: "'a \<Rightarrow> ('s, 'a) state" where
  "ret \<equiv> State_Monad.return"

definition gets :: "('s \<Rightarrow> 'a) \<Rightarrow> ('s, 'a) state" where
  "gets f = State (\<lambda>s. (f s, s))"

definition modify :: "('s \<Rightarrow> 's) \<Rightarrow> ('s, unit) state" where
  "modify f = State (\<lambda>s. ((), f s))"

definition wp :: "('s, 'a) state \<Rightarrow> ('a \<Rightarrow> 's \<Rightarrow> bool) \<Rightarrow> 's \<Rightarrow> bool" where
  "wp m Q s = (case run_state m s of (a, s') \<Rightarrow> Q a s')"

text \<open>An \<open>if\<close> without \<open>else\<close>.\<close>

definition do_if :: "bool \<Rightarrow> ('s, unit) state \<Rightarrow> ('s, unit) state" where
  "do_if b m = (if b then m else ret ())"

lemma run_state_gets [simp]: "run_state (gets f) s = (f s, s)"
  by (simp add: gets_def)

lemma run_state_modify [simp]: "run_state (modify f) s = ((), f s)"
  by (simp add: modify_def)

lemma wp_return [simp]: "wp (State_Monad.return a) Q s = Q a s"
  by (simp add: wp_def)

lemma wp_bind [simp]: "wp (State_Monad.bind m f) Q s = wp m (\<lambda>a. wp (f a) Q) s"
  by (simp add: wp_def split: prod.splits)

lemma wp_gets [simp]: "wp (gets f) Q s = Q (f s) s"
  by (simp add: wp_def)

lemma wp_modify [simp]: "wp (modify f) Q s = Q () (f s)"
  by (simp add: wp_def)

lemma wp_do_if [simp]: "wp (do_if b m) Q s = (if b then wp m Q s else Q () s)"
  by (simp add: do_if_def)

lemma wp_if: "wp (if b then m else n) Q s = (if b then wp m Q s else wp n Q s)"
  by simp

lemma wp_mono: "wp m Q s \<Longrightarrow> (\<And>a t. Q a t \<Longrightarrow> R a t) \<Longrightarrow> wp m R s"
  by (auto simp: wp_def split: prod.splits)

lemma wp_conj: "wp m (\<lambda>a t. Q a t \<and> R a t) s = (wp m Q s \<and> wp m R s)"
  by (auto simp: wp_def split: prod.splits)

lemma wp_trivial: "wp m (\<lambda>_ _. True) s"
  by (simp add: wp_def split: prod.splits)

lemma wp_both:
  "wp m Q s \<Longrightarrow> wp m R s \<Longrightarrow> (\<And>a t. Q a t \<Longrightarrow> R a t \<Longrightarrow> S a t) \<Longrightarrow> wp m S s"
  by (auto simp: wp_def split: prod.splits)

lemma wp_run: "run_state m s = (a, t) \<Longrightarrow> wp m Q s = Q a t"
  by (simp add: wp_def)

lemma wpD: "wp m Q s \<Longrightarrow> run_state m s = (a, t) \<Longrightarrow> Q a t"
  by (simp add: wp_def)

text \<open>
  \<open>preserves I m\<close>: every run of \<open>m\<close> keeps the state predicate \<open>I\<close>. The rules follow the
  shape of the operation, so an invariant of a handler is proved from the invariants of
  its calls.
\<close>

definition preserves :: "('s \<Rightarrow> bool) \<Rightarrow> ('s, 'a) state \<Rightarrow> bool" where
  "preserves I m = (\<forall>s. I s \<longrightarrow> wp m (\<lambda>_. I) s)"

named_theorems preserves_rules

lemma preservesI: "(\<And>s. I s \<Longrightarrow> wp m (\<lambda>_. I) s) \<Longrightarrow> preserves I m"
  by (simp add: preserves_def)

lemma preservesD: "preserves I m \<Longrightarrow> I s \<Longrightarrow> wp m (\<lambda>_. I) s"
  by (simp add: preserves_def)

lemma preserves_run: "preserves I m \<Longrightarrow> run_state m s = (a, t) \<Longrightarrow> I s \<Longrightarrow> I t"
  by (auto simp: preserves_def wp_def)

lemma preserves_return [preserves_rules]: "preserves I (State_Monad.return a)"
  by (simp add: preserves_def)

lemma preserves_gets [preserves_rules]: "preserves I (gets f)"
  by (simp add: preserves_def)

lemma preserves_modify: "(\<And>s. I s \<Longrightarrow> I (f s)) \<Longrightarrow> preserves I (modify f)"
  by (simp add: preserves_def)

lemma preserves_bind [preserves_rules]:
  "preserves I m \<Longrightarrow> (\<And>a. preserves I (f a)) \<Longrightarrow> preserves I (State_Monad.bind m f)"
  by (auto simp: preserves_def intro: wp_mono)

lemma preserves_if [preserves_rules]:
  "preserves I m \<Longrightarrow> preserves I n \<Longrightarrow> preserves I (if b then m else n)"
  by simp

lemma preserves_do_if [preserves_rules]: "preserves I m \<Longrightarrow> preserves I (do_if b m)"
  by (simp add: preserves_def)

lemma preserves_case_prod [preserves_rules]:
  "(\<And>a b. x = (a, b) \<Longrightarrow> preserves I (f a b)) \<Longrightarrow> preserves I (case x of (a, b) \<Rightarrow> f a b)"
  by (cases x) simp

lemma preserves_case_option [preserves_rules]:
  "preserves I m \<Longrightarrow> (\<And>a. preserves I (f a)) \<Longrightarrow>
     preserves I (case x of None \<Rightarrow> m | Some a \<Rightarrow> f a)"
  by (cases x) simp_all

section \<open>Interfaces\<close>

subsection \<open>A machine with an invariant\<close>

locale invariant_machine =
  fixes step :: "'s \<Rightarrow> 'e \<Rightarrow> 's"
    and inv :: "'s \<Rightarrow> bool"
  assumes inv_step: "inv s \<Longrightarrow> inv (step s e)"
begin

lemma inv_run: "inv s \<Longrightarrow> inv (foldl step s es)"
  by (induction es arbitrary: s) (simp_all add: inv_step)

end

locale started_machine = invariant_machine +
  fixes init :: 'a
  assumes inv_init: "inv init"
begin

lemma inv_reachable: "inv (foldl step init es)"
  by (rule inv_run [OF inv_init])

end

subsection \<open>A decoder fed one byte at a time\<close>

text \<open>
  Both wire formats are decoded by a function that takes the decoder and one byte and
  answers a verdict: more bytes are needed, or something definite, and then the decoder
  has been reset. \<open>decoder_feed\<close> collects the definite verdicts over a run of bytes.
\<close>

fun decoder_feed :: "('d \<Rightarrow> u8 \<Rightarrow> 'v \<times> 'd) \<Rightarrow> 'v \<Rightarrow> 'd \<Rightarrow> u8 list \<Rightarrow> 'v list \<times> 'd" where
  "decoder_feed push more d [] = ([], d)"
| "decoder_feed push more d (b # bs) =
     (let (v, d') = push d b;
          (vs, d'') = decoder_feed push more d' bs
      in (if v = more then vs else v # vs, d''))"

lemma decoder_feed_append:
  "decoder_feed push more d (as @ bs) =
     (let (vs, d') = decoder_feed push more d as;
          (ws, d'') = decoder_feed push more d' bs
      in (vs @ ws, d''))"
  by (induction "push" more d as rule: decoder_feed.induct)
     (auto simp: Let_def split: prod.splits)

locale framed_decoder =
  fixes push :: "'d \<Rightarrow> u8 \<Rightarrow> 'v \<times> 'd"
    and more :: 'v
    and reset :: 'd
    and encode :: "'m \<Rightarrow> u8 list"
    and ok :: "'m \<Rightarrow> bool"
    and ready :: "'m \<Rightarrow> 'v"
  assumes verdict_resets: "push d b = (v, d') \<Longrightarrow> v \<noteq> more \<Longrightarrow> d' = reset"
    and decodes: "ok m \<Longrightarrow> decoder_feed push more reset (encode m) = ([ready m], reset)"
begin

text \<open>A back-to-back stream of encoded messages decodes to exactly these messages.\<close>

lemma stream_decodes:
  "list_all ok ms \<Longrightarrow>
     decoder_feed push more reset (concat (map encode ms)) = (map ready ms, reset)"
  by (induction ms) (simp_all add: decoder_feed_append decodes)

text \<open>
  However the stream is cut into segments, feeding the segments one after the other gives
  the same verdicts and leaves the same decoder.
\<close>

lemma segmented_stream_decodes:
  assumes "list_all ok ms" and "concat segments = concat (map encode ms)"
  shows "foldl (\<lambda>(vs, d) seg. let (ws, d') = decoder_feed push more d seg in (vs @ ws, d'))
           ([], reset) segments = (map ready ms, reset)"
proof -
  have "foldl (\<lambda>(vs, d) seg. let (ws, d') = decoder_feed push more d seg in (vs @ ws, d'))
          (us, d) segs =
        (let (ws, d') = decoder_feed push more d (concat segs) in (us @ ws, d'))" for us d segs
    by (induction segs arbitrary: us d)
       (auto simp: decoder_feed_append Let_def split: prod.splits)
  then show ?thesis
    using stream_decodes [OF assms(1)] assms(2) by simp
qed

text \<open>
  After a definite verdict nothing of the past is left: what follows is decoded as on a
  fresh decoder, so one corrupted message cannot spoil the next.
\<close>

lemma resynchronises:
  assumes "decoder_feed push more d (bs @ [b]) = (vs, d')"
    and "fst (push (snd (decoder_feed push more d bs)) b) \<noteq> more"
    and "list_all ok ms"
  shows "decoder_feed push more d (bs @ [b] @ concat (map encode ms)) =
         (vs @ map ready ms, reset)"
proof -
  obtain us e where bs: "decoder_feed push more d bs = (us, e)" by fastforce
  obtain v e' where b: "push e b = (v, e')" by fastforce
  from assms(2) bs b have "e' = reset" and "v \<noteq> more"
    using verdict_resets by auto
  with assms(1) bs b have "vs = us @ [v]"
    by (auto simp: decoder_feed_append)
  with bs b \<open>e' = reset\<close> \<open>v \<noteq> more\<close> show ?thesis
    by (simp add: decoder_feed_append stream_decodes [OF assms(3)])
qed

end

subsection \<open>A decoder that implements a simpler one\<close>

text \<open>
  \<open>push\<close> works on the C buffer, \<open>wire\<close> on the list of bytes received so far; \<open>holds\<close>
  relates the two. What is proved of \<open>wire\<close> carries over.
\<close>

locale decoder_refinement =
  fixes push :: "'d \<Rightarrow> u8 \<Rightarrow> 'v \<times> 'd"
    and wire :: "'p \<Rightarrow> u8 \<Rightarrow> 'v \<times> 'p"
    and more :: 'v
    and holds :: "'d \<Rightarrow> 'p \<Rightarrow> bool"
  assumes push_refines: "holds d p \<Longrightarrow>
    \<exists>d'. push d b = (fst (wire p b), d') \<and> holds d' (snd (wire p b))"
begin

lemma feed_refines:
  assumes "holds d p" and "decoder_feed wire more p bs = (vs, rest)"
  shows "\<exists>d'. decoder_feed push more d bs = (vs, d') \<and> holds d' rest"
  using assms
proof (induction bs arbitrary: d p vs rest)
  case (Cons b bs)
  obtain v p1 where w: "wire p b = (v, p1)" by fastforce
  obtain ws where ws: "decoder_feed wire more p1 bs = (ws, rest)"
    and vs: "vs = (if v = more then ws else v # ws)"
    using Cons.prems(2) w by (auto simp: Let_def split: prod.splits if_splits)
  obtain d1 where "push d b = (v, d1)" and "holds d1 p1"
    using push_refines [OF Cons.prems(1), of b] w by auto
  moreover from this(2) ws obtain d' where
    "decoder_feed push more d1 bs = (ws, d')" and "holds d' rest"
    using Cons.IH by blast
  ultimately show ?case using vs by (simp add: Let_def)
qed simp

lemma invariant_push:
  assumes "\<exists>p. holds d p"
  shows "\<exists>p. holds (snd (push d b)) p"
  using assms push_refines [of d _ b] by fastforce

end

sublocale decoder_refinement \<subseteq> invariant_machine "\<lambda>d b. snd (push d b)" "\<lambda>d. \<exists>p. holds d p"
  by unfold_locales (rule invariant_push)

end
