(* ===== verification/Bridge_Config.thy ===== *)
theory Bridge_Config
  imports Prelude
begin

text \<open>
  The constants of \<open>bridge_config.h\<close> that the modelled code reads. Sizes and times are
  natural numbers: the sources only compare them, multiply them by 1000 in 64 bits or
  use them as array bounds, so no wrap-around is possible.
\<close>

definition FLIPFORGE_BRIDGE_PRODUCT :: string where
  [simp]: "FLIPFORGE_BRIDGE_PRODUCT = ''Flipforge Bridge''"

definition FLIPFORGE_BRIDGE_VERSION :: string where
  [simp]: "FLIPFORGE_BRIDGE_VERSION = ''0.1.3''"

definition FLIPFORGE_BRIDGE_PROTOCOL_VERSION :: u8 where
  [simp]: "FLIPFORGE_BRIDGE_PROTOCOL_VERSION = 1"

definition BRIDGE_TCP_PORT :: nat where
  [simp]: "BRIDGE_TCP_PORT = 4242"

definition BRIDGE_TCP_BACKLOG :: nat where
  [simp]: "BRIDGE_TCP_BACKLOG = 2"

definition BRIDGE_TCP_IO_TIMEOUT_MS :: nat where
  [simp]: "BRIDGE_TCP_IO_TIMEOUT_MS = 5000"

definition BRIDGE_CLIENT_IDLE_TIMEOUT_MS :: nat where
  [simp]: "BRIDGE_CLIENT_IDLE_TIMEOUT_MS = 30000"

definition BRIDGE_EXPANSION_INITIAL_BAUD :: u32 where
  [simp]: "BRIDGE_EXPANSION_INITIAL_BAUD = 9600"

definition BRIDGE_EXPANSION_STARTUP_DELAY_MS :: nat where
  [simp]: "BRIDGE_EXPANSION_STARTUP_DELAY_MS = 3000"

definition BRIDGE_EXPANSION_TIMEOUT_MS :: nat where
  [simp]: "BRIDGE_EXPANSION_TIMEOUT_MS = 250"

definition BRIDGE_EXPANSION_ACK_TIMEOUT_MS :: nat where
  [simp]: "BRIDGE_EXPANSION_ACK_TIMEOUT_MS = 200"

definition BRIDGE_EXPANSION_HEARTBEAT_MS :: nat where
  [simp]: "BRIDGE_EXPANSION_HEARTBEAT_MS = 100"

definition BRIDGE_EXPANSION_BAUD_DEAD_TIME_MS :: nat where
  [simp]: "BRIDGE_EXPANSION_BAUD_DEAD_TIME_MS = 25"

definition BRIDGE_EXPANSION_DETECT_PULSE_MS :: nat where
  [simp]: "BRIDGE_EXPANSION_DETECT_PULSE_MS = 2"

definition BRIDGE_EXPANSION_MAX_DATA :: nat where
  [simp]: "BRIDGE_EXPANSION_MAX_DATA = 64"

definition BRIDGE_EXPANSION_MAX_RETRIES :: nat where
  [simp]: "BRIDGE_EXPANSION_MAX_RETRIES = 3"

definition BRIDGE_EXPANSION_RETRY_BASE_MS :: nat where
  [simp]: "BRIDGE_EXPANSION_RETRY_BASE_MS = 250"

definition BRIDGE_RPC_RX_BUFFER_BYTES :: nat where
  [simp]: "BRIDGE_RPC_RX_BUFFER_BYTES = 8192"

definition BRIDGE_TCP_READ_BYTES :: nat where
  [simp]: "BRIDGE_TCP_READ_BYTES = 1024"

definition BRIDGE_MANAGEMENT_MAX_PAYLOAD :: nat where
  [simp]: "BRIDGE_MANAGEMENT_MAX_PAYLOAD = 512"

definition BRIDGE_MANAGEMENT_HEADER_SIZE :: nat where
  [simp]: "BRIDGE_MANAGEMENT_HEADER_SIZE = 14"

definition BRIDGE_NONCE_BYTES :: nat where
  [simp]: "BRIDGE_NONCE_BYTES = 32"

definition BRIDGE_SESSION_ID_BYTES :: nat where
  [simp]: "BRIDGE_SESSION_ID_BYTES = 8"

definition BRIDGE_PAIRING_SECRET_BYTES :: nat where
  [simp]: "BRIDGE_PAIRING_SECRET_BYTES = 32"

definition BRIDGE_HMAC_BYTES :: nat where
  [simp]: "BRIDGE_HMAC_BYTES = 32"

definition BRIDGE_AP_PASSWORD_BYTES :: nat where
  [simp]: "BRIDGE_AP_PASSWORD_BYTES = 20"

definition BRIDGE_PAIRING_WINDOW_MS :: nat where
  [simp]: "BRIDGE_PAIRING_WINDOW_MS = 120000"

end
