(* ===== verification/Expansion_Protocol.thy ===== *)
theory Expansion_Protocol
  imports Bridge_Config
begin

text \<open>
  \<open>expansion_protocol.h\<close> and \<open>expansion_protocol.c\<close>: the frames of the Flipper Expansion
  protocol, their encoder, and the decoder that is fed one UART byte at a time.

  The decoder's buffer is the C array of 67 bytes, written by index. A null pointer has
  no counterpart: every operation takes values, as every caller passes the address of an
  object. An encoder that returns false leaves bytes in the output buffer that no caller
  reads; the model answers None.
\<close>

section \<open>Frames\<close>

definition ExpansionFrameTypeHeartbeat :: u8 where [simp]: "ExpansionFrameTypeHeartbeat = 1"
definition ExpansionFrameTypeStatus :: u8 where [simp]: "ExpansionFrameTypeStatus = 2"
definition ExpansionFrameTypeBaudRate :: u8 where [simp]: "ExpansionFrameTypeBaudRate = 3"
definition ExpansionFrameTypeControl :: u8 where [simp]: "ExpansionFrameTypeControl = 4"
definition ExpansionFrameTypeData :: u8 where [simp]: "ExpansionFrameTypeData = 5"

datatype ExpansionFrameError =
    ExpansionFrameErrorNone
  | ExpansionFrameErrorUnknown
  | ExpansionFrameErrorBaudRate

fun frame_error_code :: "ExpansionFrameError \<Rightarrow> u8" where
  "frame_error_code ExpansionFrameErrorNone = 0"
| "frame_error_code ExpansionFrameErrorUnknown = 1"
| "frame_error_code ExpansionFrameErrorBaudRate = 2"

text \<open>The cast of a received status byte, None where the decoder's range check refuses it.\<close>

definition frame_error_of :: "u8 \<Rightarrow> ExpansionFrameError option" where
  "frame_error_of c =
     (if c > frame_error_code ExpansionFrameErrorBaudRate then None
      else if c = 0 then Some ExpansionFrameErrorNone
      else if c = 1 then Some ExpansionFrameErrorUnknown
      else Some ExpansionFrameErrorBaudRate)"

text \<open>
  A control command is the integer of the C enumeration, since the encoder checks its
  range. The data content is the C structure: a size and an array of 64 bytes.
  \<open>InvalidFrame\<close> is a frame whose type field holds no enumerator.
\<close>

type_synonym ExpansionControlCommand = u32

definition ExpansionControlStartRpc :: ExpansionControlCommand where
  [simp]: "ExpansionControlStartRpc = 0"
definition ExpansionControlStopRpc :: ExpansionControlCommand where
  [simp]: "ExpansionControlStopRpc = 1"

datatype ExpansionFrame =
    HeartbeatFrame
  | StatusFrame ExpansionFrameError
  | BaudRateFrame u32
  | ControlFrame ExpansionControlCommand
  | DataFrame u8 "u8 list"
  | InvalidFrame u32

section \<open>Encoding\<close>

definition expansion_protocol_checksum :: "u8 list \<Rightarrow> nat \<Rightarrow> u8" where
  "expansion_protocol_checksum bytes n =
     foldl (\<lambda>checksum b. checksum XOR b) 0 (take n bytes)"

definition encode_finish :: "u8 list \<Rightarrow> nat \<Rightarrow> u8 list option" where
  "encode_finish body capacity =
     (if capacity < length body + 1 then None
      else Some (body @ [expansion_protocol_checksum body (length body)]))"

definition expansion_protocol_encode :: "ExpansionFrame \<Rightarrow> nat \<Rightarrow> u8 list option" where
  "expansion_protocol_encode frame capacity =
     (if capacity < 2 then None else
      case frame of
        HeartbeatFrame \<Rightarrow> encode_finish [ExpansionFrameTypeHeartbeat] capacity
      | StatusFrame status \<Rightarrow>
          if capacity < 2 + 1 then None
          else encode_finish [ExpansionFrameTypeStatus, frame_error_code status] capacity
      | BaudRateFrame baud_rate \<Rightarrow>
          if capacity < 5 + 1 then None
          else encode_finish (ExpansionFrameTypeBaudRate # write_u32_le baud_rate) capacity
      | ControlFrame control \<Rightarrow>
          if capacity < 2 + 1 \<or> control > ExpansionControlStopRpc then None
          else encode_finish [ExpansionFrameTypeControl, ucast control] capacity
      | DataFrame sz bytes \<Rightarrow>
          if unat sz > BRIDGE_EXPANSION_MAX_DATA then None
          else if capacity < 2 + unat sz + 1 then None
          else encode_finish (ExpansionFrameTypeData # sz # take (unat sz) bytes) capacity
      | InvalidFrame t \<Rightarrow> None)"

section \<open>Decoding\<close>

datatype ExpansionDecodeResult =
    ExpansionDecodeNeedMore
  | ExpansionDecodeFrameReady ExpansionFrame
  | ExpansionDecodeMalformed
  | ExpansionDecodeChecksumError

record ExpansionDecoder =
  ed_bytes :: "u8 list"
  ed_used :: nat
  ed_expected :: nat

definition expansion_decoder_capacity :: nat where
  [simp]: "expansion_decoder_capacity = BRIDGE_EXPANSION_MAX_DATA + 3"

definition expansion_decoder_reset :: ExpansionDecoder where
  "expansion_decoder_reset =
     \<lparr>ed_bytes = replicate expansion_decoder_capacity 0, ed_used = 0, ed_expected = 0\<rparr>"

text \<open>None where the C function returns false.\<close>

definition decoder_set_expected :: "ExpansionDecoder \<Rightarrow> ExpansionDecoder option" where
  "decoder_set_expected d =
     (if ed_used d = 1 then
        if ed_bytes d ! 0 = ExpansionFrameTypeHeartbeat then Some (d\<lparr>ed_expected := 2\<rparr>)
        else if ed_bytes d ! 0 = ExpansionFrameTypeStatus \<or>
                ed_bytes d ! 0 = ExpansionFrameTypeControl then Some (d\<lparr>ed_expected := 3\<rparr>)
        else if ed_bytes d ! 0 = ExpansionFrameTypeBaudRate then Some (d\<lparr>ed_expected := 6\<rparr>)
        else if ed_bytes d ! 0 = ExpansionFrameTypeData then Some (d\<lparr>ed_expected := 0\<rparr>)
        else None
      else if ed_used d = 2 \<and> ed_bytes d ! 0 = ExpansionFrameTypeData then
        if unat (ed_bytes d ! 1) > BRIDGE_EXPANSION_MAX_DATA then None
        else Some (d\<lparr>ed_expected := 3 + unat (ed_bytes d ! 1)\<rparr>)
      else Some d)"

text \<open>
  The frame that the final switch of \<open>expansion_decoder_push\<close> fills in, None where the
  switch answers malformed. The frame is cleared first, so a data array is zero behind
  the received bytes.
\<close>

definition decoder_frame :: "u8 list \<Rightarrow> ExpansionFrame option" where
  "decoder_frame bytes =
     (if bytes ! 0 = ExpansionFrameTypeHeartbeat then Some HeartbeatFrame
      else if bytes ! 0 = ExpansionFrameTypeStatus then
        map_option StatusFrame (frame_error_of (bytes ! 1))
      else if bytes ! 0 = ExpansionFrameTypeBaudRate then
        Some (BaudRateFrame (read_u32_le (drop 1 bytes)))
      else if bytes ! 0 = ExpansionFrameTypeControl then
        if (ucast (bytes ! 1) :: ExpansionControlCommand) > ExpansionControlStopRpc then None
        else Some (ControlFrame (ucast (bytes ! 1)))
      else if bytes ! 0 = ExpansionFrameTypeData then
        Some (DataFrame (bytes ! 1)
               (take (unat (bytes ! 1)) (drop 2 bytes) @
                replicate (BRIDGE_EXPANSION_MAX_DATA - unat (bytes ! 1)) 0))
      else None)"

text \<open>
  \<open>decoder_store\<close> is the write of the byte, \<open>decoder_finish\<close> the part of
  \<open>expansion_decoder_push\<close> behind the length bookkeeping.
\<close>

definition decoder_store :: "ExpansionDecoder \<Rightarrow> u8 \<Rightarrow> ExpansionDecoder" where
  "decoder_store d byte =
     d\<lparr>ed_bytes := (ed_bytes d)[ed_used d := byte], ed_used := ed_used d + 1\<rparr>"

definition decoder_finish :: "ExpansionDecoder \<Rightarrow> ExpansionDecodeResult \<times> ExpansionDecoder" where
  "decoder_finish d =
     (if ed_expected d = 0 \<or> ed_used d < ed_expected d then (ExpansionDecodeNeedMore, d)
      else if ed_used d \<noteq> ed_expected d
      then (ExpansionDecodeMalformed, expansion_decoder_reset)
      else
        let body_size = ed_expected d - 1 in
        if expansion_protocol_checksum (ed_bytes d) body_size \<noteq> ed_bytes d ! body_size
        then (ExpansionDecodeChecksumError, expansion_decoder_reset)
        else
          case decoder_frame (ed_bytes d) of
            None \<Rightarrow> (ExpansionDecodeMalformed, expansion_decoder_reset)
          | Some frame \<Rightarrow> (ExpansionDecodeFrameReady frame, expansion_decoder_reset))"

definition expansion_decoder_push ::
    "ExpansionDecoder \<Rightarrow> u8 \<Rightarrow> ExpansionDecodeResult \<times> ExpansionDecoder" where
  "expansion_decoder_push decoder byte =
     (if ed_used decoder \<ge> expansion_decoder_capacity
      then (ExpansionDecodeMalformed, expansion_decoder_reset)
      else
        case decoder_set_expected (decoder_store decoder byte) of
          None \<Rightarrow> (ExpansionDecodeMalformed, expansion_decoder_reset)
        | Some d \<Rightarrow> decoder_finish d)"

section \<open>The wire format\<close>

text \<open>
  The decoder refined: what it holds is a prefix of a frame, and the expected length is a
  function of that prefix (None: refused, 0: not known yet). \<open>frame_verdict\<close> is the answer
  on a complete frame.
\<close>

fun expected_length :: "u8 list \<Rightarrow> nat option" where
  "expected_length [] = Some 0"
| "expected_length (t # rest) =
     (if t = ExpansionFrameTypeHeartbeat then Some 2
      else if t = ExpansionFrameTypeStatus \<or> t = ExpansionFrameTypeControl then Some 3
      else if t = ExpansionFrameTypeBaudRate then Some 6
      else if t = ExpansionFrameTypeData then
        (case rest of
           [] \<Rightarrow> Some 0
         | n # _ \<Rightarrow> if unat n > BRIDGE_EXPANSION_MAX_DATA then None else Some (3 + unat n))
      else None)"

definition frame_verdict :: "u8 list \<Rightarrow> ExpansionDecodeResult" where
  "frame_verdict bytes =
     (if expansion_protocol_checksum bytes (length bytes - 1) \<noteq> last bytes
      then ExpansionDecodeChecksumError
      else case decoder_frame bytes of
             None \<Rightarrow> ExpansionDecodeMalformed
           | Some frame \<Rightarrow> ExpansionDecodeFrameReady frame)"

definition wire_push :: "u8 list \<Rightarrow> u8 \<Rightarrow> ExpansionDecodeResult \<times> u8 list" where
  "wire_push prefix byte =
     (case expected_length (prefix @ [byte]) of
        None \<Rightarrow> (ExpansionDecodeMalformed, [])
      | Some n \<Rightarrow>
          if n = 0 \<or> length prefix + 1 < n then (ExpansionDecodeNeedMore, prefix @ [byte])
          else (frame_verdict (prefix @ [byte]), []))"

text \<open>
  The abstraction relation, and the invariant of the decoder: the buffer keeps its size,
  the prefix is proper, and a frame never outgrows the buffer.
\<close>

definition proper_prefix :: "u8 list \<Rightarrow> bool" where
  "proper_prefix prefix =
     (case expected_length prefix of
        None \<Rightarrow> False
      | Some n \<Rightarrow> prefix = [] \<or> length prefix < n \<or> (n = 0 \<and> length prefix = 1))"

definition decoder_holds :: "ExpansionDecoder \<Rightarrow> u8 list \<Rightarrow> bool" where
  "decoder_holds d prefix =
     (length (ed_bytes d) = expansion_decoder_capacity \<and>
      ed_used d = length prefix \<and>
      take (length prefix) (ed_bytes d) = prefix \<and>
      expected_length prefix = Some (ed_expected d) \<and>
      proper_prefix prefix \<and>
      (prefix = [] \<longrightarrow> d = expansion_decoder_reset))"

definition decoder_invariant :: "ExpansionDecoder \<Rightarrow> bool" where
  "decoder_invariant d = (\<exists>prefix. decoder_holds d prefix)"

lemma decoder_holds_reset [simp]: "decoder_holds d [] \<longleftrightarrow> d = expansion_decoder_reset"
  by (auto simp: decoder_holds_def expansion_decoder_reset_def proper_prefix_def)

lemma expected_length_le: "expected_length xs = Some n \<Longrightarrow> n \<le> expansion_decoder_capacity"
  by (cases xs) (auto split: if_splits list.splits)

lemma expected_length_ge: "expected_length xs = Some n \<Longrightarrow> n \<noteq> 0 \<Longrightarrow> 2 \<le> n"
  by (cases xs) (auto split: if_splits list.splits)

lemma decoder_holds_room:
  assumes "decoder_holds d prefix"
  shows "ed_used d < expansion_decoder_capacity"
  using assms expected_length_le [of prefix "ed_expected d"]
  by (auto simp: decoder_holds_def proper_prefix_def)

lemma checksum_take:
  "n \<le> m \<Longrightarrow> expansion_protocol_checksum (take m xs) n = expansion_protocol_checksum xs n"
  by (simp add: expansion_protocol_checksum_def min_absorb1)

text \<open>\<open>decoder_frame\<close> reads no further than the complete frame.\<close>

lemma decoder_frame_take:
  assumes "expected_length (take n xs) = Some n" and "n \<le> length xs" and "n \<noteq> 0"
  shows "decoder_frame (take n xs) = decoder_frame xs"
proof -
  from assms have "2 \<le> n" by (auto dest: expected_length_ge)
  with assms(2) obtain a b ys where xs: "xs = a # b # ys"
    by (cases xs; cases "tl xs") auto
  obtain m where n: "n = Suc (Suc m)" using \<open>2 \<le> n\<close> by (metis Suc_le_D numeral_2_eq_2 Suc_le_mono)
  show ?thesis
    using assms unfolding xs n
    by (auto simp: decoder_frame_def read_u32_le_def min_def nth_Cons' take_Cons' numeral_eq_Suc
        split: if_splits)
qed

text \<open>The length byte bookkeeping of the C code computes \<open>expected_length\<close>.\<close>

lemma decoder_set_expected_eq:
  assumes "length xs = n" and "0 < n" and "take n (ed_bytes d) = xs" and "n \<le> length (ed_bytes d)"
    and "ed_used d = n" and "1 < n \<Longrightarrow> expected_length (butlast xs) = Some (ed_expected d)"
  shows "decoder_set_expected d =
           map_option (\<lambda>e. d\<lparr>ed_expected := e\<rparr>) (expected_length xs)"
proof -
  from assms(1,2) obtain a ys where xs: "xs = a # ys" by (cases xs) auto
  have a: "ed_bytes d ! 0 = a" using nth_of_take [OF assms(3), of 0] xs by simp
  show ?thesis
  proof (cases ys)
    case Nil
    with xs a assms(1,5) show ?thesis by (simp add: decoder_set_expected_def)
  next
    case (Cons b zs)
    have b: "ed_bytes d ! Suc 0 = b" using nth_of_take [OF assms(3), of 1] xs Cons by simp
    have n: "n = Suc (Suc (length zs))" using assms(1) xs Cons by simp
    show ?thesis
    proof (cases zs)
      case Nil
      with xs Cons a b n assms(5,6) show ?thesis
        by (auto simp: decoder_set_expected_def split: if_splits)
    next
      case (Cons c zs')
      with xs \<open>ys = b # zs\<close> a b n assms(5,6) show ?thesis
        by (auto simp: decoder_set_expected_def split: if_splits)
    qed
  qed
qed

lemma wire_prefix_grows:
  assumes "proper_prefix prefix" and "expected_length (prefix @ [b]) = Some n"
  shows "length prefix + 1 \<le> n \<or> (n = 0 \<and> prefix = [])"
proof (cases prefix)
  case Nil
  with assms show ?thesis by (auto split: if_splits)
next
  case (Cons a as)
  with assms show ?thesis by (cases as) (auto simp: proper_prefix_def split: if_splits)
qed

lemma decoder_store_holds:
  assumes "decoder_holds d prefix"
  shows "length (ed_bytes (decoder_store d byte)) = expansion_decoder_capacity"
    and "ed_used (decoder_store d byte) = length (prefix @ [byte])"
    and "take (length (prefix @ [byte])) (ed_bytes (decoder_store d byte)) = prefix @ [byte]"
    and "decoder_set_expected (decoder_store d byte) =
      map_option (\<lambda>n. decoder_store d byte\<lparr>ed_expected := n\<rparr>) (expected_length (prefix @ [byte]))"
proof -
  have room: "ed_used d < expansion_decoder_capacity" using assms by (rule decoder_holds_room)
  show len: "length (ed_bytes (decoder_store d byte)) = expansion_decoder_capacity"
    and used: "ed_used (decoder_store d byte) = length (prefix @ [byte])"
    and tk: "take (length (prefix @ [byte])) (ed_bytes (decoder_store d byte)) = prefix @ [byte]"
    using assms room by (simp_all add: decoder_store_def decoder_holds_def take_update_used)
  have "ed_expected (decoder_store d byte) = ed_expected d" by (simp add: decoder_store_def)
  with len used tk room assms show "decoder_set_expected (decoder_store d byte) =
      map_option (\<lambda>n. decoder_store d byte\<lparr>ed_expected := n\<rparr>) (expected_length (prefix @ [byte]))"
    by (intro decoder_set_expected_eq) (auto simp: decoder_holds_def)
qed

text \<open>A complete frame in the buffer gets the verdict of its bytes.\<close>

lemma decoder_finish_complete:
  assumes "length (ed_bytes e) = expansion_decoder_capacity" and "ed_used e = length xs"
    and tk: "take (length xs) (ed_bytes e) = xs" and "xs \<noteq> []"
    and n: "expected_length xs = Some (length xs)"
  shows "decoder_finish (e\<lparr>ed_expected := length xs\<rparr>) = (frame_verdict xs, expansion_decoder_reset)"
proof -
  have "expansion_protocol_checksum (ed_bytes e) (length xs - 1) =
          expansion_protocol_checksum xs (length xs - 1)"
    using checksum_take [of "length xs - 1" "length xs" "ed_bytes e"] tk by simp
  moreover have "ed_bytes e ! (length xs - 1) = last xs"
    using nth_of_take [OF tk, of "length xs - 1"] assms(4) by (simp add: last_conv_nth)
  moreover have "decoder_frame xs = decoder_frame (ed_bytes e)"
    using decoder_frame_take [of "length xs" "ed_bytes e"] tk assms(1,4) n expected_length_le [OF n]
    by simp
  ultimately show ?thesis
    using assms(2,4) by (auto simp: decoder_finish_def frame_verdict_def Let_def split: option.splits)
qed

lemma decoder_push_refines_wire:
  assumes "decoder_holds d prefix"
  obtains d' where "expansion_decoder_push d byte = (fst (wire_push prefix byte), d')"
    and "decoder_holds d' (snd (wire_push prefix byte))"
proof -
  let ?e = "decoder_store d byte"
  define xs where "xs = prefix @ [byte]"
  note stored = decoder_store_holds [OF assms, of byte, folded xs_def]
  have push: "expansion_decoder_push d byte =
      (case expected_length xs of
         None \<Rightarrow> (ExpansionDecodeMalformed, expansion_decoder_reset)
       | Some n \<Rightarrow> decoder_finish (?e\<lparr>ed_expected := n\<rparr>))"
    using decoder_holds_room [OF assms] stored(4)
    by (simp add: expansion_decoder_push_def split: option.split)
  have wire: "wire_push prefix byte =
     (case expected_length xs of
        None \<Rightarrow> (ExpansionDecodeMalformed, [])
      | Some n \<Rightarrow>
          if n = 0 \<or> length xs < n then (ExpansionDecodeNeedMore, xs) else (frame_verdict xs, []))"
    by (simp add: wire_push_def xs_def split: option.split)
  show thesis
  proof (cases "expected_length xs")
    case None
    then show ?thesis
      by (intro that [of expansion_decoder_reset]) (simp_all add: push wire)
  next
    case n: (Some n)
    have grow: "length xs \<le> n \<or> n = 0 \<and> prefix = []"
      using wire_prefix_grows [of prefix byte n] n assms by (simp add: xs_def decoder_holds_def)
    show ?thesis
    proof (cases "n = 0 \<or> length xs < n")
      case True
      then have "decoder_holds (?e\<lparr>ed_expected := n\<rparr>) xs"
        using n stored(1-3) grow by (auto simp: decoder_holds_def proper_prefix_def xs_def)
      with True n stored(2) show ?thesis
        by (intro that [of "?e\<lparr>ed_expected := n\<rparr>"]) (auto simp: push wire decoder_finish_def)
    next
      case False
      with grow have "n = length xs" "xs \<noteq> []" by auto
      with n False decoder_finish_complete [OF stored(1-3)] show ?thesis
        by (intro that [of expansion_decoder_reset]) (simp_all add: push wire)
    qed
  qed
qed

section \<open>Feeding bytes\<close>

lemma frame_verdict_definite [simp]: "frame_verdict bs \<noteq> ExpansionDecodeNeedMore"
  by (simp add: frame_verdict_def split: option.split)

interpretation expansion_wire: decoder_refinement expansion_decoder_push wire_push
  ExpansionDecodeNeedMore decoder_holds
  by unfold_locales (metis decoder_push_refines_wire)

lemma expected_length_prefix:
  assumes "expected_length (p @ q) = Some n" and "n \<noteq> 0" and "p \<noteq> []"
  shows "expected_length p = Some n \<or> expected_length p = Some 0"
proof (cases p)
  case (Cons a as)
  with assms show ?thesis by (cases as) (auto split: if_splits list.splits)
qed (use assms in simp)

lemma wire_feed_frame:
  assumes "expected_length (p @ q) = Some (length (p @ q))" and "q \<noteq> []"
  shows "decoder_feed wire_push ExpansionDecodeNeedMore p q = ([frame_verdict (p @ q)], [])"
  using assms
proof (induction q arbitrary: p)
  case Nil
  then show ?case by simp
next
  case (Cons b q)
  show ?case
  proof (cases q)
    case Nil
    with Cons.prems show ?thesis by (simp add: wire_push_def)
  next
    case (Cons c q')
    have "expected_length (p @ [b]) = Some (length (p @ b # q)) \<or>
          expected_length (p @ [b]) = Some 0"
      using expected_length_prefix [of "p @ [b]" q] Cons.prems(1) by simp
    then have "wire_push p b = (ExpansionDecodeNeedMore, p @ [b])"
      using Cons by (auto simp: wire_push_def)
    with Cons.IH [of "p @ [b]"] Cons.prems(1) Cons show ?thesis by simp
  qed
qed

lemma wire_feed_silent:
  "decoder_feed wire_push ExpansionDecodeNeedMore p bs = ([], q) \<Longrightarrow> q = p @ bs"
proof (induction bs arbitrary: p)
  case (Cons b bs)
  then have "wire_push p b = (ExpansionDecodeNeedMore, p @ [b])"
    by (auto simp: wire_push_def Let_def split: prod.splits if_splits option.splits)
  with Cons show ?case by (fastforce simp: Let_def split: prod.splits)
qed simp

lemma wire_feed_ready:
  assumes "decoder_feed wire_push ExpansionDecodeNeedMore p bs =
             ([ExpansionDecodeFrameReady f], [])"
    and "proper_prefix p"
  shows "expected_length (p @ bs) = Some (length (p @ bs)) \<and> bs \<noteq> [] \<and>
         frame_verdict (p @ bs) = ExpansionDecodeFrameReady f"
  using assms
proof (induction bs arbitrary: p)
  case Nil
  then show ?case by simp
next
  case (Cons b bs)
  show ?case
  proof (cases "fst (wire_push p b) = ExpansionDecodeNeedMore")
    case True
    then obtain n where n: "expected_length (p @ [b]) = Some n" "n = 0 \<or> length p + 1 < n"
      and push: "wire_push p b = (ExpansionDecodeNeedMore, p @ [b])"
      by (auto simp: wire_push_def split: option.splits if_splits)
    with wire_prefix_grows [OF Cons.prems(2), of b n] have "proper_prefix (p @ [b])"
      by (auto simp: proper_prefix_def)
    with Cons.IH [of "p @ [b]"] Cons.prems(1) push show ?thesis
      by (auto simp: Let_def split: prod.splits)
  next
    case False
    with Cons.prems(1) have fr: "fst (wire_push p b) = ExpansionDecodeFrameReady f"
      and rest: "decoder_feed wire_push ExpansionDecodeNeedMore (snd (wire_push p b)) bs = ([], [])"
      by (auto simp: Let_def split: prod.splits if_splits)
    from wire_feed_silent [OF rest] have "bs = []" by simp
    from fr obtain n where n: "expected_length (p @ [b]) = Some n" "n \<noteq> 0" "n \<le> length p + 1"
      and "frame_verdict (p @ [b]) = ExpansionDecodeFrameReady f"
      by (auto simp: wire_push_def split: option.splits if_splits)
    with wire_prefix_grows [OF Cons.prems(2) n(1)] \<open>bs = []\<close> show ?thesis by simp
  qed
qed

section \<open>Encoder and decoder agree\<close>

text \<open>
  A frame as the decoder produces it: a data array has 64 bytes, zero behind its size.
\<close>

fun canonical_frame :: "ExpansionFrame \<Rightarrow> bool" where
  "canonical_frame (DataFrame n bytes) =
     (length bytes = BRIDGE_EXPANSION_MAX_DATA \<and>
      drop (unat n) bytes = replicate (BRIDGE_EXPANSION_MAX_DATA - unat n) 0)"
| "canonical_frame _ = True"

definition frame_bytes :: "ExpansionFrame \<Rightarrow> u8 list option" where
  "frame_bytes f = expansion_protocol_encode f expansion_decoder_capacity"

lemma frame_error_of_code [simp]: "frame_error_of (frame_error_code e) = Some e"
  by (cases e) (simp_all add: frame_error_of_def)

lemma frame_error_code_of: "frame_error_of c = Some e \<Longrightarrow> frame_error_code e = c"
  using u8_le_2 [of c] by (auto simp: frame_error_of_def not_less split: if_splits)

lemma checksum_append:
  "expansion_protocol_checksum (body @ rest) (length body) =
     expansion_protocol_checksum body (length body)"
  by (simp add: expansion_protocol_checksum_def)

lemma encode_finish_Some:
  "encode_finish body capacity = Some bs \<longleftrightarrow>
     length body + 1 \<le> capacity \<and>
     bs = body @ [expansion_protocol_checksum body (length body)]"
  by (auto simp: encode_finish_def)

lemma frame_verdict_finished:
  "frame_verdict (body @ [expansion_protocol_checksum body (length body)]) =
     (case decoder_frame (body @ [expansion_protocol_checksum body (length body)]) of
        None \<Rightarrow> ExpansionDecodeMalformed
      | Some frame \<Rightarrow> ExpansionDecodeFrameReady frame)"
  by (simp add: frame_verdict_def checksum_append)

lemma take_canonical:
  "canonical_frame (DataFrame n bytes) \<Longrightarrow> unat n \<le> BRIDGE_EXPANSION_MAX_DATA \<Longrightarrow>
     take (unat n) bytes @ replicate (BRIDGE_EXPANSION_MAX_DATA - unat n) 0 = bytes"
  by (metis append_take_drop_id canonical_frame.simps(1))

lemma encoded_frame_complete:
  assumes "expansion_protocol_encode f capacity = Some bs" and "canonical_frame f"
  shows "expected_length bs = Some (length bs) \<and> bs \<noteq> [] \<and>
         frame_verdict bs = ExpansionDecodeFrameReady f"
proof (cases f)
  case (BaudRateFrame r)
  have "bs = (3 # write_u32_le r) @ [expansion_protocol_checksum (3 # write_u32_le r) 5]"
    using assms(1) BaudRateFrame
    by (auto simp: expansion_protocol_encode_def encode_finish_Some split: if_splits)
  with frame_verdict_finished [of "3 # write_u32_le r"] show ?thesis
    by (simp add: BaudRateFrame decoder_frame_def)
next
  case (DataFrame n bytes)
  define body where "body = 5 # n # take (unat n) bytes"
  from assms DataFrame have n: "unat n \<le> 64" and len: "length bytes = 64"
    and bs: "bs = body @ [expansion_protocol_checksum body (length body)]"
    by (auto simp: expansion_protocol_encode_def encode_finish_Some body_def split: if_splits)
  then have "decoder_frame bs = Some f"
    using take_canonical [of n bytes] assms(2)
    by (simp add: DataFrame decoder_frame_def body_def)
  with frame_verdict_finished [of body] n len show ?thesis
    by (simp add: bs) (simp add: body_def)
next
  case (ControlFrame c)
  with assms(1) show ?thesis
    by (auto simp: expansion_protocol_encode_def encode_finish_Some not_less u32_le_1
        frame_verdict_def decoder_frame_def expansion_protocol_checksum_def split: if_splits)
qed (use assms in \<open>auto simp: expansion_protocol_encode_def encode_finish_Some
       frame_verdict_def decoder_frame_def expansion_protocol_checksum_def split: if_splits\<close>)

lemma list_of_length:
  "length xs = 1 \<Longrightarrow> \<exists>a. xs = [a]"
  "length xs = 2 \<Longrightarrow> \<exists>a b. xs = [a, b]"
  "length xs = 4 \<Longrightarrow> \<exists>a b c d. xs = [a, b, c, d]"
  by (auto simp: length_Suc_conv numeral_eq_Suc)

text \<open>The body of a complete frame, by type.\<close>

lemma complete_body_cases:
  assumes "expected_length (body @ [c]) = Some (length body + 1)"
  obtains "body = [ExpansionFrameTypeHeartbeat]"
  | a where "body = [ExpansionFrameTypeStatus, a]"
  | a where "body = [ExpansionFrameTypeControl, a]"
  | r where "body = ExpansionFrameTypeBaudRate # write_u32_le r"
  | n bytes where "body = ExpansionFrameTypeData # n # bytes" and "length bytes = unat n"
      and "unat n \<le> BRIDGE_EXPANSION_MAX_DATA"
proof -
  from assms obtain t rest where body: "body = t # rest"
    by (cases body) (auto split: if_splits)
  consider "t = 1" "length rest = 0" | "t = 2" "length rest = 1" | "t = 4" "length rest = 1"
    | "t = 3" "length rest = 4"
    | n bytes where "t = 5" "rest = n # bytes" "length bytes = unat n" "unat n \<le> 64"
    using assms body by (cases rest) (auto split: if_splits)
  then show thesis
  proof cases
    case 4
    then obtain a b c d where "rest = [a, b, c, d]" using list_of_length(3) by blast
    with 4 that(4) [of "read_u32_le rest"] show thesis
      by (simp add: body write_read_u32_le)
  qed (use that body in \<open>auto simp: length_Suc_conv\<close>)
qed

lemma complete_frame_encoded:
  assumes "expected_length bs = Some (length bs)" and "bs \<noteq> []"
    and "frame_verdict bs = ExpansionDecodeFrameReady f"
  shows "frame_bytes f = Some bs \<and> canonical_frame f"
proof -
  obtain body c where bs: "bs = body @ [c]" using assms(2) by (metis rev_exhaust)
  with assms(3) have c: "c = expansion_protocol_checksum body (length body)"
    and fr: "decoder_frame (body @ [c]) = Some f"
    by (auto simp: frame_verdict_def checksum_append split: if_splits option.splits)
  have "encode_finish body n = Some bs" if "length body < n" for n
    using that by (simp add: encode_finish_def bs c)
  moreover have "length body < expansion_decoder_capacity"
    using expected_length_le [OF assms(1)] bs by simp
  ultimately have fin: "encode_finish body 67 = Some bs" by simp
  have "expected_length (body @ [c]) = Some (length body + 1)" using assms(1) bs by simp
  then show ?thesis
  proof (cases rule: complete_body_cases)
    case (2 a)
    then show ?thesis using fr fin
      by (auto simp: decoder_frame_def frame_bytes_def expansion_protocol_encode_def
          dest: frame_error_code_of)
  next
    case (3 a)
    then show ?thesis using fr fin
      by (auto simp: decoder_frame_def frame_bytes_def expansion_protocol_encode_def not_less
          ucast_u8_u32_le_1 split: if_splits)
  qed (use fr fin in \<open>auto simp: decoder_frame_def frame_bytes_def
         expansion_protocol_encode_def\<close>)
qed

lemma feed_encoded:
  assumes "expansion_protocol_encode f capacity = Some bs" and "canonical_frame f"
  shows "decoder_feed expansion_decoder_push ExpansionDecodeNeedMore expansion_decoder_reset bs =
           ([ExpansionDecodeFrameReady f], expansion_decoder_reset)"
proof -
  have "decoder_feed wire_push ExpansionDecodeNeedMore [] bs =
          ([ExpansionDecodeFrameReady f], [])"
    using encoded_frame_complete [OF assms] wire_feed_frame [of "[]" bs] by simp
  then show ?thesis
    using expansion_wire.feed_refines [of expansion_decoder_reset "[]" bs] by force
qed

text \<open>
  C1. The decoder and the encoder define the same wire format: feeding a fresh decoder a
  run of bytes yields exactly one frame and leaves the decoder fresh if and only if these
  bytes are the encoding of that frame. So every encoded frame is decoded to itself, and
  nothing else on the wire is accepted as a frame.
\<close>

theorem expansion_decode_iff_encode:
  "decoder_feed expansion_decoder_push ExpansionDecodeNeedMore expansion_decoder_reset bs =
     ([ExpansionDecodeFrameReady f], expansion_decoder_reset) \<longleftrightarrow>
   expansion_protocol_encode f expansion_decoder_capacity = Some bs \<and> canonical_frame f"
  (is "?decoded \<longleftrightarrow> ?encoded")
proof
  assume ?decoded
  obtain vs q where w: "decoder_feed wire_push ExpansionDecodeNeedMore [] bs = (vs, q)"
    by fastforce
  then obtain d' where "decoder_feed expansion_decoder_push ExpansionDecodeNeedMore
      expansion_decoder_reset bs = (vs, d')" and d': "decoder_holds d' q"
    using expansion_wire.feed_refines [of expansion_decoder_reset "[]" bs] by auto
  with \<open>?decoded\<close> have vs: "vs = [ExpansionDecodeFrameReady f]" and "d' = expansion_decoder_reset"
    by simp_all
  with d' have "q = []" by (simp add: decoder_holds_def expansion_decoder_reset_def)
  with w vs wire_feed_ready [of "[]" bs f] complete_frame_encoded [of bs f] show ?encoded
    by (simp add: proper_prefix_def frame_bytes_def)
next
  assume ?encoded
  then show ?decoded by (blast intro: feed_encoded)
qed

subsection \<open>The decoder as a framed decoder\<close>

definition encoded_frame :: "ExpansionFrame \<Rightarrow> u8 list" where
  "encoded_frame f = the (expansion_protocol_encode f expansion_decoder_capacity)"

definition sendable_frame :: "ExpansionFrame \<Rightarrow> bool" where
  "sendable_frame f =
     (canonical_frame f \<and> expansion_protocol_encode f expansion_decoder_capacity \<noteq> None)"

lemma push_verdict_resets:
  "expansion_decoder_push d b = (v, d') \<Longrightarrow> v \<noteq> ExpansionDecodeNeedMore \<Longrightarrow>
     d' = expansion_decoder_reset"
  by (auto simp: expansion_decoder_push_def decoder_finish_def Let_def
      split: if_splits option.splits)

lemma encode_sendable:
  "sendable_frame f \<Longrightarrow>
     expansion_protocol_encode f expansion_decoder_capacity = Some (encoded_frame f) \<and>
     canonical_frame f"
  by (auto simp: sendable_frame_def encoded_frame_def)

interpretation expansion: framed_decoder expansion_decoder_push ExpansionDecodeNeedMore
  expansion_decoder_reset encoded_frame sendable_frame ExpansionDecodeFrameReady
  by unfold_locales (auto dest: push_verdict_resets encode_sendable intro: feed_encoded)

text \<open>
  C29. Framing does not depend on how the UART cuts the byte stream: for frames that can be
  encoded, any segmentation of their concatenated encodings decodes to exactly these
  frames, in order, without loss or duplication, and leaves the decoder fresh.
\<close>

theorem expansion_stream_segmentation:
  assumes "list_all sendable_frame fs"
    and "concat segments = concat (map encoded_frame fs)"
  shows "foldl (\<lambda>(vs, d) seg.
             let (ws, d') = decoder_feed expansion_decoder_push ExpansionDecodeNeedMore d seg
             in (vs @ ws, d')) ([], expansion_decoder_reset) segments =
         (map ExpansionDecodeFrameReady fs, expansion_decoder_reset)"
  by (rule expansion.segmented_stream_decodes [OF assms])

lemma encoded_heartbeat: "encoded_frame HeartbeatFrame = [1, 1]"
  and encoded_status_none: "encoded_frame (StatusFrame ExpansionFrameErrorNone) = [2, 0, 2]"
  and sendable_heartbeat: "sendable_frame HeartbeatFrame"
  and sendable_status: "sendable_frame (StatusFrame e)"
  by (simp_all add: encoded_frame_def sendable_frame_def expansion_protocol_encode_def
      encode_finish_def expansion_protocol_checksum_def)

theorem expansion_stream_segmentation_witness:
  "foldl (\<lambda>(vs, d) seg.
       let (ws, d') = decoder_feed expansion_decoder_push ExpansionDecodeNeedMore d seg
       in (vs @ ws, d')) ([], expansion_decoder_reset) [[1], [1, 2], [0, 2]] =
   ([ExpansionDecodeFrameReady HeartbeatFrame,
     ExpansionDecodeFrameReady (StatusFrame ExpansionFrameErrorNone)], expansion_decoder_reset)"
  using expansion_stream_segmentation
    [of "[HeartbeatFrame, StatusFrame ExpansionFrameErrorNone]" "[[1], [1, 2], [0, 2]]"]
  by (simp add: encoded_heartbeat encoded_status_none sendable_heartbeat sendable_status)

subsection \<open>Corruption\<close>

lemma xor_fold_update:
  "i < length xs \<Longrightarrow>
     foldl (\<lambda>c b. c XOR b) (a :: u8) (xs[i := b]) = foldl (\<lambda>c b. c XOR b) a xs XOR xs ! i XOR b"
proof (induction xs rule: rev_induct)
  case (snoc x xs)
  then show ?case
    by (cases "i < length xs") (auto simp: list_update_append nth_append ac_simps xor.left_commute)
qed simp

lemma checksum_error_iff:
  assumes "bs \<noteq> []"
  shows "frame_verdict bs = ExpansionDecodeChecksumError \<longleftrightarrow> foldl (\<lambda>c b. c XOR b) 0 bs \<noteq> 0"
proof -
  obtain body c where bs: "bs = body @ [c]" using assms by (metis rev_exhaust)
  then show ?thesis
    by (auto simp: bs frame_verdict_def expansion_protocol_checksum_def split: option.split)
qed

lemma expected_length_update:
  assumes "0 < i" and "bs ! 0 = ExpansionFrameTypeData \<longrightarrow> i \<noteq> 1"
  shows "expected_length (bs[i := b]) = expected_length bs"
proof (cases bs)
  case (Cons t rest)
  obtain j where j: "i = Suc j" using assms(1) by (cases i) auto
  show ?thesis
  proof (cases rest)
    case (Cons n rest')
    with \<open>bs = t # rest\<close> j assms(2) show ?thesis by (cases j) auto
  qed (use Cons j in simp)
qed simp

text \<open>
  C35. The checksum detects every corruption of a single byte that does not change where
  the frame ends: replacing any byte of an encoded frame, other than the type byte and the
  size byte of a data frame, makes the decoder answer a checksum error, exactly once, at
  the end of the frame.
\<close>

theorem expansion_single_byte_corruption:
  assumes "expansion_protocol_encode f expansion_decoder_capacity = Some bs"
    and "canonical_frame f"
    and "0 < i" and "i < length bs" and "bs ! 0 = ExpansionFrameTypeData \<longrightarrow> i \<noteq> 1"
    and "b \<noteq> bs ! i"
  shows "decoder_feed expansion_decoder_push ExpansionDecodeNeedMore expansion_decoder_reset
           (bs[i := b]) = ([ExpansionDecodeChecksumError], expansion_decoder_reset)"
proof -
  note bs = encoded_frame_complete [OF assms(1,2)]
  then have "frame_verdict bs \<noteq> ExpansionDecodeChecksumError" by simp
  then have "foldl (\<lambda>c b. c XOR b) 0 bs = 0" using checksum_error_iff bs by blast
  then have "foldl (\<lambda>c b. c XOR b) 0 (bs[i := b]) = bs ! i XOR b"
    using xor_fold_update [OF assms(4)] by simp
  then have verdict: "frame_verdict (bs[i := b]) = ExpansionDecodeChecksumError"
    using checksum_error_iff [of "bs[i := b]"] bs assms(6) by simp
  have "expected_length (bs[i := b]) = Some (length (bs[i := b]))"
    using expected_length_update [OF assms(3,5)] bs by simp
  then have "decoder_feed wire_push ExpansionDecodeNeedMore [] (bs[i := b]) =
               ([ExpansionDecodeChecksumError], [])"
    using wire_feed_frame [of "[]" "bs[i := b]"] bs verdict by simp
  then show ?thesis
    using expansion_wire.feed_refines [of expansion_decoder_reset "[]" "bs[i := b]"] by force
qed

theorem expansion_single_byte_corruption_witness:
  "decoder_feed expansion_decoder_push ExpansionDecodeNeedMore expansion_decoder_reset
     ([2, 0, 2][1 := 7]) = ([ExpansionDecodeChecksumError], expansion_decoder_reset)"
proof -
  have "expansion_protocol_encode (StatusFrame ExpansionFrameErrorNone) expansion_decoder_capacity
          = Some [2, 0, 2]"
    using encode_sendable [OF sendable_status] encoded_status_none by simp
  then show ?thesis by (rule expansion_single_byte_corruption) simp_all
qed

section \<open>Bounds\<close>

lemma decoder_invariant_reset: "decoder_invariant expansion_decoder_reset"
  by (auto simp: decoder_invariant_def intro: exI [of _ "[]"])

lemma decoder_invariant_push:
  "decoder_invariant d \<Longrightarrow> decoder_invariant (snd (expansion_decoder_push d b))"
  unfolding decoder_invariant_def by (rule expansion_wire.invariant_push)

interpretation expansion_decoder: started_machine
  "\<lambda>d b. snd (expansion_decoder_push d b)" decoder_invariant expansion_decoder_reset
  by unfold_locales (simp_all add: decoder_invariant_reset decoder_invariant_push)

lemma decoder_invariant_bounds:
  "decoder_invariant d \<Longrightarrow>
     length (ed_bytes d) = expansion_decoder_capacity \<and>
     ed_used d < expansion_decoder_capacity \<and> ed_expected d \<le> expansion_decoder_capacity"
  using decoder_holds_room expected_length_le
  by (fastforce simp: decoder_invariant_def decoder_holds_def)

text \<open>
  C37. The decoder never writes outside its buffer, whatever the UART delivers: after any
  run of bytes the buffer still has its 67 bytes, the write index is inside it and the
  expected frame fits. In particular the overflow guard at the head of
  \<open>expansion_decoder_push\<close> is never taken.
\<close>

theorem expansion_decoder_in_bounds:
  "let d = foldl (\<lambda>d b. snd (expansion_decoder_push d b)) expansion_decoder_reset bs
   in length (ed_bytes d) = expansion_decoder_capacity \<and>
      ed_used d < expansion_decoder_capacity \<and> ed_expected d \<le> expansion_decoder_capacity"
  using decoder_invariant_bounds [OF expansion_decoder.inv_reachable [of bs]]
  by (simp add: Let_def)

text \<open>The size of a frame on the wire, and the frames the encoder takes.\<close>

fun frame_size :: "ExpansionFrame \<Rightarrow> nat" where
  "frame_size HeartbeatFrame = 2"
| "frame_size (StatusFrame _) = 3"
| "frame_size (BaudRateFrame _) = 6"
| "frame_size (ControlFrame _) = 3"
| "frame_size (DataFrame n _) = 3 + unat n"
| "frame_size (InvalidFrame _) = 0"

fun well_formed_frame :: "ExpansionFrame \<Rightarrow> bool" where
  "well_formed_frame (ControlFrame c) = (c \<le> ExpansionControlStopRpc)"
| "well_formed_frame (DataFrame n bytes) = (unat n \<le> BRIDGE_EXPANSION_MAX_DATA)"
| "well_formed_frame (InvalidFrame _) = False"
| "well_formed_frame _ = True"

text \<open>
  The encoder succeeds on exactly the frames of the protocol (a control command is
  START or STOP, at most 64 data bytes, a known type) whose wire size fits the caller's
  buffer, and then it reports exactly that size: it never truncates and never overruns.
\<close>

theorem expansion_encode_exact:
  assumes "case f of DataFrame n bytes \<Rightarrow> length bytes = BRIDGE_EXPANSION_MAX_DATA | _ \<Rightarrow> True"
  shows "case expansion_protocol_encode f capacity of
           None \<Rightarrow> \<not> (well_formed_frame f \<and> frame_size f \<le> capacity)
         | Some bs \<Rightarrow> well_formed_frame f \<and> frame_size f \<le> capacity \<and> length bs = frame_size f"
  using assms
  by (cases f) (auto simp: expansion_protocol_encode_def encode_finish_def not_less)

theorem expansion_encode_exact_witness:
  "case expansion_protocol_encode (DataFrame 64 (replicate 64 7)) 66 of
     None \<Rightarrow> \<not> (well_formed_frame (DataFrame 64 (replicate 64 7)) \<and>
              frame_size (DataFrame 64 (replicate 64 7)) \<le> 66)
   | Some bs \<Rightarrow> well_formed_frame (DataFrame 64 (replicate 64 7)) \<and>
              frame_size (DataFrame 64 (replicate 64 7)) \<le> 66 \<and>
              length bs = frame_size (DataFrame 64 (replicate 64 7))"
  by (rule expansion_encode_exact) simp

lemma sendable_status_frame [simp]: "sendable_frame (StatusFrame e)"
  and sendable_heartbeat_frame [simp]: "sendable_frame HeartbeatFrame"
  and sendable_baud_frame [simp]: "sendable_frame (BaudRateFrame r)"
  and sendable_control_frame: "sendable_frame (ControlFrame c) \<longleftrightarrow> c \<le> ExpansionControlStopRpc"
  by (auto simp: sendable_frame_def expansion_protocol_encode_def encode_finish_def)

lemma encode_frame_capacity:
  "sendable_frame f \<Longrightarrow> expansion_protocol_encode f 67 = Some (encoded_frame f)"
  using encode_sendable by simp

end
