(* ===== verification/Expansion_State_Machine.thy ===== *)
theory Expansion_State_Machine
  imports Bridge_Config
begin

text \<open>
  \<open>expansion_state_machine.h\<close> and \<open>expansion_state_machine.c\<close>: the state of the Expansion
  link, the function that applies an event to it, and the transition relation it
  implements.
\<close>

section \<open>The machine\<close>

datatype ExpansionState =
    ExpansionStateDisconnected
  | ExpansionStateInitialUart
  | ExpansionStateNegotiatingBaud
  | ExpansionStateReady
  | ExpansionStateStartingRpc
  | ExpansionStateRpcReady
  | ExpansionStateStoppingRpc
  | ExpansionStateBackoff

datatype ExpansionEvent =
    ExpansionEventStart
  | ExpansionEventHeartbeatReceived
  | ExpansionEventBaudAccepted
  | ExpansionEventBaudRejected
  | ExpansionEventBeginRpc
  | ExpansionEventRpcStarted
  | ExpansionEventEndRpc
  | ExpansionEventRpcStopped
  | ExpansionEventTimeout
  | ExpansionEventFrameError
  | ExpansionEventBackoffElapsed

datatype ExpansionAction =
    ExpansionActionNone
  | ExpansionActionDetectPulse
  | ExpansionActionRequestBaud
  | ExpansionActionTryLowerBaud
  | ExpansionActionSwitchBaud
  | ExpansionActionSendStartRpc
  | ExpansionActionSendStopRpc
  | ExpansionActionScheduleReconnect

record ExpansionStateMachine =
  sm_state :: ExpansionState
  reconnect_attempts :: u8

definition expansion_state_machine_init :: ExpansionStateMachine where
  "expansion_state_machine_init =
     \<lparr>sm_state = ExpansionStateDisconnected, reconnect_attempts = 0\<rparr>"

text \<open>
  An operation answers whether the event was accepted, the action, and the machine.
\<close>

type_synonym step_result = "bool \<times> ExpansionAction \<times> ExpansionStateMachine"

definition fail_connection :: "ExpansionStateMachine \<Rightarrow> step_result" where
  "fail_connection m =
     (if unat (reconnect_attempts m) \<ge> BRIDGE_EXPANSION_MAX_RETRIES
      then (True, ExpansionActionNone, m\<lparr>sm_state := ExpansionStateDisconnected\<rparr>)
      else (True, ExpansionActionScheduleReconnect,
            m\<lparr>reconnect_attempts := reconnect_attempts m + 1,
               sm_state := ExpansionStateBackoff\<rparr>))"

definition expansion_state_machine_apply ::
    "ExpansionStateMachine \<Rightarrow> ExpansionEvent \<Rightarrow> step_result" where
  "expansion_state_machine_apply m event =
     (if event = ExpansionEventTimeout \<or> event = ExpansionEventFrameError
      then fail_connection m
      else
        case sm_state m of
          ExpansionStateDisconnected \<Rightarrow>
            if event \<noteq> ExpansionEventStart then (False, ExpansionActionNone, m)
            else (True, ExpansionActionDetectPulse, m\<lparr>sm_state := ExpansionStateInitialUart\<rparr>)
        | ExpansionStateInitialUart \<Rightarrow>
            if event \<noteq> ExpansionEventHeartbeatReceived then (False, ExpansionActionNone, m)
            else (True, ExpansionActionRequestBaud,
                  m\<lparr>sm_state := ExpansionStateNegotiatingBaud\<rparr>)
        | ExpansionStateNegotiatingBaud \<Rightarrow>
            if event = ExpansionEventBaudRejected then (True, ExpansionActionTryLowerBaud, m)
            else if event \<noteq> ExpansionEventBaudAccepted then (False, ExpansionActionNone, m)
            else (True, ExpansionActionSwitchBaud,
                  m\<lparr>sm_state := ExpansionStateReady, reconnect_attempts := 0\<rparr>)
        | ExpansionStateReady \<Rightarrow>
            if event \<noteq> ExpansionEventBeginRpc then (False, ExpansionActionNone, m)
            else (True, ExpansionActionSendStartRpc, m\<lparr>sm_state := ExpansionStateStartingRpc\<rparr>)
        | ExpansionStateStartingRpc \<Rightarrow>
            if event \<noteq> ExpansionEventRpcStarted then (False, ExpansionActionNone, m)
            else (True, ExpansionActionNone, m\<lparr>sm_state := ExpansionStateRpcReady\<rparr>)
        | ExpansionStateRpcReady \<Rightarrow>
            if event \<noteq> ExpansionEventEndRpc then (False, ExpansionActionNone, m)
            else (True, ExpansionActionSendStopRpc, m\<lparr>sm_state := ExpansionStateStoppingRpc\<rparr>)
        | ExpansionStateStoppingRpc \<Rightarrow>
            if event \<noteq> ExpansionEventRpcStopped then (False, ExpansionActionNone, m)
            else (True, ExpansionActionNone, m\<lparr>sm_state := ExpansionStateReady\<rparr>)
        | ExpansionStateBackoff \<Rightarrow>
            if event \<noteq> ExpansionEventBackoffElapsed then (False, ExpansionActionNone, m)
            else (True, ExpansionActionDetectPulse, m\<lparr>sm_state := ExpansionStateInitialUart\<rparr>))"

section \<open>The transition relation\<close>

text \<open>
  One rule per arrow of the protocol; failures lead to back-off while retries are left and
  to disconnection when they are used up.
\<close>

inductive link_step ::
    "ExpansionState \<Rightarrow> nat \<Rightarrow> ExpansionEvent \<Rightarrow> ExpansionAction \<Rightarrow> ExpansionState \<Rightarrow> nat \<Rightarrow> bool"
where
  start: "link_step ExpansionStateDisconnected n ExpansionEventStart
            ExpansionActionDetectPulse ExpansionStateInitialUart n"
| heartbeat: "link_step ExpansionStateInitialUart n ExpansionEventHeartbeatReceived
            ExpansionActionRequestBaud ExpansionStateNegotiatingBaud n"
| baud_rejected: "link_step ExpansionStateNegotiatingBaud n ExpansionEventBaudRejected
            ExpansionActionTryLowerBaud ExpansionStateNegotiatingBaud n"
| baud_accepted: "link_step ExpansionStateNegotiatingBaud n ExpansionEventBaudAccepted
            ExpansionActionSwitchBaud ExpansionStateReady 0"
| begin_rpc: "link_step ExpansionStateReady n ExpansionEventBeginRpc
            ExpansionActionSendStartRpc ExpansionStateStartingRpc n"
| rpc_started: "link_step ExpansionStateStartingRpc n ExpansionEventRpcStarted
            ExpansionActionNone ExpansionStateRpcReady n"
| end_rpc: "link_step ExpansionStateRpcReady n ExpansionEventEndRpc
            ExpansionActionSendStopRpc ExpansionStateStoppingRpc n"
| rpc_stopped: "link_step ExpansionStateStoppingRpc n ExpansionEventRpcStopped
            ExpansionActionNone ExpansionStateReady n"
| backoff_elapsed: "link_step ExpansionStateBackoff n ExpansionEventBackoffElapsed
            ExpansionActionDetectPulse ExpansionStateInitialUart n"
| retry: "e \<in> {ExpansionEventTimeout, ExpansionEventFrameError} \<Longrightarrow>
            n < BRIDGE_EXPANSION_MAX_RETRIES \<Longrightarrow>
          link_step s n e ExpansionActionScheduleReconnect ExpansionStateBackoff (Suc n)"
| give_up: "e \<in> {ExpansionEventTimeout, ExpansionEventFrameError} \<Longrightarrow>
            BRIDGE_EXPANSION_MAX_RETRIES \<le> n \<Longrightarrow>
          link_step s n e ExpansionActionNone ExpansionStateDisconnected n"

inductive_simps link_step_simps: "link_step s n e a s' n'"
inductive_cases link_step_to_rpc: "link_step s n e a ExpansionStateRpcReady n'"
inductive_cases link_step_to_ready: "link_step s n e a ExpansionStateReady n'"

lemma link_step_deterministic:
  "link_step s n e a s' n' \<Longrightarrow> link_step s n e b t m \<Longrightarrow> a = b \<and> s' = t \<and> n' = m"
  by (erule link_step.cases; erule link_step.cases; simp)

lemma fail_connection_step:
  assumes "e \<in> {ExpansionEventTimeout, ExpansionEventFrameError}"
    and "fail_connection m = (ok, a, m')"
  shows "ok \<and> link_step (sm_state m) (unat (reconnect_attempts m)) e a
                 (sm_state m') (unat (reconnect_attempts m'))"
proof -
  have "unat (reconnect_attempts m + 1) = Suc (unat (reconnect_attempts m))"
    if "unat (reconnect_attempts m) < 3"
    using that by (simp add: unat_word_ariths)
  with assms show ?thesis
    by (auto simp: fail_connection_def not_le link_step.retry link_step.give_up split: if_splits)
qed

lemma apply_sound:
  assumes "expansion_state_machine_apply m e = (True, a, m')"
  shows "link_step (sm_state m) (unat (reconnect_attempts m)) e a
           (sm_state m') (unat (reconnect_attempts m'))"
proof (cases "e \<in> {ExpansionEventTimeout, ExpansionEventFrameError}")
  case True
  with assms have "fail_connection m = (True, a, m')"
    by (auto simp: expansion_state_machine_apply_def)
  with fail_connection_step [OF True] show ?thesis by blast
next
  case False
  with assms show ?thesis
    by (cases "sm_state m") (auto simp: expansion_state_machine_apply_def
          intro: link_step.intros split: if_splits)
qed

lemma apply_complete:
  assumes "link_step (sm_state m) (unat (reconnect_attempts m)) e a s n"
  shows "\<exists>m'. expansion_state_machine_apply m e = (True, a, m')"
  using assms
  by (cases rule: link_step.cases)
     (auto simp: expansion_state_machine_apply_def fail_connection_def)

lemma machine_eqI:
  "sm_state m = sm_state m' \<Longrightarrow> unat (reconnect_attempts m) = unat (reconnect_attempts m') \<Longrightarrow>
     (m :: ExpansionStateMachine) = m'"
  by (simp add: word_unat_eq_iff)


text \<open>An event that is refused has no action and no effect.\<close>

lemma apply_rejected:
  "expansion_state_machine_apply m e = (False, a, m') \<Longrightarrow> a = ExpansionActionNone \<and> m' = m"
  by (cases "sm_state m")
     (auto simp: expansion_state_machine_apply_def fail_connection_def split: if_splits)

section \<open>Runs\<close>

text \<open>The accepted events of a run, with their actions, latest first.\<close>

fun link_run :: "ExpansionStateMachine \<Rightarrow> ExpansionEvent list \<Rightarrow>
    (ExpansionEvent \<times> ExpansionAction) list \<times> ExpansionStateMachine" where
  "link_run m [] = ([], m)"
| "link_run m (e # es) =
     (case link_run m es of (trace, m') \<Rightarrow>
        case expansion_state_machine_apply m' e of (ok, a, m'') \<Rightarrow>
          (if ok then (e, a) # trace else trace, m''))"

text \<open>
  \<open>link_run\<close> takes the events latest first as well, so that a run is extended by consing.
\<close>

definition link_failure :: "ExpansionEvent \<Rightarrow> bool" where
  "link_failure e = (e = ExpansionEventTimeout \<or> e = ExpansionEventFrameError)"

definition events_since_failure :: "(ExpansionEvent \<times> ExpansionAction) list \<Rightarrow> ExpansionEvent list" where
  "events_since_failure trace = takeWhile (\<lambda>e. \<not> link_failure e) (map fst trace)"

definition retries_since_ready :: "(ExpansionEvent \<times> ExpansionAction) list \<Rightarrow> nat" where
  "retries_since_ready trace =
     count_list (takeWhile (\<lambda>a. a \<noteq> ExpansionActionSwitchBaud) (map snd trace))
       ExpansionActionScheduleReconnect"

lemma link_run_step:
  assumes "link_run m (e # es) = (trace, m'')"
  obtains "link_run m es = (trace, m'')"
  | tr m' a where "link_run m es = (tr, m')" and "trace = (e, a) # tr"
      and "link_step (sm_state m') (unat (reconnect_attempts m')) e a
             (sm_state m'') (unat (reconnect_attempts m''))"
proof -
  obtain tr m' where es: "link_run m es = (tr, m')" by fastforce
  obtain ok a m2 where ap: "expansion_state_machine_apply m' e = (ok, a, m2)"
    by (metis prod_cases3)
  show thesis
  proof (cases ok)
    case True
    with ap apply_sound [of m' e a m2] assms es show thesis
      by (auto intro: that(2))
  next
    case False
    with ap apply_rejected [of m' e a m2] assms es show thesis
      by (auto intro: that(1))
  qed
qed

lemma retries_cons:
  "retries_since_ready ((e, a) # tr) =
     (if a = ExpansionActionSwitchBaud then 0
      else if a = ExpansionActionScheduleReconnect then Suc (retries_since_ready tr)
      else retries_since_ready tr)"
  by (simp add: retries_since_ready_def)

lemma link_run_retries:
  assumes "link_run expansion_state_machine_init es = (trace, m)"
  shows "unat (reconnect_attempts m) = retries_since_ready trace \<and>
         retries_since_ready trace \<le> BRIDGE_EXPANSION_MAX_RETRIES"
  using assms
proof (induction es arbitrary: trace m)
  case Nil
  then show ?case by (auto simp: expansion_state_machine_init_def retries_since_ready_def)
next
  case (Cons e es)
  from Cons.prems show ?case
  proof (cases rule: link_run_step)
    case 1
    then show ?thesis by (rule Cons.IH)
  next
    case (2 tr m' a)
    with Cons.IH [OF 2(1)] show ?thesis
      by (auto simp: retries_cons link_step_simps)
  qed
qed

text \<open>
  C32. Reconnection is bounded: in every run from the initial state the retry counter is
  exactly the number of reconnects scheduled since the link was last established, and it
  never exceeds the limit of three.
\<close>

theorem link_retries_bounded:
  "case link_run expansion_state_machine_init es of (trace, m) \<Rightarrow>
     unat (reconnect_attempts m) = retries_since_ready trace \<and>
     retries_since_ready trace \<le> BRIDGE_EXPANSION_MAX_RETRIES"
  using link_run_retries by (cases "link_run expansion_state_machine_init es") simp

text \<open>What the accepted events since the last failure say about the state.\<close>

definition phase_invariant :: "ExpansionState \<Rightarrow> ExpansionEvent list \<Rightarrow> bool" where
  "phase_invariant s es =
     (count_list es ExpansionEventBeginRpc =
        count_list es ExpansionEventRpcStarted +
          (if s = ExpansionStateStartingRpc then 1 else 0) \<and>
      count_list es ExpansionEventRpcStarted =
        count_list es ExpansionEventEndRpc + (if s = ExpansionStateRpcReady then 1 else 0) \<and>
      count_list es ExpansionEventEndRpc =
        count_list es ExpansionEventRpcStopped +
          (if s = ExpansionStateStoppingRpc then 1 else 0) \<and>
      (ExpansionEventBaudAccepted \<in> set es \<longleftrightarrow>
         s \<in> {ExpansionStateReady, ExpansionStateStartingRpc, ExpansionStateRpcReady,
              ExpansionStateStoppingRpc}) \<and>
      (s \<in> {ExpansionStateDisconnected, ExpansionStateInitialUart,
            ExpansionStateNegotiatingBaud, ExpansionStateBackoff} \<longrightarrow>
         ExpansionEventBeginRpc \<notin> set es))"

lemma events_since_failure_cons:
  "events_since_failure ((e, a) # tr) =
     (if link_failure e then [] else e # events_since_failure tr)"
  by (simp add: events_since_failure_def)

lemma phase_invariant_step:
  assumes "link_step s n e a s' n'" and "phase_invariant s es"
  shows "phase_invariant s' (if link_failure e then [] else e # es)"
  using assms
  by (cases rule: link_step.cases) (auto simp: phase_invariant_def link_failure_def)

lemma link_run_phase:
  assumes "link_run expansion_state_machine_init es = (trace, m)"
  shows "phase_invariant (sm_state m) (events_since_failure trace)"
  using assms
proof (induction es arbitrary: trace m)
  case Nil
  then show ?case
    by (auto simp: expansion_state_machine_init_def events_since_failure_def phase_invariant_def)
next
  case (Cons e es)
  from Cons.prems show ?case
  proof (cases rule: link_run_step)
    case 1
    then show ?thesis by (rule Cons.IH)
  next
    case (2 tr m' a)
    from phase_invariant_step [OF 2(3) Cons.IH [OF 2(1)]] show ?thesis
      by (simp add: 2(2) events_since_failure_cons)
  qed
qed

text \<open>
  C31. RPC traffic is possible only inside a negotiated session: whenever a run from the
  initial state is in the RPC state, the link has since its last failure accepted a baud
  rate, and has confirmed exactly one START RPC more than it has begun STOP RPCs; outside
  the RPC state the two numbers agree.
\<close>

theorem rpc_window:
  "case link_run expansion_state_machine_init es of (trace, m) \<Rightarrow>
     (let since = events_since_failure trace in
        if sm_state m = ExpansionStateRpcReady
        then count_list since ExpansionEventRpcStarted =
               Suc (count_list since ExpansionEventEndRpc) \<and>
             ExpansionEventBaudAccepted \<in> set since
        else count_list since ExpansionEventRpcStarted =
               count_list since ExpansionEventEndRpc)"
proof (cases "link_run expansion_state_machine_init es")
  case (Pair trace m)
  from link_run_phase [OF this] Pair show ?thesis
    by (auto simp: phase_invariant_def Let_def)
qed

text \<open>Every event as one equation.\<close>

lemma apply_start:
  "expansion_state_machine_apply m ExpansionEventStart =
     (if sm_state m = ExpansionStateDisconnected
      then (True, ExpansionActionDetectPulse, m\<lparr>sm_state := ExpansionStateInitialUart\<rparr>)
      else (False, ExpansionActionNone, m))"
  by (cases "sm_state m"; simp add: expansion_state_machine_apply_def)

lemma apply_heartbeat:
  "expansion_state_machine_apply m ExpansionEventHeartbeatReceived =
     (if sm_state m = ExpansionStateInitialUart
      then (True, ExpansionActionRequestBaud, m\<lparr>sm_state := ExpansionStateNegotiatingBaud\<rparr>)
      else (False, ExpansionActionNone, m))"
  by (cases "sm_state m"; simp add: expansion_state_machine_apply_def)

lemma apply_baud_rejected:
  "expansion_state_machine_apply m ExpansionEventBaudRejected =
     (if sm_state m = ExpansionStateNegotiatingBaud
      then (True, ExpansionActionTryLowerBaud, m) else (False, ExpansionActionNone, m))"
  by (cases "sm_state m"; simp add: expansion_state_machine_apply_def)

lemma apply_baud_accepted:
  "expansion_state_machine_apply m ExpansionEventBaudAccepted =
     (if sm_state m = ExpansionStateNegotiatingBaud
      then (True, ExpansionActionSwitchBaud,
            m\<lparr>sm_state := ExpansionStateReady, reconnect_attempts := 0\<rparr>)
      else (False, ExpansionActionNone, m))"
  by (cases "sm_state m"; simp add: expansion_state_machine_apply_def)

lemma apply_begin_rpc:
  "expansion_state_machine_apply m ExpansionEventBeginRpc =
     (if sm_state m = ExpansionStateReady
      then (True, ExpansionActionSendStartRpc, m\<lparr>sm_state := ExpansionStateStartingRpc\<rparr>)
      else (False, ExpansionActionNone, m))"
  by (cases "sm_state m"; simp add: expansion_state_machine_apply_def)

lemma apply_rpc_started:
  "expansion_state_machine_apply m ExpansionEventRpcStarted =
     (if sm_state m = ExpansionStateStartingRpc
      then (True, ExpansionActionNone, m\<lparr>sm_state := ExpansionStateRpcReady\<rparr>)
      else (False, ExpansionActionNone, m))"
  by (cases "sm_state m"; simp add: expansion_state_machine_apply_def)

lemma apply_end_rpc:
  "expansion_state_machine_apply m ExpansionEventEndRpc =
     (if sm_state m = ExpansionStateRpcReady
      then (True, ExpansionActionSendStopRpc, m\<lparr>sm_state := ExpansionStateStoppingRpc\<rparr>)
      else (False, ExpansionActionNone, m))"
  by (cases "sm_state m"; simp add: expansion_state_machine_apply_def)

lemma apply_rpc_stopped:
  "expansion_state_machine_apply m ExpansionEventRpcStopped =
     (if sm_state m = ExpansionStateStoppingRpc
      then (True, ExpansionActionNone, m\<lparr>sm_state := ExpansionStateReady\<rparr>)
      else (False, ExpansionActionNone, m))"
  by (cases "sm_state m"; simp add: expansion_state_machine_apply_def)

lemma apply_backoff_elapsed:
  "expansion_state_machine_apply m ExpansionEventBackoffElapsed =
     (if sm_state m = ExpansionStateBackoff
      then (True, ExpansionActionDetectPulse, m\<lparr>sm_state := ExpansionStateInitialUart\<rparr>)
      else (False, ExpansionActionNone, m))"
  by (cases "sm_state m"; simp add: expansion_state_machine_apply_def)

lemma apply_timeout:
  "expansion_state_machine_apply m ExpansionEventTimeout = fail_connection m"
  by (simp add: expansion_state_machine_apply_def)

lemma apply_frame_error:
  "expansion_state_machine_apply m ExpansionEventFrameError = fail_connection m"
  by (simp add: expansion_state_machine_apply_def)

lemmas apply_simps = apply_start apply_heartbeat apply_baud_rejected apply_baud_accepted
  apply_begin_rpc apply_rpc_started apply_end_rpc apply_rpc_stopped apply_backoff_elapsed
  apply_timeout apply_frame_error

text \<open>The way to the ready state, latest event first.\<close>

fun recovery_path :: "ExpansionState \<Rightarrow> ExpansionEvent list" where
  "recovery_path ExpansionStateDisconnected =
     [ExpansionEventBaudAccepted, ExpansionEventHeartbeatReceived, ExpansionEventStart]"
| "recovery_path ExpansionStateInitialUart =
     [ExpansionEventBaudAccepted, ExpansionEventHeartbeatReceived]"
| "recovery_path ExpansionStateNegotiatingBaud = [ExpansionEventBaudAccepted]"
| "recovery_path ExpansionStateReady = []"
| "recovery_path ExpansionStateStartingRpc =
     [ExpansionEventRpcStopped, ExpansionEventEndRpc, ExpansionEventRpcStarted]"
| "recovery_path ExpansionStateRpcReady = [ExpansionEventRpcStopped, ExpansionEventEndRpc]"
| "recovery_path ExpansionStateStoppingRpc = [ExpansionEventRpcStopped]"
| "recovery_path ExpansionStateBackoff =
     [ExpansionEventBaudAccepted, ExpansionEventHeartbeatReceived,
      ExpansionEventBackoffElapsed]"

text \<open>
  The link is never stuck: from every state, whatever the retry counter, at most three
  further events, each of them accepted, lead to the ready state.
\<close>

theorem link_can_become_ready:
  "\<exists>es. length es \<le> 3 \<and>
     (case link_run m es of (trace, m') \<Rightarrow>
        map fst trace = es \<and> sm_state m' = ExpansionStateReady)"
  by (rule exI [of _ "recovery_path (sm_state m)"])
     (cases "sm_state m"; simp add: apply_simps)

end
