(* ===== verification/Bridge_Metrics.thy ===== *)
theory Bridge_Metrics
  imports Bridge_Config
begin

text \<open>
  \<open>bridge_metrics.h\<close> and \<open>bridge_metrics.c\<close>: the diagnostic counters. Every update is one
  critical section, so it is one function on the snapshot; the first argument is the build
  option \<open>CONFIG_FLIPFORGE_DEBUG_METRICS\<close>, without which every update is empty and the
  snapshot is zero. Byte counts are added in 64 bits, as the C code does.
\<close>

record BridgeMetricsSnapshot =
  started_us :: u64
  tcp_rx_bytes :: u64
  tcp_tx_bytes :: u64
  expansion_rx_bytes :: u64
  expansion_tx_bytes :: u64
  rpc_payload_rx_bytes :: u64
  rpc_payload_tx_bytes :: u64
  frame_count :: u64
  ack_wait_us :: u64
  ack_count :: u32
  queue_peak_bytes :: u32
  retries :: u32
  protocol_errors :: u32

definition metrics_zero :: BridgeMetricsSnapshot where
  "metrics_zero =
     \<lparr>started_us = 0, tcp_rx_bytes = 0, tcp_tx_bytes = 0, expansion_rx_bytes = 0,
      expansion_tx_bytes = 0, rpc_payload_rx_bytes = 0, rpc_payload_tx_bytes = 0,
      frame_count = 0, ack_wait_us = 0, ack_count = 0, queue_peak_bytes = 0, retries = 0,
      protocol_errors = 0\<rparr>"

definition METRIC_UPDATE ::
    "bool \<Rightarrow> (BridgeMetricsSnapshot \<Rightarrow> BridgeMetricsSnapshot) \<Rightarrow>
     BridgeMetricsSnapshot \<Rightarrow> BridgeMetricsSnapshot" where
  "METRIC_UPDATE enabled f m = (if enabled then f m else m)"

definition bridge_metrics_init :: "bool \<Rightarrow> int \<Rightarrow> BridgeMetricsSnapshot \<Rightarrow> BridgeMetricsSnapshot" where
  "bridge_metrics_init enabled now =
     METRIC_UPDATE enabled (\<lambda>m. metrics_zero\<lparr>started_us := of_int now\<rparr>)"

definition bridge_metrics_add_tcp_rx where
  "bridge_metrics_add_tcp_rx enabled (bytes :: nat) =
     METRIC_UPDATE enabled (\<lambda>m. m\<lparr>tcp_rx_bytes := tcp_rx_bytes m + of_nat bytes\<rparr>)"

definition bridge_metrics_add_tcp_tx where
  "bridge_metrics_add_tcp_tx enabled (bytes :: nat) =
     METRIC_UPDATE enabled (\<lambda>m. m\<lparr>tcp_tx_bytes := tcp_tx_bytes m + of_nat bytes\<rparr>)"

definition bridge_metrics_add_expansion_rx where
  "bridge_metrics_add_expansion_rx enabled (bytes :: nat) =
     METRIC_UPDATE enabled (\<lambda>m. m\<lparr>expansion_rx_bytes := expansion_rx_bytes m + of_nat bytes\<rparr>)"

definition bridge_metrics_add_expansion_tx where
  "bridge_metrics_add_expansion_tx enabled (bytes :: nat) =
     METRIC_UPDATE enabled (\<lambda>m. m\<lparr>expansion_tx_bytes := expansion_tx_bytes m + of_nat bytes\<rparr>)"

definition bridge_metrics_add_rpc_rx where
  "bridge_metrics_add_rpc_rx enabled (bytes :: nat) =
     METRIC_UPDATE enabled (\<lambda>m. m\<lparr>rpc_payload_rx_bytes := rpc_payload_rx_bytes m + of_nat bytes\<rparr>)"

definition bridge_metrics_add_rpc_tx where
  "bridge_metrics_add_rpc_tx enabled (bytes :: nat) =
     METRIC_UPDATE enabled (\<lambda>m. m\<lparr>rpc_payload_tx_bytes := rpc_payload_tx_bytes m + of_nat bytes\<rparr>)"

definition bridge_metrics_frame where
  "bridge_metrics_frame enabled =
     METRIC_UPDATE enabled (\<lambda>m. m\<lparr>frame_count := frame_count m + 1\<rparr>)"

definition bridge_metrics_ack_wait where
  "bridge_metrics_ack_wait enabled (microseconds :: u64) =
     METRIC_UPDATE enabled (\<lambda>m. m\<lparr>ack_wait_us := ack_wait_us m + microseconds,
                                 ack_count := ack_count m + 1\<rparr>)"

text \<open>\<open>size_t\<close> is 32 bits wide on the target, so the comparison and the cast are exact.\<close>

definition bridge_metrics_queue_used where
  "bridge_metrics_queue_used enabled (bytes :: u32) =
     METRIC_UPDATE enabled (\<lambda>m. if bytes > queue_peak_bytes m
                              then m\<lparr>queue_peak_bytes := bytes\<rparr> else m)"

definition bridge_metrics_retry where
  "bridge_metrics_retry enabled = METRIC_UPDATE enabled (\<lambda>m. m\<lparr>retries := retries m + 1\<rparr>)"

definition bridge_metrics_protocol_error where
  "bridge_metrics_protocol_error enabled =
     METRIC_UPDATE enabled (\<lambda>m. m\<lparr>protocol_errors := protocol_errors m + 1\<rparr>)"

definition bridge_metrics_snapshot :: "bool \<Rightarrow> BridgeMetricsSnapshot \<Rightarrow> BridgeMetricsSnapshot" where
  "bridge_metrics_snapshot enabled m = (if enabled then m else metrics_zero)"

lemmas metrics_defs = METRIC_UPDATE_def bridge_metrics_init_def bridge_metrics_add_tcp_rx_def
  bridge_metrics_add_tcp_tx_def bridge_metrics_add_expansion_rx_def
  bridge_metrics_add_expansion_tx_def bridge_metrics_add_rpc_rx_def bridge_metrics_add_rpc_tx_def
  bridge_metrics_frame_def bridge_metrics_ack_wait_def bridge_metrics_queue_used_def
  bridge_metrics_retry_def bridge_metrics_protocol_error_def

text \<open>
  The queue peak is the maximum: after any series of reported fill levels it is the
  largest of them and the peak before, and reporting changes no other counter.
\<close>

theorem queue_peak_is_maximum:
  "foldl (\<lambda>m n. bridge_metrics_queue_used True n m) m levels =
     m\<lparr>queue_peak_bytes := foldl max (queue_peak_bytes m) levels\<rparr>"
  by (induction levels arbitrary: m)
     (auto simp: bridge_metrics_queue_used_def METRIC_UPDATE_def max_def not_less)

end
