(* ===== verification/Activity_Led.thy ===== *)
theory Activity_Led
  imports Bridge_Config
begin

text \<open>
  \<open>activity_led.h\<close> and \<open>activity_led.c\<close>: the pulse of the blue LED. The LED driver is a
  parameter: \<open>ledc_timer_config\<close>, \<open>ledc_channel_config\<close>, \<open>ledc_set_duty\<close> and
  \<open>ledc_update_duty\<close> act on a device state and answer an error code. The task handle is a
  flag, the task notification the word of its bits.
\<close>

definition ACTIVITY_LED_MAX_DUTY :: u32 where [simp]: "ACTIVITY_LED_MAX_DUTY = 255"
definition ACTIVITY_LED_VISIBLE_DUTY :: u32 where [simp]: "ACTIVITY_LED_VISIBLE_DUTY = 20"
definition ACTIVITY_LED_PULSE_MS :: nat where [simp]: "ACTIVITY_LED_PULSE_MS = 40"
definition ACTIVITY_LED_GAP_MS :: nat where [simp]: "ACTIVITY_LED_GAP_MS = 60"
definition ACTIVITY_LED_NOTIFY_TRANSFER :: u32 where [simp]: "ACTIVITY_LED_NOTIFY_TRANSFER = 1"

record 'l ledc_driver =
  ledc_timer_config :: "'l \<Rightarrow> esp_err \<times> 'l"
  ledc_channel_config :: "nat \<Rightarrow> u32 \<Rightarrow> 'l \<Rightarrow> esp_err \<times> 'l"
  ledc_set_duty :: "nat \<Rightarrow> u32 \<Rightarrow> 'l \<Rightarrow> esp_err \<times> 'l"
  ledc_update_duty :: "nat \<Rightarrow> 'l \<Rightarrow> esp_err \<times> 'l"
  led_task_create :: "'l \<Rightarrow> bool \<times> 'l"
  led_task_delay :: "nat \<Rightarrow> 'l \<Rightarrow> 'l"

text \<open>Two driver calls in a row, the second only after the first succeeded.\<close>

definition and_then ::
    "('l \<Rightarrow> esp_err \<times> 'l) \<Rightarrow> ('l \<Rightarrow> esp_err \<times> 'l) \<Rightarrow> 'l \<Rightarrow> esp_err \<times> 'l" where
  "and_then f g l = (case f l of (error, l') \<Rightarrow> if error = ESP_OK then g l' else (error, l'))"

definition active_low_duty :: "u8 \<Rightarrow> u32" where
  "active_low_duty value =
     (let brightness = (ucast value * ACTIVITY_LED_VISIBLE_DUTY) div 255
      in ACTIVITY_LED_MAX_DUTY - brightness)"

definition set_channel :: "'l ledc_driver \<Rightarrow> nat \<Rightarrow> u8 \<Rightarrow> 'l \<Rightarrow> esp_err \<times> 'l" where
  "set_channel L channel value =
     and_then (ledc_set_duty L channel (active_low_duty value)) (ledc_update_duty L channel)"

definition set_rgb :: "'l ledc_driver \<Rightarrow> u8 \<Rightarrow> u8 \<Rightarrow> u8 \<Rightarrow> 'l \<Rightarrow> esp_err \<times> 'l" where
  "set_rgb L red green blue =
     and_then (set_channel L 0 red) (and_then (set_channel L 1 green) (set_channel L 2 blue))"

text \<open>One round of the task after its notification wait returned \<open>notification\<close>.\<close>

definition activity_task_round :: "'l ledc_driver \<Rightarrow> u32 \<Rightarrow> 'l \<Rightarrow> 'l" where
  "activity_task_round L notification l =
     (if notification AND ACTIVITY_LED_NOTIFY_TRANSFER = 0 then l
      else
        let l = snd (set_rgb L 0 0 255 l);
            l = led_task_delay L ACTIVITY_LED_PULSE_MS l;
            l = snd (set_rgb L 0 0 0 l)
        in led_task_delay L ACTIVITY_LED_GAP_MS l)"

record LedState =
  s_activity_task :: bool
  led_notification :: u32

definition activity_led_start :: "'l ledc_driver \<Rightarrow> LedState \<times> 'l \<Rightarrow> esp_err \<times> LedState \<times> 'l" where
  "activity_led_start L s =
     (case s of (led, l) \<Rightarrow>
        case and_then (ledc_timer_config L)
              (and_then (ledc_channel_config L 0 ACTIVITY_LED_MAX_DUTY)
              (and_then (ledc_channel_config L 1 ACTIVITY_LED_MAX_DUTY)
              (and_then (ledc_channel_config L 2 ACTIVITY_LED_MAX_DUTY)
              (set_rgb L 0 0 0)))) l of
          (error, l) \<Rightarrow>
            if error \<noteq> ESP_OK then (error, led, l)
            else
              case led_task_create L l of
                (created, l) \<Rightarrow>
                  if \<not> created then (ESP_ERR_NO_MEM, led\<lparr>s_activity_task := False\<rparr>, l)
                  else (ESP_OK, led\<lparr>s_activity_task := True\<rparr>, l))"

definition activity_led_note_transfer :: "nat \<Rightarrow> LedState \<Rightarrow> LedState" where
  "activity_led_note_transfer bytes led =
     (if bytes = 0 \<or> \<not> s_activity_task led then led
      else led\<lparr>led_notification := led_notification led OR ACTIVITY_LED_NOTIFY_TRANSFER\<rparr>)"

text \<open>
  The LED stays within its duty limit: for every brightness the active-low duty is
  between 235 and 255 of 255, falls as the brightness grows, is 255 (off) at 0 and reaches
  the visible limit of 20 steps at 255; no intermediate product wraps around.
\<close>

theorem active_low_duty_range:
  "unat (active_low_duty value) = 255 - unat value * 20 div 255 \<and>
   235 \<le> unat (active_low_duty value) \<and> unat (active_low_duty value) \<le> 255"
proof -
  have v: "unat value \<le> 255" using unsigned_less [of "value", where ?'a = nat] by simp
  then have "unat value * 20 < 2 ^ 32" by simp
  then have "unat ((ucast value :: u32) * 20) = unat value * 20"
    by (simp add: unat_word_ariths)
  then have b: "unat ((ucast value :: u32) * 20 div 255) = unat value * 20 div 255"
    by (simp add: unat_div)
  have "unat value * 20 div 255 \<le> 20"
    using v by (metis div_le_mono div_mult_self1_is_m mult.commute mult_le_mono1 zero_less_numeral)
  with b have "unat (active_low_duty value) = 255 - unat value * 20 div 255"
    by (simp add: active_low_duty_def unat_sub word_le_nat_alt)
  with \<open>unat value * 20 div 255 \<le> 20\<close> show ?thesis by simp
qed

end
