(* ===== verification/Bridge_Platform.thy ===== *)
theory Bridge_Platform
  imports Expansion_Protocol Expansion_State_Machine Bridge_Metrics Activity_Led
begin

text \<open>
  The state the tasks of the bridge share, and the platform they run on.

  \<^item> \<open>'w Bridge\<close> holds the fields of \<open>struct ExpansionTransport\<close> (\<open>expansion_transport.c\<close>),
    the file-level variables of the other components, and the state \<open>'w\<close> of everything
    outside the program: UART, clock, pins, sockets, the stream buffer's storage.
  \<^item> \<open>'w platform\<close> are the ESP-IDF, FreeRTOS and lwIP calls. A call that cannot block is a
    function on \<open>'w\<close>. A call that blocks is a function on the whole \<open>'w Bridge\<close>: it also
    stands for whatever the other tasks do until the caller runs again. Nothing is assumed
    of either here; a property that needs a law of a call names it.

  A section under \<open>state_mutex\<close> (taken with \<open>portMAX_DELAY\<close>) or in a critical section is
  one step. Event bits are the bits of a word, the binary semaphore is a flag, a task
  handle is whether it is non-null. Milliseconds stand for the ticks \<open>pdMS_TO_TICKS\<close>
  makes of them. A pointer to the one transport is whether it is non-null.
\<close>

section \<open>Shared state\<close>

record 'w Bridge =
  machine :: ExpansionStateMachine
  negotiated_baud :: u32
  running :: bool
  uart_installed :: bool
  awaiting_status :: bool
  last_status :: ExpansionFrameError
  last_rx_us :: int
  last_tx_us :: int
  events :: u32
  status_semaphore :: bool
  supervisor_task :: bool
  rx_task :: bool
  heartbeat_task :: bool
  metrics :: BridgeMetricsSnapshot
  led :: LedState
  client_active :: bool
  wifi_started :: bool
  bridge_ssid :: "u8 list"
  proxy_events :: u32
  world :: 'w

type_synonym ('w, 'a) task = "('w Bridge, 'a) state"

section \<open>Platform types\<close>

text \<open>The part of \<open>wifi_config_t\<close> that \<open>wifi_manager.c\<close> fills in.\<close>

datatype wifi_auth_mode = WIFI_AUTH_OPEN | WIFI_AUTH_WPA2_PSK

record wifi_ap_config =
  ap_ssid :: "u8 list"
  ap_ssid_len :: nat
  ap_password :: "u8 list"
  ap_channel :: nat
  ap_authmode :: wifi_auth_mode
  ap_max_connection :: nat
  ap_pmf_capable :: bool
  ap_pmf_required :: bool

section \<open>Platform calls\<close>

record 'w platform =
  debug_metrics :: bool
  esp_timer_get_time :: "'w \<Rightarrow> int \<times> 'w"
  uart_param_config :: "u32 \<Rightarrow> 'w \<Rightarrow> esp_err \<times> 'w"
  uart_set_pin :: "'w \<Rightarrow> esp_err \<times> 'w"
  uart_flush_input :: "'w \<Rightarrow> esp_err \<times> 'w"
  uart_set_baudrate :: "u32 \<Rightarrow> 'w \<Rightarrow> esp_err \<times> 'w"
  uart_driver_install :: "'w \<Rightarrow> esp_err \<times> 'w"
  uart_driver_delete :: "'w \<Rightarrow> 'w"
  uart_write_bytes :: "u8 list \<Rightarrow> 'w \<Rightarrow> int \<times> 'w"
  uart_wait_tx_done :: "nat \<Rightarrow> 'w Bridge \<Rightarrow> esp_err \<times> 'w Bridge"
  uart_read_byte :: "nat \<Rightarrow> 'w Bridge \<Rightarrow> (int \<times> u8) \<times> 'w Bridge"
  gpio_reset_tx_pin :: "'w \<Rightarrow> esp_err \<times> 'w"
  gpio_reset_rx_pin :: "'w \<Rightarrow> esp_err \<times> 'w"
  gpio_set_tx_open_drain :: "'w \<Rightarrow> esp_err \<times> 'w"
  gpio_set_tx_level :: "bool \<Rightarrow> 'w \<Rightarrow> esp_err \<times> 'w"
  esp_rom_delay_us :: "nat \<Rightarrow> 'w \<Rightarrow> 'w"
  vTaskDelay :: "nat \<Rightarrow> 'w Bridge \<Rightarrow> 'w Bridge"
  tx_mutex_take :: "nat \<Rightarrow> 'w Bridge \<Rightarrow> bool \<times> 'w Bridge"
  tx_mutex_give :: "'w \<Rightarrow> 'w"
  request_mutex_take :: "nat \<Rightarrow> 'w Bridge \<Rightarrow> bool \<times> 'w Bridge"
  request_mutex_give :: "'w \<Rightarrow> 'w"
  status_semaphore_wait :: "nat \<Rightarrow> 'w Bridge \<Rightarrow> 'w Bridge"
  event_wait :: "u32 \<Rightarrow> 'w Bridge \<Rightarrow> 'w Bridge"
  create_task :: "string \<Rightarrow> 'w \<Rightarrow> bool \<times> 'w"
  delete_task :: "string \<Rightarrow> 'w \<Rightarrow> 'w"
  calloc :: "'w \<Rightarrow> bool \<times> 'w"
  create_kernel_objects :: "'w \<Rightarrow> bool \<times> 'w"
  delete_kernel_objects :: "'w \<Rightarrow> 'w"
  stream_bytes_available :: "'w \<Rightarrow> nat"
  stream_send :: "u8 list \<Rightarrow> nat \<Rightarrow> 'w Bridge \<Rightarrow> nat \<times> 'w Bridge"
  stream_receive :: "nat \<Rightarrow> nat \<Rightarrow> 'w Bridge \<Rightarrow> u8 list \<times> 'w Bridge"
  stream_reset :: "'w \<Rightarrow> 'w"

text \<open>A call that acts on the outside only, and a call during which other tasks run.\<close>

definition device :: "('w \<Rightarrow> 'a \<times> 'w) \<Rightarrow> ('w, 'a) task" where
  "device f = State (\<lambda>s. case f (world s) of (a, w) \<Rightarrow> (a, s\<lparr>world := w\<rparr>))"

definition device_do :: "('w \<Rightarrow> 'w) \<Rightarrow> ('w, unit) task" where
  "device_do f = modify (\<lambda>s. s\<lparr>world := f (world s)\<rparr>)"

definition blocking :: "('w Bridge \<Rightarrow> 'a \<times> 'w Bridge) \<Rightarrow> ('w, 'a) task" where
  "blocking f = State f"

lemma wp_device [simp]:
  "wp (device f) Q s = (case f (world s) of (a, w) \<Rightarrow> Q a (s\<lparr>world := w\<rparr>))"
  by (simp add: wp_def device_def split: prod.splits)

lemma wp_device_do [simp]: "wp (device_do f) Q s = Q () (s\<lparr>world := f (world s)\<rparr>)"
  by (simp add: device_do_def)

lemma wp_blocking [simp]: "wp (blocking f) Q s = (case f s of (a, t) \<Rightarrow> Q a t)"
  by (simp add: wp_def blocking_def)

text \<open>Pauses and metrics.\<close>

definition pause :: "'w platform \<Rightarrow> nat \<Rightarrow> ('w, unit) task" where
  "pause P ms = modify (vTaskDelay P ms)"

definition count_metric ::
    "'w platform \<Rightarrow> (bool \<Rightarrow> BridgeMetricsSnapshot \<Rightarrow> BridgeMetricsSnapshot) \<Rightarrow> ('w, unit) task" where
  "count_metric P f = modify (\<lambda>s. s\<lparr>metrics := f (debug_metrics P) (metrics s)\<rparr>)"

lemma wp_pause [simp]: "wp (pause P ms) Q s = Q () (vTaskDelay P ms s)"
  by (simp add: pause_def)

lemma wp_count_metric [simp]:
  "wp (count_metric P f) Q s = Q () (s\<lparr>metrics := f (debug_metrics P) (metrics s)\<rparr>)"
  by (simp add: count_metric_def)

section \<open>What other tasks may do\<close>

text \<open>
  \<open>blocking_calls P I\<close>: every call during which other tasks run keeps \<open>I\<close>. With
  \<open>world_free I\<close>, that \<open>I\<close> does not look at the outside or at the counters, it gives the
  invariants of the operations by their shape.
\<close>

definition blocking_calls :: "'w platform \<Rightarrow> ('w Bridge \<Rightarrow> bool) \<Rightarrow> bool" where
  "blocking_calls P I \<longleftrightarrow>
     (\<forall>n s. I s \<longrightarrow> I (snd (uart_wait_tx_done P n s))) \<and>
     (\<forall>n s. I s \<longrightarrow> I (snd (uart_read_byte P n s))) \<and>
     (\<forall>n s. I s \<longrightarrow> I (vTaskDelay P n s)) \<and>
     (\<forall>n s. I s \<longrightarrow> I (snd (tx_mutex_take P n s))) \<and>
     (\<forall>n s. I s \<longrightarrow> I (snd (request_mutex_take P n s))) \<and>
     (\<forall>n s. I s \<longrightarrow> I (status_semaphore_wait P n s)) \<and>
     (\<forall>b s. I s \<longrightarrow> I (event_wait P b s)) \<and>
     (\<forall>bs n s. I s \<longrightarrow> I (snd (stream_send P bs n s))) \<and>
     (\<forall>c n s. I s \<longrightarrow> I (snd (stream_receive P c n s)))"

lemma blocking_callsD:
  assumes "blocking_calls P I" and "I s"
  shows "I (snd (uart_wait_tx_done P n s))" and "I (snd (uart_read_byte P n s))"
    and "I (vTaskDelay P n s)" and "I (snd (tx_mutex_take P n s))"
    and "I (snd (request_mutex_take P n s))" and "I (status_semaphore_wait P n s)"
    and "I (event_wait P b s)" and "I (snd (stream_send P bs n s))"
    and "I (snd (stream_receive P c n s))"
  using assms by (auto simp: blocking_calls_def)

definition world_free :: "('w Bridge \<Rightarrow> bool) \<Rightarrow> bool" where
  "world_free I \<longleftrightarrow> (\<forall>s w m l. I (s\<lparr>world := w, metrics := m, led := l\<rparr>) = I s)"

lemma world_freeD:
  assumes "world_free I"
  shows "I (s\<lparr>world := w\<rparr>) = I s" and "I (s\<lparr>metrics := m\<rparr>) = I s" and "I (s\<lparr>led := l\<rparr>) = I s"
proof -
  have *: "I (s\<lparr>world := w, metrics := m, led := l\<rparr>) = I s" for s w m l
    using assms by (auto simp: world_free_def)
  show "I (s\<lparr>world := w\<rparr>) = I s" using * [where s = s and w = w and m = "metrics s" and l = "led s"] by simp
  show "I (s\<lparr>metrics := m\<rparr>) = I s" using * [where s = s and w = "world s" and m = m and l = "led s"] by simp
  show "I (s\<lparr>led := l\<rparr>) = I s" using * [where s = s and w = "world s" and m = "metrics s" and l = l] by simp
qed

lemma preserves_device: "world_free I \<Longrightarrow> preserves I (device f)"
  by (auto simp: preserves_def world_freeD split: prod.splits)

lemma preserves_device_do: "world_free I \<Longrightarrow> preserves I (device_do f)"
  by (auto simp: preserves_def world_freeD)

lemma preserves_count_metric: "world_free I \<Longrightarrow> preserves I (count_metric P f)"
  by (auto simp: preserves_def world_freeD)

lemma preserves_blocking: "(\<And>s. I s \<Longrightarrow> I (snd (f s))) \<Longrightarrow> preserves I (blocking f)"
  by (auto simp: preserves_def split: prod.splits) (metis snd_conv)

lemma preserves_pause: "blocking_calls P I \<Longrightarrow> preserves I (pause P ms)"
  by (auto simp: preserves_def blocking_callsD)

end
