(* ===== verification/Bridge_IO.thy ===== *)
theory Bridge_IO
  imports Bridge_Config
begin

text \<open>
  \<open>bridge_io.h\<close> and \<open>bridge_io.c\<close>: writing a whole buffer through a callback that may
  accept only part of it, and the overflow-free room check of a bounded buffer.

  A callback takes its context and the bytes that are left, and answers the number it
  wrote (negative for an error), whether the error may be retried, and its context. The
  loop has no bound of its own, so it is a partial function: None is a call that never
  returns.
\<close>

type_synonym 'c write_callback = "'c \<Rightarrow> u8 list \<Rightarrow> (int \<times> bool) \<times> 'c"

section \<open>The write loop\<close>

partial_function (option) write_all_loop ::
    "'c write_callback \<Rightarrow> 'c \<Rightarrow> u8 list \<Rightarrow> nat \<Rightarrow> (bool \<times> 'c) option" where
  "write_all_loop callback context bytes offset =
     (if offset < length bytes then
        (case callback context (drop offset bytes) of
           ((written, retryable), context') \<Rightarrow>
             if written > 0 \<and> nat written \<le> length bytes - offset
             then write_all_loop callback context' bytes (offset + nat written)
             else if written < 0 \<and> retryable
             then write_all_loop callback context' bytes offset
             else Some (False, context'))
      else Some (True, context))"

declare write_all_loop.simps [code]

definition bridge_io_write_all ::
    "'c write_callback \<Rightarrow> 'c \<Rightarrow> u8 list \<Rightarrow> (bool \<times> 'c) option" where
  "bridge_io_write_all callback context bytes = write_all_loop callback context bytes 0"

text \<open>
  What a client of the loop relies on: \<open>sent\<close> reads off the context what has left the
  program, and a call that reports \<open>n\<close> bytes has sent exactly the first \<open>n\<close> of them.
\<close>

locale byte_writer =
  fixes callback :: "'c write_callback"
    and sent :: "'c \<Rightarrow> u8 list"
  assumes sends_reported: "callback c bs = ((n, r), c') \<Longrightarrow>
     sent c' = sent c @ (if 0 < n \<and> nat n \<le> length bs then take (nat n) bs else [])"
begin

definition has_sent :: "'c \<Rightarrow> u8 list \<Rightarrow> nat \<Rightarrow> bool \<times> 'c \<Rightarrow> bool" where
  "has_sent c bytes offset = (\<lambda>(ok, c'). offset \<le> length bytes \<longrightarrow>
     (\<exists>k. offset \<le> k \<and> k \<le> length bytes \<and>
          sent c' = sent c @ take (k - offset) (drop offset bytes) \<and>
          (ok \<longleftrightarrow> k = length bytes)))"

text \<open>One round of the loop: a partial write, a retry, or a failure.\<close>

lemma has_sent_more:
  assumes "callback c (drop offset bytes) = ((n, r), c1)"
    and "0 < n" and "nat n \<le> length bytes - offset" and "offset < length bytes"
    and "has_sent c1 bytes (offset + nat n) result"
  shows "has_sent c bytes offset result"
proof -
  obtain ok c' where result: "result = (ok, c')" by fastforce
  with assms(3-5) obtain k where k: "offset + nat n \<le> k" "k \<le> length bytes" "ok \<longleftrightarrow> k = length bytes"
    and "sent c' = sent c1 @ take (k - (offset + nat n)) (drop (offset + nat n) bytes)"
    by (auto simp: has_sent_def)
  moreover from this sends_reported [OF assms(1)] assms(2,3)
  have "sent c' = sent c @ take (k - offset) (drop offset bytes)"
    using take_add [of "nat n" "k - (offset + nat n)" "drop offset bytes"]
    by (simp add: add.commute)
  ultimately show ?thesis by (auto simp: has_sent_def result intro!: exI [of _ k])
qed

lemma has_sent_all: "\<not> offset < length bytes \<Longrightarrow> has_sent c bytes offset (True, c)"
  by (auto simp: has_sent_def)

lemma has_sent_nothing:
  assumes "callback c (drop offset bytes) = ((n, r), c1)"
    and "\<not> (0 < n \<and> nat n \<le> length bytes - offset)" and "offset < length bytes"
  shows "has_sent c bytes offset (False, c1)"
    and "has_sent c1 bytes offset result \<Longrightarrow> has_sent c bytes offset result"
  using sends_reported [OF assms(1)] assms(2,3)
  by (auto simp: has_sent_def intro!: exI [of _ offset])

lemma write_all_loop_sends:
  assumes "write_all_loop callback c bytes offset = Some result"
  shows "has_sent c bytes offset result"
proof -
  define P where "P = (\<lambda>(cb :: 'c write_callback) c bs off result.
     cb = callback \<longrightarrow> has_sent c bs off result)"
  have "P callback c bytes offset result"
  proof (rule write_all_loop.raw_induct [where P = P, OF _ assms])
    fix f and cb :: "'c write_callback" and c bs off r
    assume IH: "\<And>cb c bs off r. f cb c bs off = Some r \<Longrightarrow> P cb c bs off r"
      and eq: "(if off < length bs
         then case cb c (drop off bs) of
            ((written, retryable), context') \<Rightarrow>
              if written > 0 \<and> nat written \<le> length bs - off
              then f cb context' bs (off + nat written)
              else if written < 0 \<and> retryable then f cb context' bs off
              else Some (False, context')
         else Some (True, c)) = Some r"
    obtain n retry c1 where cb: "cb c (drop off bs) = ((n, retry), c1)" by (metis prod.exhaust)
    have later: "has_sent c bs off r" if "f callback c bs off = Some r" for c bs off r
      using IH [OF that] by (simp add: P_def)
    show "P cb c bs off r"
      using eq cb
      by (auto simp: P_def split: if_splits intro: has_sent_nothing(1) has_sent_all
          intro: has_sent_more [OF _ _ _ _ later] has_sent_nothing(2) [OF _ _ _ later])
  qed
  then show ?thesis by (simp add: P_def)
qed

lemma write_all_sends:
  assumes "bridge_io_write_all callback c bytes = Some (ok, c')"
  shows "\<exists>k \<le> length bytes. sent c' = sent c @ take k bytes \<and> (ok \<longleftrightarrow> k = length bytes)"
  using write_all_loop_sends [of c bytes 0 "(ok, c')"] assms
  by (auto simp: bridge_io_write_all_def has_sent_def)

corollary write_all_sends_everything:
  "bridge_io_write_all callback c bytes = Some (True, c') \<Longrightarrow> sent c' = sent c @ bytes"
  using write_all_sends by fastforce

end

text \<open>What every call of the callback keeps, the loop keeps.\<close>

lemma write_all_invariant:
  fixes callback :: "'c write_callback" and I :: "'c \<Rightarrow> bool"
  assumes step: "\<And>c bs. I c \<Longrightarrow> I (snd (callback c bs))"
    and "I c" and "bridge_io_write_all callback c bytes = Some (ok, c')"
  shows "I c'"
proof -
  define P where "P = (\<lambda>(cb :: 'c write_callback) c (bs :: u8 list) (off :: nat) (r :: bool \<times> 'c).
     cb = callback \<longrightarrow> I c \<longrightarrow> I (snd r))"
  have "P callback c bytes 0 (ok, c')"
  proof (rule write_all_loop.raw_induct [where P = P])
    fix f and cb :: "'c write_callback" and c bs off r
    assume IH: "\<And>cb c bs off r. f cb c bs off = Some r \<Longrightarrow> P cb c bs off r"
      and eq: "(if off < length bs
         then case cb c (drop off bs) of
            ((written, retryable), context') \<Rightarrow>
              if written > 0 \<and> nat written \<le> length bs - off
              then f cb context' bs (off + nat written)
              else if written < 0 \<and> retryable then f cb context' bs off
              else Some (False, context')
         else Some (True, c)) = Some r"
    obtain n retry c1 where cb: "cb c (drop off bs) = ((n, retry), c1)" by (metis prod.exhaust)
    have "I (snd r)" if "cb = callback" and "I c"
    proof -
      have "I c1" using step [OF that(2), of "drop off bs"] cb that(1) by simp
      then show ?thesis
        using eq cb that IH [of cb c1 bs _ r] by (auto simp: P_def split: if_splits)
    qed
    then show "P cb c bs off r" by (simp add: P_def)
  next
    show "write_all_loop callback c bytes 0 = Some (ok, c')"
      using assms(3) by (simp add: bridge_io_write_all_def)
  qed
  with assms(2) show ?thesis by (simp add: P_def)
qed

text \<open>The loop returns when errors are not retried for ever: a callback's patience shrinks.\<close>

lemma write_all_loop_returns:
  assumes patience: "\<And>c bs n c'. callback c bs = ((n, True), c') \<Longrightarrow> n < 0 \<Longrightarrow> patience c' < (patience c :: nat)"
  shows "\<exists>r. write_all_loop callback c bytes offset = Some r"
proof (induction "(length bytes - offset, patience c)" arbitrary: c offset
    rule: wf_induct_rule [OF wf_lex_prod [OF wf_less wf_less]])
  case 1
  obtain n retry c1 where cb: "callback c (drop offset bytes) = ((n, retry), c1)"
    by (metis prod.exhaust)
  show ?case
  proof (cases "offset < length bytes")
    case True
    consider "0 < n" "nat n \<le> length bytes - offset" | "n < 0" "retry"
      | "\<not> (0 < n \<and> nat n \<le> length bytes - offset)" "\<not> (n < 0 \<and> retry)" by blast
    then show ?thesis
    proof cases
      case 1
      with "1.hyps" [of "offset + nat n" c1] True have
        "\<exists>r. write_all_loop callback c1 bytes (offset + nat n) = Some r" by fastforce
      with 1 True cb show ?thesis by (simp add: write_all_loop.simps [of callback c])
    next
      case 2
      then have "patience c1 < patience c" using patience cb by simp
      with "1.hyps" [of offset c1] have
        "\<exists>r. write_all_loop callback c1 bytes offset = Some r" by simp
      with 2 True cb show ?thesis by (simp add: write_all_loop.simps [of callback c])
    next
      case 3
      with True cb show ?thesis by (auto simp: write_all_loop.simps [of callback c])
    qed
  qed (auto simp: write_all_loop.simps [of callback c])
qed

text \<open>
  C33. The write loop loses, repeats and reorders nothing: when it returns, what its
  callback has sent is a prefix of the buffer, sent once and in order, and it is the whole
  buffer exactly when the loop reports success.
\<close>

theorem bridge_io_write_all_delivers:
  fixes sent :: "'c \<Rightarrow> u8 list"
  assumes "\<And>c bs n r c'. callback c bs = ((n, r), c') \<Longrightarrow>
      sent c' = sent c @ (if 0 < n \<and> nat n \<le> length bs then take (nat n) bs else [])"
    and "bridge_io_write_all callback c bytes = Some (ok, c')"
  shows "\<exists>k \<le> length bytes. sent c' = sent c @ take k bytes \<and> (ok \<longleftrightarrow> k = length bytes)"
proof -
  have "byte_writer callback sent" using assms(1) by (rule byte_writer.intro)
  then show ?thesis using assms(2) by (rule byte_writer.write_all_sends)
qed

text \<open>
  C34. The write loop returns, whatever the callback reports, as long as the callback does
  not ask for retries for ever: each retried error uses up some of a finite patience.
\<close>

theorem bridge_io_write_all_returns:
  fixes patience :: "'c \<Rightarrow> nat"
  assumes "\<And>c bs n c'. callback c bs = ((n, True), c') \<Longrightarrow> n < 0 \<Longrightarrow> patience c' < patience c"
  shows "\<exists>ok c'. bridge_io_write_all callback c bytes = Some (ok, c')"
  using write_all_loop_returns [of callback patience c bytes 0] assms
  by (auto simp: bridge_io_write_all_def)

subsection \<open>The writer of the host tests\<close>

text \<open>
  \<open>partial_write\<close> of \<open>tests/test_main.c\<close>: two bytes at a time, and the second call fails
  with an error that may be retried. It serves as the concrete callback of the witnesses.
\<close>

record PartialWriter =
  pw_output :: "u8 list"
  pw_calls :: nat

definition partial_write :: "PartialWriter write_callback" where
  "partial_write writer bytes =
     (let writer = writer\<lparr>pw_calls := pw_calls writer + 1\<rparr> in
      if pw_calls writer = 2 then ((-1, True), writer)
      else
        let chunk = (if length bytes > 2 then 2 else length bytes) in
        ((int chunk, False), writer\<lparr>pw_output := pw_output writer @ take chunk bytes\<rparr>))"

lemma partial_write_law:
  "partial_write c bs = ((n, r), c') \<Longrightarrow>
     pw_output c' = pw_output c @ (if 0 < n \<and> nat n \<le> length bs then take (nat n) bs else [])"
  by (auto simp: partial_write_def Let_def split: if_splits)

lemma partial_write_run:
  "bridge_io_write_all partial_write \<lparr>pw_output = [], pw_calls = 0\<rparr> [1, 2, 3] =
     Some (True, \<lparr>pw_output = [1, 2, 3], pw_calls = 3\<rparr>)"
  by (simp add: bridge_io_write_all_def write_all_loop.simps partial_write_def Let_def)

theorem bridge_io_write_all_delivers_witness:
  "\<exists>k \<le> length [1, 2, 3 :: u8].
     pw_output \<lparr>pw_output = [1, 2, 3], pw_calls = 3\<rparr> =
       pw_output \<lparr>pw_output = [], pw_calls = 0\<rparr> @ take k [1, 2, 3] \<and>
     (True \<longleftrightarrow> k = length [1, 2, 3 :: u8])"
  by (rule bridge_io_write_all_delivers [OF partial_write_law partial_write_run])

theorem bridge_io_write_all_returns_witness:
  "\<exists>ok c'. bridge_io_write_all partial_write \<lparr>pw_output = [], pw_calls = 0\<rparr> [1, 2, 3] =
     Some (ok, c')"
proof (rule bridge_io_write_all_returns [where patience = "\<lambda>w. 2 - pw_calls w"])
  fix c c' :: PartialWriter and bs n
  assume "partial_write c bs = ((n, True), c')" and "n < 0"
  then show "2 - pw_calls c' < 2 - pw_calls c"
    by (auto simp: partial_write_def Let_def split: if_splits)
qed

section \<open>Room in a bounded buffer\<close>

text \<open>Sizes are 32-bit words, as \<open>size_t\<close> is on the target.\<close>

definition bridge_io_buffer_can_accept :: "u32 \<Rightarrow> u32 \<Rightarrow> u32 \<Rightarrow> bool" where
  "bridge_io_buffer_can_accept used incoming capacity =
     (used \<le> capacity \<and> incoming \<le> capacity - used)"

text \<open>
  The room check is exact and immune to wrap-around: it holds if and only if the used
  and the incoming bytes together fit the capacity, counted without overflow.
\<close>

theorem buffer_can_accept_exact:
  "bridge_io_buffer_can_accept used incoming capacity \<longleftrightarrow>
     unat used + unat incoming \<le> unat capacity"
  by (auto simp: bridge_io_buffer_can_accept_def word_le_nat_alt unat_sub)

lemma buffer_can_accept_nat:
  "used \<le> c \<Longrightarrow> incoming < 2 ^ 32 \<Longrightarrow> c < 2 ^ 32 \<Longrightarrow>
     bridge_io_buffer_can_accept (of_nat used) (of_nat incoming) (of_nat c) \<longleftrightarrow>
       used + incoming \<le> c"
  by (auto simp: bridge_io_buffer_can_accept_def word_le_nat_alt unat_sub unsigned_of_nat
      take_bit_nat_eq_self)

end
