(* ===== verification/Expansion_Transport.thy ===== *)
theory Expansion_Transport
  imports Bridge_Platform Bridge_IO
begin

text \<open>
  \<open>expansion_transport.h\<close> and \<open>expansion_transport.c\<close>: the link to the Flipper. Three
  tasks (supervisor, receiver, heartbeat) and the operations the RPC proxy calls, each a
  program over the shared state of \<open>Bridge_Platform\<close>, call for call in the order of the
  source. Logging has no effect on the state and is left out.

  The loops that wait for the platform take the number of rounds they may run; None is
  the answer of a loop that used them up.
\<close>

unbundle bit_operations_syntax

definition TRANSPORT_STOP_BIT :: u32 where [simp]: "TRANSPORT_STOP_BIT = 1"
definition TRANSPORT_LOST_BIT :: u32 where [simp]: "TRANSPORT_LOST_BIT = 2"
definition TRANSPORT_READY_BIT :: u32 where [simp]: "TRANSPORT_READY_BIT = 4"
definition TRANSPORT_RECONNECT_BIT :: u32 where [simp]: "TRANSPORT_RECONNECT_BIT = 8"

definition bridge_preferred_baud_rates :: "u32 list" where
  "bridge_preferred_baud_rates = [230400, 115200, 57600, 38400, 19200, 9600]"

section \<open>Shared fields\<close>

definition set_events :: "u32 \<Rightarrow> ('w, unit) task" where
  "set_events bits = modify (\<lambda>s. s\<lparr>events := events s OR bits\<rparr>)"

definition clear_events :: "u32 \<Rightarrow> ('w, unit) task" where
  "clear_events bits = modify (\<lambda>s. s\<lparr>events := events s AND NOT bits\<rparr>)"

definition mark_rx_activity :: "'w platform \<Rightarrow> ('w, unit) task" where
  "mark_rx_activity P = do {
     now \<leftarrow> device (esp_timer_get_time P);
     modify (\<lambda>s. s\<lparr>last_rx_us := now\<rparr>)
   }"

definition mark_tx_activity :: "'w platform \<Rightarrow> ('w, unit) task" where
  "mark_tx_activity P = do {
     now \<leftarrow> device (esp_timer_get_time P);
     modify (\<lambda>s. s\<lparr>last_tx_us := now\<rparr>)
   }"

definition transport_apply :: "ExpansionEvent \<Rightarrow> ('w, bool \<times> ExpansionAction) task" where
  "transport_apply event = State (\<lambda>s.
     case expansion_state_machine_apply (machine s) event of
       (accepted, action, m) \<Rightarrow> ((accepted, action), s\<lparr>machine := m\<rparr>))"

definition expansion_transport_state :: "bool \<Rightarrow> ('w, ExpansionState) task" where
  "expansion_transport_state transport =
     (if \<not> transport then ret ExpansionStateDisconnected
      else gets (\<lambda>s. sm_state (machine s)))"

definition expansion_transport_negotiated_baud :: "bool \<Rightarrow> ('w, u32) task" where
  "expansion_transport_negotiated_baud transport =
     (if \<not> transport then ret 0 else gets negotiated_baud)"

fun expansion_transport_state_name :: "ExpansionState \<Rightarrow> string" where
  "expansion_transport_state_name ExpansionStateDisconnected = ''disconnected''"
| "expansion_transport_state_name ExpansionStateInitialUart = ''initial_uart''"
| "expansion_transport_state_name ExpansionStateNegotiatingBaud = ''negotiating_baud''"
| "expansion_transport_state_name ExpansionStateReady = ''ready''"
| "expansion_transport_state_name ExpansionStateStartingRpc = ''starting_rpc''"
| "expansion_transport_state_name ExpansionStateRpcReady = ''rpc_ready''"
| "expansion_transport_state_name ExpansionStateStoppingRpc = ''stopping_rpc''"
| "expansion_transport_state_name ExpansionStateBackoff = ''backoff''"

definition signal_link_lost :: "'w platform \<Rightarrow> ('w, unit) task" where
  "signal_link_lost P = do {
     previous \<leftarrow> gets events;
     set_events TRANSPORT_LOST_BIT;
     do_if (previous AND TRANSPORT_LOST_BIT = 0) (count_metric P bridge_metrics_protocol_error)
   }"

section \<open>Frames over the UART\<close>

definition uart_configure :: "'w platform \<Rightarrow> u32 \<Rightarrow> ('w, esp_err) task" where
  "uart_configure P baud_rate = do {
     error \<leftarrow> device (uart_param_config P baud_rate);
     error \<leftarrow> if error = ESP_OK then device (uart_set_pin P) else ret error;
     if error = ESP_OK then device (uart_flush_input P) else ret error
   }"

definition send_frame :: "'w platform \<Rightarrow> ExpansionFrame \<Rightarrow> ('w, esp_err) task" where
  "send_frame P frame =
     (case expansion_protocol_encode frame (BRIDGE_EXPANSION_MAX_DATA + 3) of
        None \<Rightarrow> ret ESP_ERR_INVALID_ARG
      | Some encoded \<Rightarrow> do {
          taken \<leftarrow> blocking (tx_mutex_take P BRIDGE_EXPANSION_ACK_TIMEOUT_MS);
          if \<not> taken then ret ESP_ERR_TIMEOUT
          else do {
            written \<leftarrow> device (uart_write_bytes P encoded);
            error \<leftarrow> if written = int (length encoded)
                     then blocking (uart_wait_tx_done P BRIDGE_EXPANSION_ACK_TIMEOUT_MS)
                     else ret ESP_FAIL;
            do_if (error = ESP_OK) (do {
              mark_tx_activity P;
              count_metric P (\<lambda>e. bridge_metrics_add_expansion_tx e (length encoded));
              count_metric P bridge_metrics_frame
            });
            device_do (tx_mutex_give P);
            ret error
          }
        })"

definition send_status :: "'w platform \<Rightarrow> ExpansionFrameError \<Rightarrow> ('w, esp_err) task" where
  "send_status P status = send_frame P (StatusFrame status)"

text \<open>
  The frame is only meaningful with \<open>ESP_OK\<close>, as in C; \<open>fuel\<close> bounds the polls before the
  deadline.
\<close>

fun receive_frame_loop ::
    "'w platform \<Rightarrow> nat \<Rightarrow> ExpansionDecoder \<Rightarrow> int \<Rightarrow>
     ('w, (esp_err \<times> ExpansionFrame) option) task" where
  "receive_frame_loop P 0 decoder deadline = ret None"
| "receive_frame_loop P (Suc fuel) decoder deadline = do {
     now \<leftarrow> device (esp_timer_get_time P);
     if \<not> now < deadline then ret (Some (ESP_ERR_TIMEOUT, InvalidFrame 0))
     else do {
       (count, byte) \<leftarrow> blocking (uart_read_byte P 10);
       if count < 0 then ret (Some (ESP_FAIL, InvalidFrame 0))
       else if count = 0 then receive_frame_loop P fuel decoder deadline
       else do {
         count_metric P (\<lambda>e. bridge_metrics_add_expansion_rx e 1);
         case expansion_decoder_push decoder byte of
           (ExpansionDecodeFrameReady frame, decoder) \<Rightarrow> do {
             mark_rx_activity P;
             count_metric P bridge_metrics_frame;
             ret (Some (ESP_OK, frame))
           }
         | (ExpansionDecodeNeedMore, decoder) \<Rightarrow> receive_frame_loop P fuel decoder deadline
         | (_, decoder) \<Rightarrow> do {
             send_status P ExpansionFrameErrorUnknown;
             count_metric P bridge_metrics_protocol_error;
             ret (Some (ESP_ERR_INVALID_RESPONSE, InvalidFrame 0))
           }
       }
     }
   }"

definition receive_frame_sync ::
    "'w platform \<Rightarrow> nat \<Rightarrow> nat \<Rightarrow> ('w, (esp_err \<times> ExpansionFrame) option) task" where
  "receive_frame_sync P fuel timeout_ms = do {
     now \<leftarrow> device (esp_timer_get_time P);
     receive_frame_loop P fuel expansion_decoder_reset (now + int timeout_ms * 1000)
   }"

text \<open>
  A request that is acknowledged by a status frame. The status is only meaningful with
  \<open>ESP_OK\<close>; when the request mutex is not obtained the C variable stays unset, and no
  caller reads it.
\<close>

definition send_wait_status ::
    "'w platform \<Rightarrow> ExpansionFrame \<Rightarrow> ('w, esp_err \<times> ExpansionFrameError) task" where
  "send_wait_status P frame = do {
     taken \<leftarrow> blocking (request_mutex_take P BRIDGE_EXPANSION_TIMEOUT_MS);
     if \<not> taken then ret (ESP_ERR_TIMEOUT, ExpansionFrameErrorUnknown)
     else do {
       modify (\<lambda>s. s\<lparr>status_semaphore := False\<rparr>);
       modify (\<lambda>s. s\<lparr>awaiting_status := True, last_status := ExpansionFrameErrorUnknown\<rparr>);
       started \<leftarrow> device (esp_timer_get_time P);
       error \<leftarrow> send_frame P frame;
       error \<leftarrow> if error = ESP_OK then do {
           modify (status_semaphore_wait P BRIDGE_EXPANSION_ACK_TIMEOUT_MS);
           given \<leftarrow> gets status_semaphore;
           modify (\<lambda>s. s\<lparr>status_semaphore := False\<rparr>);
           ret (if given then error else ESP_ERR_TIMEOUT)
         } else ret error;
       now \<leftarrow> device (esp_timer_get_time P);
       count_metric P (\<lambda>e. bridge_metrics_ack_wait e (of_int (now - started)));
       modify (\<lambda>s. s\<lparr>awaiting_status := False\<rparr>);
       status \<leftarrow> gets last_status;
       device_do (request_mutex_give P);
       ret (error, status)
     }
   }"

section \<open>The receiver task\<close>

text \<open>
  \<open>rx_frame\<close> is the branch for a complete frame, \<open>rx_round\<close> the body of the task's loop;
  they answer whether the loop goes on, and with which decoder.
\<close>

definition rx_data :: "'w platform \<Rightarrow> u8 \<Rightarrow> u8 list \<Rightarrow> ('w, bool) task" where
  "rx_data P sz bytes = do {
     used \<leftarrow> gets (\<lambda>s. stream_bytes_available P (world s));
     if \<not> bridge_io_buffer_can_accept (of_nat used) (ucast sz)
          (of_nat BRIDGE_RPC_RX_BUFFER_BYTES)
     then do {
       send_status P ExpansionFrameErrorUnknown;
       signal_link_lost P;
       ret False
     }
     else do {
       sent \<leftarrow> blocking (stream_send P (take (unat sz) bytes) BRIDGE_EXPANSION_ACK_TIMEOUT_MS);
       if sent \<noteq> unat sz then do { signal_link_lost P; ret False }
       else do {
         error \<leftarrow> send_status P ExpansionFrameErrorNone;
         if error \<noteq> ESP_OK then do { signal_link_lost P; ret False }
         else do {
           count_metric P (\<lambda>e. bridge_metrics_add_rpc_rx e sent);
           used \<leftarrow> gets (\<lambda>s. stream_bytes_available P (world s));
           count_metric P (\<lambda>e. bridge_metrics_queue_used e (of_nat used));
           ret True
         }
       }
     }
   }"

definition rx_status :: "'w platform \<Rightarrow> ExpansionFrameError \<Rightarrow> ('w, bool) task" where
  "rx_status P status = do {
     expected \<leftarrow> gets awaiting_status;
     do_if expected (modify (\<lambda>s. s\<lparr>last_status := status\<rparr>));
     if expected then do { modify (\<lambda>s. s\<lparr>status_semaphore := True\<rparr>); ret True }
     else do { signal_link_lost P; ret False }
   }"

definition rx_frame :: "'w platform \<Rightarrow> ExpansionFrame \<Rightarrow> ('w, bool) task" where
  "rx_frame P frame =
     (case frame of
        HeartbeatFrame \<Rightarrow> ret True
      | StatusFrame status \<Rightarrow> rx_status P status
      | DataFrame sz bytes \<Rightarrow> do {
          state \<leftarrow> expansion_transport_state True;
          if state = ExpansionStateRpcReady then rx_data P sz bytes
          else do { signal_link_lost P; ret False }
        }
      | _ \<Rightarrow> do { signal_link_lost P; ret False })"

definition rx_round :: "'w platform \<Rightarrow> ExpansionDecoder \<Rightarrow> ('w, bool \<times> ExpansionDecoder) task" where
  "rx_round P decoder = do {
     (count, byte) \<leftarrow> blocking (uart_read_byte P 20);
     if count < 0 then do { signal_link_lost P; ret (False, decoder) }
     else if count = 0 then ret (True, decoder)
     else do {
       count_metric P (\<lambda>e. bridge_metrics_add_expansion_rx e 1);
       case expansion_decoder_push decoder byte of
         (ExpansionDecodeNeedMore, decoder) \<Rightarrow> ret (True, decoder)
       | (ExpansionDecodeFrameReady frame, decoder) \<Rightarrow> do {
           mark_rx_activity P;
           count_metric P bridge_metrics_frame;
           continue \<leftarrow> rx_frame P frame;
           ret (continue, decoder)
         }
       | (_, decoder) \<Rightarrow> do { signal_link_lost P; ret (False, decoder) }
     }
   }"

text \<open>The task for at most \<open>fuel\<close> rounds; it answers whether it has ended.\<close>

definition stop_or_lost :: "('w, bool) task" where
  "stop_or_lost = gets (\<lambda>s. events s AND (TRANSPORT_STOP_BIT OR TRANSPORT_LOST_BIT) \<noteq> 0)"

fun rx_loop :: "'w platform \<Rightarrow> nat \<Rightarrow> ExpansionDecoder \<Rightarrow> ('w, bool \<times> ExpansionDecoder) task" where
  "rx_loop P 0 decoder = ret (False, decoder)"
| "rx_loop P (Suc fuel) decoder = do {
     leave \<leftarrow> stop_or_lost;
     if leave then ret (True, decoder)
     else do {
       (continue, decoder) \<leftarrow> rx_round P decoder;
       if continue then rx_loop P fuel decoder else ret (True, decoder)
     }
   }"

definition expansion_rx_task :: "'w platform \<Rightarrow> nat \<Rightarrow> ('w, bool) task" where
  "expansion_rx_task P fuel = do {
     (ended, decoder) \<leftarrow> rx_loop P fuel expansion_decoder_reset;
     do_if ended (modify (\<lambda>s. s\<lparr>rx_task := False\<rparr>));
     ret ended
   }"

section \<open>The heartbeat task\<close>

definition heartbeat_round :: "'w platform \<Rightarrow> ('w, bool) task" where
  "heartbeat_round P = do {
     now \<leftarrow> device (esp_timer_get_time P);
     last_rx \<leftarrow> gets last_rx_us;
     last_tx \<leftarrow> gets last_tx_us;
     request_pending \<leftarrow> gets awaiting_status;
     if now - last_rx > int BRIDGE_EXPANSION_TIMEOUT_MS * 1000
     then do { signal_link_lost P; ret False }
     else if now - last_tx \<ge> int BRIDGE_EXPANSION_HEARTBEAT_MS * 1000 then
       if request_pending then do { pause P (BRIDGE_EXPANSION_HEARTBEAT_MS div 4); ret True }
       else do {
         error \<leftarrow> send_frame P HeartbeatFrame;
         if error \<noteq> ESP_OK then do { signal_link_lost P; ret False }
         else do { pause P (BRIDGE_EXPANSION_HEARTBEAT_MS div 4); ret True }
       }
     else do { pause P (BRIDGE_EXPANSION_HEARTBEAT_MS div 4); ret True }
   }"

fun heartbeat_loop :: "'w platform \<Rightarrow> nat \<Rightarrow> ('w, bool) task" where
  "heartbeat_loop P 0 = ret False"
| "heartbeat_loop P (Suc fuel) = do {
     leave \<leftarrow> stop_or_lost;
     if leave then ret True
     else do {
       continue \<leftarrow> heartbeat_round P;
       if continue then heartbeat_loop P fuel else ret True
     }
   }"

definition expansion_heartbeat_task :: "'w platform \<Rightarrow> nat \<Rightarrow> ('w, bool) task" where
  "expansion_heartbeat_task P fuel = do {
     ended \<leftarrow> heartbeat_loop P fuel;
     do_if ended (modify (\<lambda>s. s\<lparr>heartbeat_task := False\<rparr>));
     ret ended
   }"

section \<open>Establishing the link\<close>

definition release_expansion_pins :: "'w platform \<Rightarrow> ('w, unit) task" where
  "release_expansion_pins P = do {
     device (gpio_reset_tx_pin P);
     device (gpio_reset_rx_pin P);
     ret ()
   }"

definition pulse_flipper_rx :: "'w platform \<Rightarrow> ('w, esp_err) task" where
  "pulse_flipper_rx P = do {
     error \<leftarrow> device (gpio_reset_tx_pin P);
     if error \<noteq> ESP_OK then ret error else do {
     error \<leftarrow> device (gpio_set_tx_open_drain P);
     if error \<noteq> ESP_OK then ret error else do {
     error \<leftarrow> device (gpio_set_tx_level P True);
     if error \<noteq> ESP_OK then ret error else do {
     device_do (esp_rom_delay_us P 100);
     error \<leftarrow> device (gpio_set_tx_level P False);
     if error \<noteq> ESP_OK then ret error else do {
     pause P BRIDGE_EXPANSION_DETECT_PULSE_MS;
     device (gpio_set_tx_level P True) }}}}
   }"

text \<open>The answer of a step with fuel: None, or the error code.\<close>

fun negotiate_baud :: "'w platform \<Rightarrow> nat \<Rightarrow> u32 list \<Rightarrow> ('w, esp_err option) task" where
  "negotiate_baud P fuel [] = ret (Some ESP_ERR_NOT_SUPPORTED)"
| "negotiate_baud P fuel (baud # rates) = do {
     error \<leftarrow> send_frame P (BaudRateFrame baud);
     if error \<noteq> ESP_OK then ret (Some error) else do {
     received \<leftarrow> receive_frame_sync P fuel BRIDGE_EXPANSION_TIMEOUT_MS;
     case received of
       None \<Rightarrow> ret None
     | Some (error, response) \<Rightarrow>
         (case (error, response) of
            (ESP_OK, StatusFrame status) \<Rightarrow>
              if status = ExpansionFrameErrorBaudRate then do {
                transport_apply ExpansionEventBaudRejected;
                negotiate_baud P fuel rates
              } else do {
                accepted \<leftarrow> if status \<noteq> ExpansionFrameErrorNone then ret False
                           else do {
                             (accepted, action) \<leftarrow> transport_apply ExpansionEventBaudAccepted;
                             ret accepted
                           };
                if \<not> accepted then ret (Some ESP_ERR_INVALID_RESPONSE) else do {
                pause P BRIDGE_EXPANSION_BAUD_DEAD_TIME_MS;
                error \<leftarrow> device (uart_set_baudrate P baud);
                if error \<noteq> ESP_OK then ret (Some error) else do {
                modify (\<lambda>s. s\<lparr>negotiated_baud := baud\<rparr>);
                now \<leftarrow> device (esp_timer_get_time P);
                modify (\<lambda>s. s\<lparr>last_rx_us := now, last_tx_us := now\<rparr>);
                ret (Some ESP_OK) }}
              }
          | _ \<Rightarrow> ret (Some ESP_ERR_INVALID_RESPONSE)) }
   }"

definition establish_expansion :: "'w platform \<Rightarrow> nat \<Rightarrow> ('w, esp_err option) task" where
  "establish_expansion P fuel = do {
     modify (\<lambda>s. s\<lparr>machine := expansion_state_machine_init, negotiated_baud := 0\<rparr>);
     (accepted, action) \<leftarrow> transport_apply ExpansionEventStart;
     if \<not> accepted \<or> action \<noteq> ExpansionActionDetectPulse then ret (Some ESP_FAIL) else do {
     error \<leftarrow> uart_configure P BRIDGE_EXPANSION_INITIAL_BAUD;
     if error \<noteq> ESP_OK then ret (Some error) else do {
     error \<leftarrow> pulse_flipper_rx P;
     if error \<noteq> ESP_OK then ret (Some error) else do {
     error \<leftarrow> device (uart_set_pin P);
     if error \<noteq> ESP_OK then ret (Some error) else do {
     received \<leftarrow> receive_frame_sync P fuel BRIDGE_EXPANSION_TIMEOUT_MS;
     case received of
       None \<Rightarrow> ret None
     | Some (error, response) \<Rightarrow>
         if error \<noteq> ESP_OK \<or> response \<noteq> HeartbeatFrame then ret (Some ESP_ERR_TIMEOUT)
         else do {
           (accepted, action) \<leftarrow> transport_apply ExpansionEventHeartbeatReceived;
           if \<not> accepted then ret (Some ESP_FAIL)
           else negotiate_baud P fuel bridge_preferred_baud_rates
         } }}}}
   }"

section \<open>The supervisor task\<close>

fun await_io_tasks :: "'w platform \<Rightarrow> nat \<Rightarrow> ('w, unit) task" where
  "await_io_tasks P 0 = ret ()"
| "await_io_tasks P (Suc waits) = do {
     busy \<leftarrow> gets (\<lambda>s. rx_task s \<or> heartbeat_task s);
     if busy then do { pause P 10; await_io_tasks P waits } else ret ()
   }"

definition stop_io_tasks :: "'w platform \<Rightarrow> ('w, unit) task" where
  "stop_io_tasks P = do {
     await_io_tasks P 25;
     rx \<leftarrow> gets rx_task;
     do_if rx (do {
       device_do (delete_task P ''expansion_rx'');
       modify (\<lambda>s. s\<lparr>rx_task := False\<rparr>)
     });
     hb \<leftarrow> gets heartbeat_task;
     do_if hb (do {
       device_do (delete_task P ''expansion_hb'');
       modify (\<lambda>s. s\<lparr>heartbeat_task := False\<rparr>)
     })
   }"

text \<open>
  The task before its loop, one round of the loop, and the loop. A round answers None when
  the receive loop's fuel is used up, \<open>Some None\<close> when the loop is left, and
  \<open>Some (Some n)\<close> with the number of attempts that the next round starts from.
\<close>

definition start_io_tasks :: "'w platform \<Rightarrow> ('w, unit) task" where
  "start_io_tasks P = do {
     device_do (stream_reset P);
     rx \<leftarrow> device (create_task P ''expansion_rx'');
     do_if rx (modify (\<lambda>s. s\<lparr>rx_task := True\<rparr>));
     hb \<leftarrow> if rx then device (create_task P ''expansion_hb'') else ret False;
     do_if hb (modify (\<lambda>s. s\<lparr>heartbeat_task := True\<rparr>));
     do_if (\<not> rx \<or> \<not> hb) (signal_link_lost P)
   }"

definition wait_for_retry :: "'w platform \<Rightarrow> nat \<Rightarrow> ('w, nat option) task" where
  "wait_for_retry P attempts =
     (if attempts < BRIDGE_EXPANSION_MAX_RETRIES then ret (Some attempts)
      else do {
        release_expansion_pins P;
        modify (event_wait P (TRANSPORT_RECONNECT_BIT OR TRANSPORT_STOP_BIT));
        wake \<leftarrow> gets events;
        clear_events (TRANSPORT_RECONNECT_BIT OR TRANSPORT_STOP_BIT);
        ret (if wake AND TRANSPORT_STOP_BIT \<noteq> 0 then None else Some 0)
      })"

definition connection_failed :: "'w platform \<Rightarrow> nat \<Rightarrow> ('w, nat) task" where
  "connection_failed P attempts = do {
     release_expansion_pins P;
     count_metric P bridge_metrics_retry;
     transport_apply ExpansionEventTimeout;
     pause P (BRIDGE_EXPANSION_RETRY_BASE_MS * (attempts + 1));
     ret (attempts + 1)
   }"

definition serve_connection :: "'w platform \<Rightarrow> ('w, nat option) task" where
  "serve_connection P = do {
     start_io_tasks P;
     set_events TRANSPORT_READY_BIT;
     modify (event_wait P (TRANSPORT_LOST_BIT OR TRANSPORT_STOP_BIT));
     stop_io_tasks P;
     clear_events TRANSPORT_READY_BIT;
     bits \<leftarrow> gets events;
     if bits AND TRANSPORT_STOP_BIT \<noteq> 0 then ret None
     else do {
       transport_apply ExpansionEventTimeout;
       count_metric P bridge_metrics_retry;
       device (uart_flush_input P);
       release_expansion_pins P;
       pause P (BRIDGE_EXPANSION_RETRY_BASE_MS * 1);
       ret (Some 1)
     }
   }"

definition supervisor_round :: "'w platform \<Rightarrow> nat \<Rightarrow> nat \<Rightarrow> ('w, nat option option) task" where
  "supervisor_round P fuel attempts = do {
     retry \<leftarrow> wait_for_retry P attempts;
     case retry of
       None \<Rightarrow> ret (Some None)
     | Some attempts \<Rightarrow> do {
         clear_events (TRANSPORT_LOST_BIT OR TRANSPORT_READY_BIT);
         established \<leftarrow> establish_expansion P fuel;
         case established of
           None \<Rightarrow> ret None
         | Some error \<Rightarrow>
             if error \<noteq> ESP_OK then do {
               n \<leftarrow> connection_failed P attempts;
               ret (Some (Some n))
             } else do {
               next \<leftarrow> serve_connection P;
               ret (Some next)
             }
       }
   }"

fun supervisor_loop :: "'w platform \<Rightarrow> nat \<Rightarrow> nat \<Rightarrow> nat \<Rightarrow> ('w, bool) task" where
  "supervisor_loop P fuel 0 attempts = ret False"
| "supervisor_loop P fuel (Suc rounds) attempts = do {
     go \<leftarrow> gets running;
     if \<not> go then ret True
     else do {
       answer \<leftarrow> supervisor_round P fuel attempts;
       case answer of
         None \<Rightarrow> ret False
       | Some None \<Rightarrow> ret True
       | Some (Some n) \<Rightarrow> supervisor_loop P fuel rounds n
     }
   }"

definition expansion_supervisor_task :: "'w platform \<Rightarrow> nat \<Rightarrow> nat \<Rightarrow> ('w, bool) task" where
  "expansion_supervisor_task P fuel rounds = do {
     clear_events TRANSPORT_RECONNECT_BIT;
     pause P BRIDGE_EXPANSION_STARTUP_DELAY_MS;
     ended \<leftarrow> supervisor_loop P fuel rounds 0;
     do_if ended (modify (\<lambda>s. s\<lparr>supervisor_task := False\<rparr>));
     ret ended
   }"

section \<open>Life cycle\<close>

fun await_supervisor :: "'w platform \<Rightarrow> nat \<Rightarrow> ('w, unit) task" where
  "await_supervisor P 0 = ret ()"
| "await_supervisor P (Suc waits) = do {
     busy \<leftarrow> gets supervisor_task;
     if busy then do { pause P 10; await_supervisor P waits } else ret ()
   }"

definition expansion_transport_destroy :: "'w platform \<Rightarrow> bool \<Rightarrow> ('w, unit) task" where
  "expansion_transport_destroy P transport =
     do_if transport (do {
       modify (\<lambda>s. s\<lparr>running := False\<rparr>);
       set_events TRANSPORT_STOP_BIT;
       await_supervisor P 50;
       stop_io_tasks P;
       supervisor \<leftarrow> gets supervisor_task;
       do_if supervisor (device_do (delete_task P ''expansion''));
       installed \<leftarrow> gets uart_installed;
       do_if installed (device_do (uart_driver_delete P));
       device_do (delete_kernel_objects P)
     })"

text \<open>
  The fields as \<open>calloc\<close> and the initialiser leave them; \<open>create_kernel_objects\<close> answers
  whether the event group, the semaphores and the stream buffer were all created.
\<close>

definition fresh_transport :: "'w Bridge \<Rightarrow> 'w Bridge" where
  "fresh_transport s =
     s\<lparr>machine := expansion_state_machine_init, negotiated_baud := 0, running := False,
       uart_installed := False, awaiting_status := False,
       last_status := ExpansionFrameErrorNone, last_rx_us := 0, last_tx_us := 0, events := 0,
       status_semaphore := False, supervisor_task := False, rx_task := False,
       heartbeat_task := False\<rparr>"

definition expansion_transport_create :: "'w platform \<Rightarrow> ('w, esp_err \<times> bool) task" where
  "expansion_transport_create P = do {
     allocated \<leftarrow> device (calloc P);
     if \<not> allocated then ret (ESP_ERR_NO_MEM, False)
     else do {
       modify fresh_transport;
       created \<leftarrow> device (create_kernel_objects P);
       if \<not> created then do {
         expansion_transport_destroy P True;
         ret (ESP_ERR_NO_MEM, False)
       } else do {
         error \<leftarrow> device (uart_driver_install P);
         if error \<noteq> ESP_OK then do {
           expansion_transport_destroy P True;
           ret (error, False)
         } else do {
           modify (\<lambda>s. s\<lparr>uart_installed := True\<rparr>);
           ret (ESP_OK, True)
         }
       }
     }
   }"

definition expansion_transport_start :: "'w platform \<Rightarrow> bool \<Rightarrow> ('w, esp_err) task" where
  "expansion_transport_start P transport =
     (if \<not> transport then ret ESP_ERR_INVALID_ARG
      else do {
        started \<leftarrow> gets running;
        if started then ret ESP_ERR_INVALID_STATE
        else do {
          modify (\<lambda>s. s\<lparr>running := True\<rparr>);
          created \<leftarrow> device (create_task P ''expansion'');
          if \<not> created then do {
            modify (\<lambda>s. s\<lparr>running := False\<rparr>);
            ret ESP_ERR_NO_MEM
          } else do {
            modify (\<lambda>s. s\<lparr>supervisor_task := True\<rparr>);
            ret ESP_OK
          }
        }
      })"

section \<open>Operations of the proxy\<close>

definition expansion_transport_request_reconnect :: "bool \<Rightarrow> ('w, unit) task" where
  "expansion_transport_request_reconnect transport =
     do_if transport (set_events TRANSPORT_RECONNECT_BIT)"

text \<open>
  A control request and the event that confirms it, common to both operations: on any
  failure the link is given up.
\<close>

definition control_request ::
    "'w platform \<Rightarrow> ExpansionControlCommand \<Rightarrow> ExpansionEvent \<Rightarrow> ('w, esp_err) task" where
  "control_request P command confirmation = do {
     (error, status) \<leftarrow> send_wait_status P (ControlFrame command);
     confirmed \<leftarrow> if error \<noteq> ESP_OK \<or> status \<noteq> ExpansionFrameErrorNone then ret False
                 else do {
                   (accepted, action) \<leftarrow> transport_apply confirmation;
                   ret accepted
                 };
     if \<not> confirmed then do {
       signal_link_lost P;
       ret (if error = ESP_OK then ESP_ERR_INVALID_RESPONSE else error)
     } else ret ESP_OK
   }"

definition expansion_transport_begin_rpc :: "'w platform \<Rightarrow> bool \<Rightarrow> ('w, esp_err) task" where
  "expansion_transport_begin_rpc P transport =
     (if \<not> transport then ret ESP_ERR_INVALID_ARG
      else do {
        state \<leftarrow> expansion_transport_state transport;
        if state \<noteq> ExpansionStateReady then do {
          expansion_transport_request_reconnect transport;
          ret ESP_ERR_INVALID_STATE
        } else do {
          (accepted, action) \<leftarrow> transport_apply ExpansionEventBeginRpc;
          if \<not> accepted then ret ESP_ERR_INVALID_STATE
          else control_request P ExpansionControlStartRpc ExpansionEventRpcStarted
        }
      })"

definition expansion_transport_end_rpc :: "'w platform \<Rightarrow> bool \<Rightarrow> ('w, esp_err) task" where
  "expansion_transport_end_rpc P transport =
     (if \<not> transport then ret ESP_ERR_INVALID_ARG
      else do {
        state \<leftarrow> expansion_transport_state transport;
        if state = ExpansionStateReady then ret ESP_OK
        else do {
          state \<leftarrow> expansion_transport_state transport;
          if state \<noteq> ExpansionStateRpcReady then ret ESP_ERR_INVALID_STATE
          else do {
            (accepted, action) \<leftarrow> transport_apply ExpansionEventEndRpc;
            if \<not> accepted then ret ESP_ERR_INVALID_STATE
            else do {
              error \<leftarrow> control_request P ExpansionControlStopRpc ExpansionEventRpcStopped;
              do_if (error = ESP_OK) (device_do (stream_reset P));
              ret error
            }
          }
        }
      })"

definition data_frame :: "u8 list \<Rightarrow> ExpansionFrame" where
  "data_frame chunk =
     DataFrame (of_nat (length chunk))
       (chunk @ replicate (BRIDGE_EXPANSION_MAX_DATA - length chunk) 0)"

function send_chunks :: "'w platform \<Rightarrow> u8 list \<Rightarrow> nat \<Rightarrow> ('w, esp_err) task" where
  "send_chunks P bytes offset =
     (if \<not> offset < length bytes then ret ESP_OK
      else let chunk = (if length bytes - offset < BRIDGE_EXPANSION_MAX_DATA
                        then length bytes - offset else BRIDGE_EXPANSION_MAX_DATA)
      in do {
        (error, status) \<leftarrow> send_wait_status P (data_frame (take chunk (drop offset bytes)));
        if error \<noteq> ESP_OK \<or> status \<noteq> ExpansionFrameErrorNone then do {
          signal_link_lost P;
          ret (if error = ESP_OK then ESP_ERR_INVALID_RESPONSE else error)
        } else do {
          count_metric P (\<lambda>e. bridge_metrics_add_rpc_tx e chunk);
          send_chunks P bytes (offset + chunk)
        }
      })"
  by pat_completeness auto
termination
  by (relation "measure (\<lambda>(P, bytes, offset). length bytes - offset)")
     (auto simp: Let_def split: if_splits)

definition note_transfer :: "nat \<Rightarrow> ('w, unit) task" where
  "note_transfer bytes = modify (\<lambda>s. s\<lparr>led := activity_led_note_transfer bytes (led s)\<rparr>)"

definition expansion_transport_send_rpc ::
    "'w platform \<Rightarrow> bool \<Rightarrow> u8 list \<Rightarrow> ('w, esp_err) task" where
  "expansion_transport_send_rpc P transport bytes =
     (if \<not> transport then ret ESP_ERR_INVALID_ARG
      else do {
        state \<leftarrow> expansion_transport_state transport;
        if state \<noteq> ExpansionStateRpcReady then ret ESP_ERR_INVALID_STATE
        else do {
          error \<leftarrow> send_chunks P bytes 0;
          do_if (error = ESP_OK) (note_transfer (length bytes));
          ret error
        }
      })"

definition expansion_transport_receive_rpc ::
    "'w platform \<Rightarrow> bool \<Rightarrow> nat \<Rightarrow> nat \<Rightarrow> ('w, esp_err \<times> u8 list) task" where
  "expansion_transport_receive_rpc P transport capacity timeout_ms =
     (if \<not> transport \<or> capacity = 0 then ret (ESP_ERR_INVALID_ARG, [])
      else do {
        received \<leftarrow> blocking (stream_receive P capacity timeout_ms);
        if length received > 0 then do {
          note_transfer (length received);
          ret (ESP_OK, received)
        } else do {
          state \<leftarrow> expansion_transport_state transport;
          ret (if state = ExpansionStateRpcReady then ESP_ERR_TIMEOUT
               else ESP_ERR_INVALID_STATE, received)
        }
      })"

end
