(* ===== verification/Bridge_Message.thy ===== *)
theory Bridge_Message
  imports Bridge_Config
begin

text \<open>
  The management messages of \<open>bridge_session.h\<close> and \<open>bridge_session.c\<close>: their encoder and
  the decoder that is fed the TCP stream in whatever segments \<open>recv\<close> returns.

  A command is the integer on the wire, because the decoder casts the byte without a
  check and only the encoder refuses values outside the enumeration.
\<close>

section \<open>Messages\<close>

type_synonym BridgeCommand = u8

definition BridgeCommandHello :: BridgeCommand where [simp]: "BridgeCommandHello = 1"
definition BridgeCommandAuthenticate :: BridgeCommand where
  [simp]: "BridgeCommandAuthenticate = 2"
definition BridgeCommandGetBridgeInfo :: BridgeCommand where
  [simp]: "BridgeCommandGetBridgeInfo = 3"
definition BridgeCommandGetStatus :: BridgeCommand where [simp]: "BridgeCommandGetStatus = 4"
definition BridgeCommandBeginRpcProxy :: BridgeCommand where
  [simp]: "BridgeCommandBeginRpcProxy = 5"
definition BridgeCommandEndRpcProxy :: BridgeCommand where
  [simp]: "BridgeCommandEndRpcProxy = 6"
definition BridgeCommandPing :: BridgeCommand where [simp]: "BridgeCommandPing = 7"

datatype BridgeStatus =
    BridgeStatusOk
  | BridgeStatusMalformed
  | BridgeStatusUnsupportedProtocol
  | BridgeStatusUnauthorized
  | BridgeStatusBusy
  | BridgeStatusUnavailable
  | BridgeStatusTooLarge
  | BridgeStatusInvalidState

fun status_code :: "BridgeStatus \<Rightarrow> u8" where
  "status_code BridgeStatusOk = 0"
| "status_code BridgeStatusMalformed = 1"
| "status_code BridgeStatusUnsupportedProtocol = 2"
| "status_code BridgeStatusUnauthorized = 3"
| "status_code BridgeStatusBusy = 4"
| "status_code BridgeStatusUnavailable = 5"
| "status_code BridgeStatusTooLarge = 6"
| "status_code BridgeStatusInvalidState = 7"

text \<open>The cast of a status byte that has passed the check against the last enumerator.\<close>

definition status_of :: "u8 \<Rightarrow> BridgeStatus" where
  "status_of c =
     (if c = 0 then BridgeStatusOk else if c = 1 then BridgeStatusMalformed
      else if c = 2 then BridgeStatusUnsupportedProtocol
      else if c = 3 then BridgeStatusUnauthorized else if c = 4 then BridgeStatusBusy
      else if c = 5 then BridgeStatusUnavailable else if c = 6 then BridgeStatusTooLarge
      else BridgeStatusInvalidState)"

record BridgeMessage =
  msg_version :: u8
  msg_command :: BridgeCommand
  msg_flags :: u8
  msg_status :: BridgeStatus
  msg_request_id :: u32
  msg_payload_size :: u16
  msg_payload :: "u8 list"

definition BRIDGE_MANAGEMENT_MAGIC :: "u8 list" where
  "BRIDGE_MANAGEMENT_MAGIC = ascii ''FBRG''"

definition BRIDGE_MANAGEMENT_RESPONSE_FLAG :: u8 where
  [simp]: "BRIDGE_MANAGEMENT_RESPONSE_FLAG = 1"

text \<open>A payload array: the given bytes, zero behind them.\<close>

definition payload_array :: "u8 list \<Rightarrow> u8 list" where
  "payload_array bytes = bytes @ replicate (BRIDGE_MANAGEMENT_MAX_PAYLOAD - length bytes) 0"

section \<open>Encoding\<close>

definition message_bytes :: "BridgeMessage \<Rightarrow> u8 list" where
  "message_bytes m =
     BRIDGE_MANAGEMENT_MAGIC @
     [msg_version m, msg_command m, msg_flags m, status_code (msg_status m)] @
     write_u32_le (msg_request_id m) @ write_u16_le (msg_payload_size m) @
     take (unat (msg_payload_size m)) (msg_payload m)"

definition bridge_message_encode :: "BridgeMessage \<Rightarrow> nat \<Rightarrow> u8 list option" where
  "bridge_message_encode m capacity =
     (if unat (msg_payload_size m) > BRIDGE_MANAGEMENT_MAX_PAYLOAD \<or>
         msg_command m < BridgeCommandHello \<or> msg_command m > BridgeCommandPing
      then None
      else
        let required = BRIDGE_MANAGEMENT_HEADER_SIZE + unat (msg_payload_size m) in
        if capacity < required then None else Some (message_bytes m))"

section \<open>Decoding\<close>

datatype BridgeMessageDecodeResult =
    BridgeDecodeNeedMore
  | BridgeDecodeReady BridgeMessage
  | BridgeDecodeMalformed
  | BridgeDecodeTooLarge

record BridgeMessageDecoder =
  md_bytes :: "u8 list"
  md_used :: nat
  md_expected :: nat

definition message_decoder_capacity :: nat where
  [simp]: "message_decoder_capacity =
     BRIDGE_MANAGEMENT_HEADER_SIZE + BRIDGE_MANAGEMENT_MAX_PAYLOAD"

definition bridge_message_decoder_reset :: BridgeMessageDecoder where
  "bridge_message_decoder_reset =
     \<lparr>md_bytes = replicate message_decoder_capacity 0, md_used = 0, md_expected = 0\<rparr>"

definition reserved_flags :: "u8 \<Rightarrow> bool" where
  "reserved_flags flags = (flags AND NOT BRIDGE_MANAGEMENT_RESPONSE_FLAG \<noteq> 0)"

text \<open>The checks on a complete header, None where it is accepted.\<close>

definition header_refused :: "u8 list \<Rightarrow> BridgeMessageDecodeResult option" where
  "header_refused bytes =
     (if take 4 bytes \<noteq> BRIDGE_MANAGEMENT_MAGIC \<or>
         reserved_flags (bytes ! 6) \<or>
         bytes ! 7 > status_code BridgeStatusInvalidState
      then Some BridgeDecodeMalformed
      else if unat (read_u16_le (drop 12 bytes)) > BRIDGE_MANAGEMENT_MAX_PAYLOAD
      then Some BridgeDecodeTooLarge
      else None)"

definition message_of :: "u8 list \<Rightarrow> BridgeMessage" where
  "message_of bytes =
     (let payload_size = read_u16_le (drop 12 bytes) in
      \<lparr>msg_version = bytes ! 4, msg_command = bytes ! 5, msg_flags = bytes ! 6,
       msg_status = status_of (bytes ! 7), msg_request_id = read_u32_le (drop 8 bytes),
       msg_payload_size = payload_size,
       msg_payload = payload_array
         (take (unat payload_size) (drop BRIDGE_MANAGEMENT_HEADER_SIZE bytes))\<rparr>)"

text \<open>The body of the decoder's loop behind its overflow guard: one byte is stored.\<close>

definition message_store :: "BridgeMessageDecoder \<Rightarrow> u8 \<Rightarrow> BridgeMessageDecoder" where
  "message_store d byte =
     d\<lparr>md_bytes := (md_bytes d)[md_used d := byte], md_used := md_used d + 1\<rparr>"

definition message_finish :: "BridgeMessageDecoder \<Rightarrow>
    BridgeMessageDecodeResult \<times> BridgeMessageDecoder" where
  "message_finish d =
     (if md_expected d > 0 \<and> md_used d = md_expected d
      then (BridgeDecodeReady (message_of (md_bytes d)), bridge_message_decoder_reset)
      else (BridgeDecodeNeedMore, d))"

definition message_decoder_byte :: "BridgeMessageDecoder \<Rightarrow> u8 \<Rightarrow>
    BridgeMessageDecodeResult \<times> BridgeMessageDecoder" where
  "message_decoder_byte decoder byte =
     (let d = message_store decoder byte in
      if md_used d = BRIDGE_MANAGEMENT_HEADER_SIZE then
        case header_refused (md_bytes d) of
          Some refusal \<Rightarrow> (refusal, bridge_message_decoder_reset)
        | None \<Rightarrow> message_finish (d\<lparr>md_expected :=
              BRIDGE_MANAGEMENT_HEADER_SIZE + unat (read_u16_le (drop 12 (md_bytes d)))\<rparr>)
      else message_finish d)"

text \<open>The loop: the verdict, the number of bytes consumed and the decoder.\<close>

fun bridge_message_decoder_push :: "BridgeMessageDecoder \<Rightarrow> u8 list \<Rightarrow>
    BridgeMessageDecodeResult \<times> nat \<times> BridgeMessageDecoder" where
  "bridge_message_decoder_push d [] = (BridgeDecodeNeedMore, 0, d)"
| "bridge_message_decoder_push d (byte # bytes) =
     (if md_used d \<ge> message_decoder_capacity
      then (BridgeDecodeTooLarge, 0, bridge_message_decoder_reset)
      else
        case message_decoder_byte d byte of
          (BridgeDecodeNeedMore, d') \<Rightarrow>
            (case bridge_message_decoder_push d' bytes of
               (verdict, consumed, d'') \<Rightarrow> (verdict, consumed + 1, d''))
        | (verdict, d') \<Rightarrow> (verdict, 1, d'))"

section \<open>The decoder refined to a prefix\<close>

definition message_length :: "u8 list \<Rightarrow> nat" where
  "message_length bytes =
     BRIDGE_MANAGEMENT_HEADER_SIZE + unat (read_u16_le (drop 12 bytes))"

definition message_prefix :: "u8 list \<Rightarrow> bool" where
  "message_prefix p =
     (length p < BRIDGE_MANAGEMENT_HEADER_SIZE \<or>
      header_refused p = None \<and> length p < message_length p)"

definition wire_message_push :: "u8 list \<Rightarrow> u8 \<Rightarrow> BridgeMessageDecodeResult \<times> u8 list" where
  "wire_message_push p byte =
     (let bytes = p @ [byte] in
      if length bytes < BRIDGE_MANAGEMENT_HEADER_SIZE then (BridgeDecodeNeedMore, bytes)
      else
        case (if length bytes = BRIDGE_MANAGEMENT_HEADER_SIZE then header_refused bytes
              else None) of
          Some refusal \<Rightarrow> (refusal, [])
        | None \<Rightarrow>
            if length bytes = message_length bytes
            then (BridgeDecodeReady (message_of bytes), [])
            else (BridgeDecodeNeedMore, bytes))"

definition message_holds :: "BridgeMessageDecoder \<Rightarrow> u8 list \<Rightarrow> bool" where
  "message_holds d p =
     (length (md_bytes d) = message_decoder_capacity \<and>
      md_used d = length p \<and>
      take (length p) (md_bytes d) = p \<and>
      md_expected d =
        (if length p < BRIDGE_MANAGEMENT_HEADER_SIZE then 0 else message_length p) \<and>
      message_prefix p \<and>
      (p = [] \<longrightarrow> d = bridge_message_decoder_reset))"

lemma message_holds_reset [simp]: "message_holds d [] \<longleftrightarrow> d = bridge_message_decoder_reset"
  by (auto simp: message_holds_def bridge_message_decoder_reset_def message_prefix_def)

lemma message_length_append:
  "14 \<le> length p \<Longrightarrow> message_length (p @ q) = message_length p"
  by (simp add: message_length_def read_u16_le_append)

lemma header_refused_append:
  "14 \<le> length p \<Longrightarrow> header_refused (p @ q) = header_refused p"
  by (simp add: header_refused_def nth_append read_u16_le_append)

lemma message_of_append:
  "message_length p \<le> length p \<Longrightarrow> message_of (p @ q) = message_of p"
  by (simp add: message_of_def message_length_def nth_append read_u16_le_append
      read_u32_le_append)

lemma header_accepted_length:
  "header_refused p = None \<Longrightarrow> message_length p \<le> message_decoder_capacity"
  by (auto simp: header_refused_def message_length_def split: if_splits)

lemma message_length_ge: "14 \<le> message_length p"
  by (simp add: message_length_def)

lemma header_refusal_definite [simp]: "header_refused p \<noteq> Some BridgeDecodeNeedMore"
  by (simp add: header_refused_def)

lemma message_holds_room: "message_holds d p \<Longrightarrow> md_used d < message_decoder_capacity"
  using header_accepted_length [of p] by (auto simp: message_holds_def message_prefix_def)

lemma message_store_holds:
  assumes "message_holds d p"
  shows "length (md_bytes (message_store d byte)) = message_decoder_capacity"
    and "md_used (message_store d byte) = length (p @ [byte])"
    and "take (length (p @ [byte])) (md_bytes (message_store d byte)) = p @ [byte]"
    and "md_expected (message_store d byte) = md_expected d"
  using assms message_holds_room [OF assms]
  by (simp_all add: message_store_def message_holds_def take_update_used)

text \<open>A byte after the header: the length is known, and it completes the message or not.\<close>

lemma message_finish_refines:
  assumes "length (md_bytes e) = message_decoder_capacity" and "md_used e = length xs"
    and tk: "take (length xs) (md_bytes e) = xs" and "md_expected e = message_length xs"
    and "14 \<le> length xs" and "length xs \<le> message_length xs" and "header_refused xs = None"
  shows "message_finish e =
      (if length xs = message_length xs
       then (BridgeDecodeReady (message_of xs), bridge_message_decoder_reset)
       else (BridgeDecodeNeedMore, e))"
    and "length xs \<noteq> message_length xs \<Longrightarrow> message_holds e xs"
proof -
  obtain rest where "md_bytes e = xs @ rest" using prefix_of_take [OF tk] by blast
  with assms show "message_finish e =
      (if length xs = message_length xs
       then (BridgeDecodeReady (message_of xs), bridge_message_decoder_reset)
       else (BridgeDecodeNeedMore, e))"
    by (auto simp: message_finish_def message_of_append bridge_message_decoder_reset_def)
  show "length xs \<noteq> message_length xs \<Longrightarrow> message_holds e xs"
    using assms by (auto simp: message_holds_def message_prefix_def)
qed

lemma message_decoder_byte_cases:
  assumes "message_holds d p" and xs: "xs = p @ [byte]"
  shows "message_decoder_byte d byte =
      (let e = message_store d byte in
       if length xs = 14 then
         case header_refused xs of
           Some refusal \<Rightarrow> (refusal, bridge_message_decoder_reset)
         | None \<Rightarrow> message_finish (e\<lparr>md_expected := message_length xs\<rparr>)
       else message_finish e)"
proof -
  note stored = message_store_holds [OF assms(1), of byte, folded xs]
  obtain rest where "md_bytes (message_store d byte) = xs @ rest"
    using prefix_of_take [OF stored(3)] by blast
  with stored(2) show ?thesis
    using message_length_append [of xs rest] header_refused_append [of xs rest]
    by (simp add: message_decoder_byte_def Let_def message_length_def split: option.split)
qed

lemma message_byte_refines_wire:
  assumes "message_holds d p"
  obtains d' where "message_decoder_byte d byte = (fst (wire_message_push p byte), d')"
    and "message_holds d' (snd (wire_message_push p byte))"
proof -
  define e where "e = message_store d byte"
  define xs where "xs = p @ [byte]"
  note stored = message_store_holds [OF assms, of byte, folded xs_def e_def]
  note byte = message_decoder_byte_cases [OF assms xs_def, folded e_def, unfolded Let_def]
  note wire = wire_message_push_def [of p byte, folded xs_def, unfolded Let_def]
  consider "length xs < 14" | r where "length xs = 14" "header_refused xs = Some r"
    | "length xs = 14" "header_refused xs = None" | "14 < length xs"
    by (metis linorder_neqE_nat not_None_eq)
  then show thesis
  proof cases
    case 1
    with assms have "md_expected e = 0" by (simp add: stored(4) message_holds_def xs_def)
    with 1 stored show thesis
      by (intro that [of e])
         (auto simp: byte wire message_finish_def message_holds_def message_prefix_def xs_def)
  next
    case (2 r)
    then show thesis
      by (intro that [of bridge_message_decoder_reset]) (simp_all add: byte wire)
  next
    case 3
    with stored message_length_ge [of xs]
      message_finish_refines [of "e\<lparr>md_expected := message_length xs\<rparr>" xs]
    show thesis by (intro that [of "snd (message_decoder_byte d byte)"]) (auto simp: byte wire)
  next
    case 4
    with assms have "md_expected e = message_length xs" "header_refused xs = None"
      "length xs \<le> message_length xs"
      by (auto simp: stored(4) message_holds_def message_prefix_def xs_def message_length_append
          header_refused_append)
    with 4 stored message_finish_refines [of e xs] show thesis
      by (intro that [of "snd (message_decoder_byte d byte)"]) (auto simp: byte wire)
  qed
qed

interpretation message_wire: decoder_refinement message_decoder_byte wire_message_push
  BridgeDecodeNeedMore message_holds
  by unfold_locales (metis message_byte_refines_wire)

section \<open>Feeding bytes\<close>

definition complete_message :: "u8 list \<Rightarrow> bool" where
  "complete_message bytes =
     (BRIDGE_MANAGEMENT_HEADER_SIZE \<le> length bytes \<and> header_refused bytes = None \<and>
      length bytes = message_length bytes)"

lemma message_prefix_grows:
  assumes "wire_message_push p b = (BridgeDecodeNeedMore, q)" and "message_prefix p"
  shows "q = p @ [b] \<and> message_prefix q"
proof -
  have "q = p @ [b]"
    using assms(1) by (auto simp: wire_message_push_def Let_def split: if_splits option.splits)
  moreover have "message_prefix (p @ [b])"
    using assms message_length_append [of p "[b]"] header_refused_append [of p "[b]"]
      message_length_ge [of "p @ [b]"]
    by (auto simp: wire_message_push_def message_prefix_def Let_def
        split: if_splits option.splits)
  ultimately show ?thesis by simp
qed

lemma wire_message_ready:
  assumes "wire_message_push p b = (BridgeDecodeReady m, q)" and "message_prefix p"
  shows "complete_message (p @ [b]) \<and> m = message_of (p @ [b]) \<and> q = []"
  using assms header_refused_append [of p "[b]"]
  by (auto simp: wire_message_push_def message_prefix_def complete_message_def Let_def
      header_refused_def split: if_splits option.splits)

lemma wire_message_complete:
  assumes "complete_message (p @ q)" and "q \<noteq> []"
  shows "decoder_feed wire_message_push BridgeDecodeNeedMore p q =
           ([BridgeDecodeReady (message_of (p @ q))], [])"
  using assms
proof (induction q arbitrary: p)
  case (Cons b q)
  show ?case
  proof (cases q)
    case Nil
    with Cons.prems show ?thesis
      by (auto simp: wire_message_push_def complete_message_def Let_def)
  next
    case (Cons c q')
    have "length (p @ [b]) < 14 \<or>
          header_refused (p @ [b]) = None \<and> length (p @ [b]) < message_length (p @ [b])"
    proof (cases "14 \<le> length (p @ [b])")
      case True
      then show ?thesis
        using Cons.prems(1) Cons message_length_append [OF True, of q]
          header_refused_append [OF True, of q]
        by (simp add: complete_message_def)
    qed simp
    then have "wire_message_push p b = (BridgeDecodeNeedMore, p @ [b])"
      by (auto simp: wire_message_push_def Let_def)
    with Cons.IH [of "p @ [b]"] Cons.prems(1) Cons show ?thesis by simp
  qed
qed simp

lemma wire_message_silent:
  assumes "decoder_feed wire_message_push BridgeDecodeNeedMore p bs = ([], q)"
    and "message_prefix p"
  shows "q = p @ bs"
  using assms
proof (induction bs arbitrary: p)
  case (Cons b bs)
  then obtain p' where "wire_message_push p b = (BridgeDecodeNeedMore, p')"
    and "decoder_feed wire_message_push BridgeDecodeNeedMore p' bs = ([], q)"
    by (auto simp: Let_def split: prod.splits if_splits)
  with Cons.IH message_prefix_grows [OF _ Cons.prems(2)] show ?case by fastforce
qed simp

lemma wire_message_feed_ready:
  assumes "decoder_feed wire_message_push BridgeDecodeNeedMore p bs = ([BridgeDecodeReady m], [])"
    and "message_prefix p"
  shows "complete_message (p @ bs) \<and> m = message_of (p @ bs)"
  using assms
proof (induction bs arbitrary: p)
  case (Cons b bs)
  obtain v p' where push: "wire_message_push p b = (v, p')" by fastforce
  show ?case
  proof (cases "v = BridgeDecodeNeedMore")
    case True
    with Cons.prems push have
      "decoder_feed wire_message_push BridgeDecodeNeedMore p' bs = ([BridgeDecodeReady m], [])"
      by (auto simp: Let_def split: prod.splits)
    with Cons.IH message_prefix_grows [of p b p'] True push Cons.prems(2) show ?thesis
      by fastforce
  next
    case False
    with Cons.prems push have "v = BridgeDecodeReady m"
      and rest: "decoder_feed wire_message_push BridgeDecodeNeedMore p' bs = ([], [])"
      by (auto simp: Let_def split: prod.splits if_splits)
    with push wire_message_ready [of p b m p'] Cons.prems(2) wire_message_silent [OF rest]
    show ?thesis by (auto simp: message_prefix_def)
  qed
qed simp

section \<open>Encoder and decoder agree\<close>

text \<open>A message as the decoder produces it.\<close>

definition canonical_message :: "BridgeMessage \<Rightarrow> bool" where
  "canonical_message m =
     (unat (msg_payload_size m) \<le> BRIDGE_MANAGEMENT_MAX_PAYLOAD \<and>
      \<not> reserved_flags (msg_flags m) \<and>
      msg_payload m = payload_array (take (unat (msg_payload_size m)) (msg_payload m)))"

lemma reserved_flags_iff: "reserved_flags f \<longleftrightarrow> f \<noteq> 0 \<and> f \<noteq> 1"
proof -
  have "f = 0 \<or> f = 1" if "f AND NOT 1 = 0"
  proof -
    have "f = f AND 1" using that by (metis and.commute bit.conj_cancel_right
      bit.conj_disj_distrib bit.disj_cancel_right bit.conj_one_right bit.disj_zero_right)
    then show ?thesis by (metis and_one_eq mod2_eq_if)
  qed
  then show ?thesis by (auto simp: reserved_flags_def)
qed

lemma magic_bytes: "BRIDGE_MANAGEMENT_MAGIC = [0x46, 0x42, 0x52, 0x47]"
  by (simp add: BRIDGE_MANAGEMENT_MAGIC_def ascii_def)

lemma status_of_code [simp]: "status_of (status_code s) = s"
  by (cases s) (simp_all add: status_of_def)

lemma status_code_le [simp]: "\<not> 7 < status_code s"
  by (cases s) simp_all

lemma status_code_of: "c \<le> 7 \<Longrightarrow> status_code (status_of c) = c"
proof -
  assume "c \<le> 7"
  then have "c = 0 \<or> c = 1 \<or> c = 2 \<or> c = 3 \<or> c = 4 \<or> c = 5 \<or> c = 6 \<or> c = 7"
    by unat_arith
  then show ?thesis by (auto simp: status_of_def)
qed

lemma length_payload_array: "length bytes \<le> 512 \<Longrightarrow> length (payload_array bytes) = 512"
  by (simp add: payload_array_def)

lemma canonical_payload:
  assumes "canonical_message m"
  shows "length (msg_payload m) = 512"
proof -
  from assms have "msg_payload m = payload_array (take (unat (msg_payload_size m)) (msg_payload m))"
    and "unat (msg_payload_size m) \<le> 512" by (simp_all add: canonical_message_def)
  then show ?thesis by (metis length_payload_array length_take min.cobounded2 min.coboundedI2)
qed

text \<open>The fields at their offsets.\<close>

lemma message_bytes_fields:
  "take 4 (message_bytes m) = BRIDGE_MANAGEMENT_MAGIC"
  "message_bytes m ! 4 = msg_version m"
  "message_bytes m ! 5 = msg_command m"
  "message_bytes m ! 6 = msg_flags m"
  "message_bytes m ! 7 = status_code (msg_status m)"
  "read_u32_le (drop 8 (message_bytes m)) = msg_request_id m"
  "read_u16_le (drop 12 (message_bytes m)) = msg_payload_size m"
  "drop 14 (message_bytes m) = take (unat (msg_payload_size m)) (msg_payload m)"
  by (simp_all add: message_bytes_def magic_bytes)

lemma length_message_bytes:
  "unat (msg_payload_size m) \<le> length (msg_payload m) \<Longrightarrow>
     length (message_bytes m) = 14 + unat (msg_payload_size m)"
  by (simp add: message_bytes_def magic_bytes)

lemma message_bytes_complete:
  assumes "canonical_message m"
  shows "complete_message (message_bytes m) \<and> message_of (message_bytes m) = m"
proof
  have "unat (msg_payload_size m) \<le> 512" and pad: "msg_payload m =
      payload_array (take (unat (msg_payload_size m)) (msg_payload m))"
    using assms by (simp_all add: canonical_message_def)
  with canonical_payload [OF assms] assms show "complete_message (message_bytes m)"
    by (simp add: complete_message_def header_refused_def message_length_def
        message_bytes_fields length_message_bytes canonical_message_def)
  show "message_of (message_bytes m) = m"
    using pad by (simp add: message_of_def message_bytes_fields)
qed

lemma header_accepted:
  "header_refused bs = None \<longleftrightarrow>
     take 4 bs = BRIDGE_MANAGEMENT_MAGIC \<and> \<not> reserved_flags (bs ! 6) \<and> bs ! 7 \<le> 7 \<and>
     unat (read_u16_le (drop 12 bs)) \<le> 512"
  by (simp add: header_refused_def not_less not_le)

lemma header_bytes:
  "14 \<le> length bs \<Longrightarrow> \<exists>b0 b1 b2 b3 b4 b5 b6 b7 b8 b9 b10 b11 b12 b13 rest.
     bs = [b0, b1, b2, b3, b4, b5, b6, b7] @ [b8, b9, b10, b11] @ [b12, b13] @ rest"
  by (auto simp: numeral_eq_Suc Suc_le_length_iff)

lemma complete_message_bytes:
  assumes "complete_message bs"
  shows "bs = message_bytes (message_of bs) \<and> canonical_message (message_of bs)"
proof
  define n where "n = unat (read_u16_le (drop 12 bs))"
  have hd: "take 4 bs = BRIDGE_MANAGEMENT_MAGIC" "\<not> reserved_flags (bs ! 6)" "bs ! 7 \<le> 7" "n \<le> 512"
    and len: "length bs = 14 + n"
    using assms unfolding complete_message_def header_accepted message_length_def n_def
      BRIDGE_MANAGEMENT_HEADER_SIZE_def by blast+
  from len have "14 \<le> length bs" by simp
  from header_bytes [OF this] obtain b0 b1 b2 b3 b4 b5 b6 b7 b8 b9 b10 b11 b12 b13 rest where
    bs: "bs = [b0, b1, b2, b3, b4, b5, b6, b7] @ [b8, b9, b10, b11] @ [b12, b13] @ rest"
    by blast
  have r32: "read_u32_le (drop 8 bs) = read_u32_le [b8, b9, b10, b11]"
    and r16: "read_u16_le (drop 12 bs) = read_u16_le [b12, b13]"
    using read_u32_le_append [of "[b8, b9, b10, b11]" "[b12, b13] @ rest"]
      read_u16_le_append [of "[b12, b13]" rest]
    by (simp_all add: bs)
  have "message_bytes (message_of bs) =
      BRIDGE_MANAGEMENT_MAGIC @ [bs ! 4, bs ! 5, bs ! 6, status_code (status_of (bs ! 7))] @
      write_u32_le (read_u32_le (drop 8 bs)) @ write_u16_le (read_u16_le (drop 12 bs)) @
      take n (payload_array (take n (drop 14 bs)))"
    by (simp add: message_bytes_def message_of_def Let_def n_def [symmetric])
  also have "\<dots> = take 4 bs @ [bs ! 4, bs ! 5, bs ! 6, bs ! 7] @
      [b8, b9, b10, b11] @ [b12, b13] @ drop 14 bs"
    using hd len
    by (simp only: r32 r16 write_read_u32_le write_read_u16_le status_code_of)
       (simp add: payload_array_def)
  also have "\<dots> = bs" by (simp add: bs)
  finally show "bs = message_bytes (message_of bs)" by simp
  show "canonical_message (message_of bs)"
    using hd len
    by (simp add: canonical_message_def message_of_def Let_def n_def [symmetric]
        payload_array_def)
qed

lemma feed_message_bytes:
  "canonical_message m \<Longrightarrow>
     decoder_feed message_decoder_byte BridgeDecodeNeedMore bridge_message_decoder_reset
       (message_bytes m) = ([BridgeDecodeReady m], bridge_message_decoder_reset)"
  using message_bytes_complete [of m] wire_message_complete [of "[]" "message_bytes m"]
    message_wire.feed_refines [of bridge_message_decoder_reset "[]" "message_bytes m"]
  by (fastforce simp: complete_message_def)

lemma message_verdict_resets:
  "message_decoder_byte d b = (v, d') \<Longrightarrow> v \<noteq> BridgeDecodeNeedMore \<Longrightarrow>
     d' = bridge_message_decoder_reset"
  by (auto simp: message_decoder_byte_def message_finish_def Let_def
      split: if_splits option.splits)

definition encoded_message :: "BridgeMessage \<Rightarrow> u8 list" where
  "encoded_message m = the (bridge_message_encode m message_decoder_capacity)"

definition sendable_message :: "BridgeMessage \<Rightarrow> bool" where
  "sendable_message m =
     (canonical_message m \<and> bridge_message_encode m message_decoder_capacity \<noteq> None)"

lemma encode_message_bytes:
  "bridge_message_encode m capacity = Some bs \<Longrightarrow> bs = message_bytes m"
  by (auto simp: bridge_message_encode_def Let_def split: if_splits)

lemma encoded_message_bytes:
  "sendable_message m \<Longrightarrow> encoded_message m = message_bytes m \<and> canonical_message m"
  by (auto simp: sendable_message_def encoded_message_def dest: encode_message_bytes)

interpretation management: framed_decoder message_decoder_byte BridgeDecodeNeedMore
  bridge_message_decoder_reset encoded_message sendable_message BridgeDecodeReady
  by unfold_locales
     (auto dest: message_verdict_resets encoded_message_bytes simp: feed_message_bytes)

section \<open>The decoder on segments\<close>

lemma push_of_feed:
  assumes "decoder_feed message_decoder_byte BridgeDecodeNeedMore d bs =
             ([v], bridge_message_decoder_reset)"
    and "message_holds d p"
  shows "bridge_message_decoder_push d (bs @ rest) =
           (v, length bs, bridge_message_decoder_reset)"
  using assms
proof (induction bs arbitrary: d p)
  case (Cons b bs)
  obtain w d1 where byte: "message_decoder_byte d b = (w, d1)" by fastforce
  with message_wire.push_refines [OF Cons.prems(2), of b] obtain p1 where
    p1: "message_holds d1 p1" by auto
  have room: "\<not> message_decoder_capacity \<le> md_used d"
    using message_holds_room [OF Cons.prems(2)] by simp
  show ?case
  proof (cases "w = BridgeDecodeNeedMore")
    case True
    with Cons byte p1 room show ?thesis by (auto simp: Let_def split: prod.splits)
  next
    case False
    with Cons.prems byte message_verdict_resets [OF byte] have "w = v"
      and d1: "d1 = bridge_message_decoder_reset"
      and rest: "decoder_feed message_decoder_byte BridgeDecodeNeedMore
                   bridge_message_decoder_reset bs = ([], bridge_message_decoder_reset)"
      by (auto simp: Let_def split: prod.splits if_splits)
    obtain vs q where w: "decoder_feed wire_message_push BridgeDecodeNeedMore [] bs = (vs, q)"
      by fastforce
    with message_wire.feed_refines [OF _ w, of bridge_message_decoder_reset] rest
    have "vs = []" and "message_holds bridge_message_decoder_reset q" by auto
    then have "q = []" by (auto simp: message_holds_def bridge_message_decoder_reset_def)
    with wire_message_silent [of "[]" bs q] w \<open>vs = []\<close> have "bs = []"
      by (simp add: message_prefix_def)
    with False byte room \<open>w = v\<close> d1 show ?thesis
      by (cases v) auto
  qed
qed simp

lemma feed_of_push:
  assumes "bridge_message_decoder_push d bs = (v, n, d')" and "message_holds d p"
  shows "n \<le> length bs \<and>
    decoder_feed message_decoder_byte BridgeDecodeNeedMore d (take n bs) =
      ((if v = BridgeDecodeNeedMore then [] else [v]), d') \<and>
    (v = BridgeDecodeNeedMore \<longrightarrow> n = length bs) \<and>
    (v \<noteq> BridgeDecodeNeedMore \<longrightarrow> d' = bridge_message_decoder_reset \<and> 0 < n) \<and>
    (\<exists>p'. message_holds d' p')"
  using assms
proof (induction bs arbitrary: d p v n d')
  case (Cons b bs)
  obtain w d1 where byte: "message_decoder_byte d b = (w, d1)" by fastforce
  with message_wire.push_refines [OF Cons.prems(2), of b] obtain p1 where
    p1: "message_holds d1 p1" by auto
  have room: "\<not> message_decoder_capacity \<le> md_used d"
    using message_holds_room [OF Cons.prems(2)] by simp
  show ?case
  proof (cases "w = BridgeDecodeNeedMore")
    case True
    obtain n' where "bridge_message_decoder_push d1 bs = (v, n', d')" and "n = Suc n'"
      using Cons.prems(1) byte room True by (auto split: prod.splits)
    with Cons.IH [OF this(1) p1] byte True show ?thesis by auto
  next
    case False
    with Cons.prems byte room p1 message_verdict_resets [OF byte] show ?thesis
      by (cases w) auto
  qed
qed auto

lemma holds_fresh: "message_holds bridge_message_decoder_reset []"
  by simp

text \<open>
  C13. A fresh decoder that is given a TCP segment answers a message exactly when the
  segment starts with the wire image of that message; it then reports the length of the
  image as consumed, leaves everything behind it to the next call, and is fresh again.
\<close>

theorem bridge_message_decode_iff:
  "bridge_message_decoder_push bridge_message_decoder_reset bs = (BridgeDecodeReady m, n, d) \<longleftrightarrow>
   canonical_message m \<and> n = length (message_bytes m) \<and> take n bs = message_bytes m \<and>
   d = bridge_message_decoder_reset"
  (is "?push \<longleftrightarrow> ?image")
proof
  assume ?push
  from feed_of_push [OF this holds_fresh] have "n \<le> length bs"
    and d: "d = bridge_message_decoder_reset"
    and feed: "decoder_feed message_decoder_byte BridgeDecodeNeedMore
      bridge_message_decoder_reset (take n bs) = ([BridgeDecodeReady m], d)"
    by auto
  obtain vs q where w: "decoder_feed wire_message_push BridgeDecodeNeedMore [] (take n bs) = (vs, q)"
    by fastforce
  with message_wire.feed_refines [OF holds_fresh w] feed have "vs = [BridgeDecodeReady m]"
    and "message_holds bridge_message_decoder_reset q" by (auto simp: d)
  moreover from this(2) have "q = []"
    by (auto simp: message_holds_def bridge_message_decoder_reset_def)
  ultimately have "complete_message (take n bs) \<and> m = message_of (take n bs)"
    using wire_message_feed_ready [of "[]" "take n bs" m] w by (simp add: message_prefix_def)
  then have "take n bs = message_bytes m \<and> canonical_message m"
    using complete_message_bytes by blast
  with d \<open>n \<le> length bs\<close> show ?image by (metis length_take min.absorb2)
next
  assume image: ?image
  then have "bs = message_bytes m @ drop n bs" by (metis append_take_drop_id)
  with push_of_feed [OF feed_message_bytes holds_fresh, of m "drop n bs"] image show ?push
    by simp
qed

text \<open>
  C30. Decoding does not depend on TCP segmentation: pushing two segments one after the
  other gives the same verdict, the same decoder and the same number of consumed bytes as
  pushing them as one, and a verdict reached in the first segment is not changed by what
  follows it.
\<close>

theorem message_push_segments:
  "bridge_message_decoder_push d (first @ second) =
     (case bridge_message_decoder_push d first of
        (BridgeDecodeNeedMore, n, d') \<Rightarrow>
          (case bridge_message_decoder_push d' second of (v, n', d'') \<Rightarrow> (v, n + n', d''))
      | definite \<Rightarrow> definite)"
proof (induction first arbitrary: d)
  case (Cons b first)
  then show ?case
    by (auto split: prod.splits BridgeMessageDecodeResult.splits)
qed (simp split: prod.splits)

text \<open>
  A bad header is refused as soon as it is complete, before any payload is buffered:
  when the first 14 bytes fail the check of magic, flags or status, or declare a payload
  above 512 bytes, exactly these 14 bytes are consumed and the decoder is fresh again.
\<close>

theorem message_header_refused:
  assumes "header_refused (take 14 bs) = Some refusal" and "14 \<le> length bs"
  shows "bridge_message_decoder_push bridge_message_decoder_reset bs =
           (refusal, 14, bridge_message_decoder_reset)"
proof -
  have feed: "decoder_feed wire_message_push BridgeDecodeNeedMore p q = ([refusal], [])"
    if "header_refused (p @ q) = Some refusal" "length (p @ q) = 14" "q \<noteq> []" for p q
    using that
  proof (induction q arbitrary: p)
    case (Cons b q)
    then show ?case
    proof (cases q)
      case Nil
      with Cons.prems show ?thesis by (auto simp: wire_message_push_def)
    next
      case (Cons c q')
      with Cons.prems have "wire_message_push p b = (BridgeDecodeNeedMore, p @ [b])"
        by (simp add: wire_message_push_def)
      with Cons.IH [of "p @ [b]"] Cons.prems Cons show ?thesis by simp
    qed
  qed simp
  from assms(2) have "bs \<noteq> []" by auto
  then have "decoder_feed wire_message_push BridgeDecodeNeedMore [] (take 14 bs) = ([refusal], [])"
    using feed [of "[]" "take 14 bs"] assms by simp
  then have "decoder_feed message_decoder_byte BridgeDecodeNeedMore bridge_message_decoder_reset
      (take 14 bs) = ([refusal], bridge_message_decoder_reset)"
    using message_wire.feed_refines [OF holds_fresh] by force
  from push_of_feed [OF this holds_fresh, of "drop 14 bs"] assms(2) show ?thesis by simp
qed

theorem message_header_refused_witness:
  "bridge_message_decoder_push bridge_message_decoder_reset
     [0x46, 0x42, 0x52, 0x47, 1, 7, 0, 0, 1, 0, 0, 0, 0xFF, 0x7F, 9, 9] =
     (BridgeDecodeTooLarge, 14, bridge_message_decoder_reset)"
  by (rule message_header_refused)
     (simp_all add: header_refused_def magic_bytes reserved_flags_def read_u16_le_def)

text \<open>
  Messages survive the wire: any segmentation of the concatenated encodings of
  messages that can be encoded decodes to exactly these messages, in order, and leaves the
  decoder fresh.
\<close>

theorem management_stream_segmentation:
  assumes "list_all sendable_message ms"
    and "concat segments = concat (map encoded_message ms)"
  shows "foldl (\<lambda>(vs, d) seg.
             let (ws, d') = decoder_feed message_decoder_byte BridgeDecodeNeedMore d seg
             in (vs @ ws, d')) ([], bridge_message_decoder_reset) segments =
         (map BridgeDecodeReady ms, bridge_message_decoder_reset)"
  by (rule management.segmented_stream_decodes [OF assms])

definition example_ping :: BridgeMessage where
  "example_ping =
     \<lparr>msg_version = 1, msg_command = BridgeCommandPing, msg_flags = 0,
      msg_status = BridgeStatusOk, msg_request_id = 42, msg_payload_size = 2,
      msg_payload = payload_array [5, 6]\<rparr>"

lemma example_ping_sendable: "sendable_message example_ping"
  by (simp add: example_ping_def sendable_message_def canonical_message_def reserved_flags_iff
      bridge_message_encode_def payload_array_def)

lemma example_ping_encoded: "encoded_message example_ping =
    [0x46, 0x42, 0x52, 0x47, 1, 7, 0, 0, 42, 0, 0, 0, 2, 0, 5, 6]"
  using encoded_message_bytes [OF example_ping_sendable]
  by (simp add: message_bytes_def magic_bytes example_ping_def write_u32_le_def write_u16_le_def
      payload_array_def)

theorem management_stream_segmentation_witness:
  "foldl (\<lambda>(vs, d) seg.
       let (ws, d') = decoder_feed message_decoder_byte BridgeDecodeNeedMore d seg
       in (vs @ ws, d')) ([], bridge_message_decoder_reset)
     [[0x46, 0x42, 0x52], [0x47, 1, 7, 0, 0, 42, 0, 0, 0, 2, 0, 5, 6]] =
   ([BridgeDecodeReady example_ping], bridge_message_decoder_reset)"
  using management_stream_segmentation
    [of "[example_ping]" "[[0x46, 0x42, 0x52], [0x47, 1, 7, 0, 0, 42, 0, 0, 0, 2, 0, 5, 6]]"]
    example_ping_sendable
  by (simp add: example_ping_encoded)

section \<open>Bounds\<close>

definition message_decoder_invariant :: "BridgeMessageDecoder \<Rightarrow> bool" where
  "message_decoder_invariant d = (\<exists>p. message_holds d p)"

lemma message_invariant_reset: "message_decoder_invariant bridge_message_decoder_reset"
  using holds_fresh unfolding message_decoder_invariant_def by blast

lemma message_invariant_push:
  assumes "message_decoder_invariant d"
  shows "message_decoder_invariant (snd (snd (bridge_message_decoder_push d bs)))"
proof -
  obtain v n d' where push: "bridge_message_decoder_push d bs = (v, n, d')"
    by (metis prod_cases3)
  with assms feed_of_push [OF push] show ?thesis
    unfolding message_decoder_invariant_def by auto
qed

interpretation message_decoder: started_machine
  "\<lambda>d bs. snd (snd (bridge_message_decoder_push d bs))" message_decoder_invariant
  bridge_message_decoder_reset
  by unfold_locales (simp_all add: message_invariant_reset message_invariant_push)

lemma message_invariant_bounds:
  assumes "message_decoder_invariant d"
  shows "length (md_bytes d) = message_decoder_capacity \<and>
         md_used d < message_decoder_capacity \<and> md_expected d \<le> message_decoder_capacity"
proof -
  from assms obtain p where p: "message_holds d p" by (auto simp: message_decoder_invariant_def)
  with message_holds_room [OF p] header_accepted_length [of p] show ?thesis
    by (auto simp: message_holds_def message_prefix_def)
qed

lemma message_push_progress:
  assumes "message_decoder_invariant d" and "bs \<noteq> []"
  shows "0 < fst (snd (bridge_message_decoder_push d bs)) \<and>
         fst (snd (bridge_message_decoder_push d bs)) \<le> length bs"
proof -
  obtain v n d' where push: "bridge_message_decoder_push d bs = (v, n, d')"
    by (metis prod_cases3)
  with assms feed_of_push [OF push] show ?thesis
    unfolding message_decoder_invariant_def by (cases "v = BridgeDecodeNeedMore") auto
qed

text \<open>
  C38. Whatever segments arrive, the decoder stays inside its 526-byte buffer, and every
  push of a non-empty segment consumes at least one byte of it and none beyond it; so the
  client loop that pushes the rest of a segment always ends.
\<close>

theorem message_decoder_in_bounds:
  "let d = foldl (\<lambda>d seg. snd (snd (bridge_message_decoder_push d seg)))
             bridge_message_decoder_reset segments
   in length (md_bytes d) = message_decoder_capacity \<and>
      md_used d < message_decoder_capacity \<and>
      (let n = fst (snd (bridge_message_decoder_push d (b # bs)))
       in 0 < n \<and> n \<le> length (b # bs))"
  using message_invariant_bounds [OF message_decoder.inv_reachable [of segments]]
    message_push_progress [OF message_decoder.inv_reachable [of segments], of "b # bs"]
  by (simp add: Let_def)

end
