(* ===== verification/Bridge_Session.thy ===== *)
theory Bridge_Session
  imports Bridge_Message
begin

text \<open>
  The session half of \<open>bridge_session.h\<close> and \<open>bridge_session.c\<close> (its state, the
  authentication material and the constant-time comparison) and \<open>bridge_auth.c\<close>.

  Nonces, session id and HMAC are lists of their fixed array sizes. The HMAC itself is
  mbedTLS code: a parameter that answers its return code and the digest it wrote.
\<close>

section \<open>State\<close>

datatype BridgeSessionState =
    BridgeSessionAwaitingHello
  | BridgeSessionAwaitingAuthentication
  | BridgeSessionAuthenticated
  | BridgeSessionProxying
  | BridgeSessionClosed

record BridgeSession =
  ss_state :: BridgeSessionState
  ss_client_nonce :: "u8 list"
  ss_bridge_nonce :: "u8 list"
  ss_session_id :: "u8 list"

definition bridge_session_init :: "u8 list \<Rightarrow> u8 list \<Rightarrow> BridgeSession" where
  "bridge_session_init bridge_nonce session_id =
     \<lparr>ss_state = BridgeSessionAwaitingHello,
      ss_client_nonce = replicate BRIDGE_NONCE_BYTES 0,
      ss_bridge_nonce = take BRIDGE_NONCE_BYTES bridge_nonce,
      ss_session_id = take BRIDGE_SESSION_ID_BYTES session_id\<rparr>"

definition bridge_session_accept_hello ::
    "BridgeSession \<Rightarrow> u8 list \<Rightarrow> bool \<times> BridgeSession" where
  "bridge_session_accept_hello s client_nonce =
     (if ss_state s \<noteq> BridgeSessionAwaitingHello then (False, s)
      else (True, s\<lparr>ss_client_nonce := take BRIDGE_NONCE_BYTES client_nonce,
                    ss_state := BridgeSessionAwaitingAuthentication\<rparr>))"

definition bridge_session_mark_authenticated :: "BridgeSession \<Rightarrow> bool \<times> BridgeSession" where
  "bridge_session_mark_authenticated s =
     (if ss_state s \<noteq> BridgeSessionAwaitingAuthentication then (False, s)
      else (True, s\<lparr>ss_state := BridgeSessionAuthenticated\<rparr>))"

text \<open>The comparison reads every byte and gathers the differences.\<close>

definition bridge_constant_time_equal :: "u8 list \<Rightarrow> u8 list \<Rightarrow> nat \<Rightarrow> bool" where
  "bridge_constant_time_equal lhs rhs n =
     (foldl (\<lambda>difference i. difference OR (lhs ! i XOR rhs ! i)) 0 [0..<n] = 0)"

definition bridge_session_authenticate ::
    "BridgeSession \<Rightarrow> u8 list \<Rightarrow> u8 list \<Rightarrow> bool \<times> BridgeSession" where
  "bridge_session_authenticate s expected provided =
     (if ss_state s \<noteq> BridgeSessionAwaitingAuthentication \<or>
         \<not> bridge_constant_time_equal expected provided BRIDGE_HMAC_BYTES
      then (False, s)
      else bridge_session_mark_authenticated s)"

definition bridge_session_begin_proxy :: "BridgeSession \<Rightarrow> bool \<times> BridgeSession" where
  "bridge_session_begin_proxy s =
     (if ss_state s \<noteq> BridgeSessionAuthenticated then (False, s)
      else (True, s\<lparr>ss_state := BridgeSessionProxying\<rparr>))"

definition bridge_session_close :: "BridgeSession \<Rightarrow> BridgeSession" where
  "bridge_session_close s =
     s\<lparr>ss_client_nonce := replicate BRIDGE_NONCE_BYTES 0,
       ss_bridge_nonce := replicate BRIDGE_NONCE_BYTES 0,
       ss_session_id := replicate BRIDGE_SESSION_ID_BYTES 0,
       ss_state := BridgeSessionClosed\<rparr>"

definition auth_context :: "u8 list" where
  "auth_context = ascii ''Flipforge Bridge Auth v1''"

text \<open>None where the C function answers 0 because the buffer is too small.\<close>

definition bridge_session_auth_material :: "BridgeSession \<Rightarrow> nat \<Rightarrow> u8 list option" where
  "bridge_session_auth_material s capacity =
     (let required = length auth_context + 1 + BRIDGE_NONCE_BYTES * 2 + BRIDGE_SESSION_ID_BYTES in
      if capacity < required then None
      else Some (auth_context @ [FLIPFORGE_BRIDGE_PROTOCOL_VERSION] @
                 ss_client_nonce s @ ss_bridge_nonce s @ ss_session_id s))"

definition bridge_protocol_version_supported :: "u8 \<Rightarrow> bool" where
  "bridge_protocol_version_supported version = (version = FLIPFORGE_BRIDGE_PROTOCOL_VERSION)"

section \<open>Authentication\<close>

text \<open>
  \<open>mbedtls_md_hmac\<close>: key, message, return code and digest; None for a platform without
  SHA-256 (\<open>mbedtls_md_info_from_type\<close> returning null).
\<close>

type_synonym hmac_function = "(u8 list \<Rightarrow> u8 list \<Rightarrow> int \<times> u8 list) option"

definition bridge_auth_hmac_sha256 ::
    "hmac_function \<Rightarrow> u8 list \<Rightarrow> u8 list \<Rightarrow> esp_err \<times> u8 list" where
  "bridge_auth_hmac_sha256 md secret message =
     (case md of
        None \<Rightarrow> (ESP_FAIL, replicate BRIDGE_HMAC_BYTES 0)
      | Some hmac \<Rightarrow>
          (case hmac secret message of (code, digest) \<Rightarrow>
             (if code = 0 then ESP_OK else ESP_FAIL, digest)))"

section \<open>The comparison\<close>

lemma or_eq_0_iff [simp]: "x OR y = 0 \<longleftrightarrow> x = 0 \<and> y = (0 :: 'a :: len word)"
  by (auto simp: bit_eq_iff bit_simps)

lemma gathered_differences:
  "foldl (\<lambda>difference i. difference OR f i) (d :: u8) is = 0 \<longleftrightarrow> d = 0 \<and> (\<forall>i \<in> set is. f i = 0)"
  by (induction "is" arbitrary: d) auto

lemma constant_time_equal_nth:
  "bridge_constant_time_equal lhs rhs n \<longleftrightarrow> (\<forall>i < n. lhs ! i = rhs ! i)"
  by (auto simp: bridge_constant_time_equal_def gathered_differences)

text \<open>
  The constant-time comparison decides equality of the first \<open>n\<close> bytes: gathering the
  differences by OR neither hides a differing byte nor invents one.
\<close>

theorem constant_time_equal_iff:
  assumes "n \<le> length lhs" and "n \<le> length rhs"
  shows "bridge_constant_time_equal lhs rhs n \<longleftrightarrow> take n lhs = take n rhs"
  using assms
  by (auto simp: constant_time_equal_nth list_eq_iff_nth_eq)

theorem constant_time_equal_iff_witness:
  "bridge_constant_time_equal [1, 2, 3] [1, 2, 4] 2 \<longleftrightarrow> take 2 [1, 2, 3 :: u8] = take 2 [1, 2, 4]"
  by (rule constant_time_equal_iff) simp_all

section \<open>The authentication material\<close>

text \<open>The array sizes of a session.\<close>

definition session_sizes :: "BridgeSession \<Rightarrow> bool" where
  "session_sizes s =
     (length (ss_client_nonce s) = BRIDGE_NONCE_BYTES \<and>
      length (ss_bridge_nonce s) = BRIDGE_NONCE_BYTES \<and>
      length (ss_session_id s) = BRIDGE_SESSION_ID_BYTES)"

lemma length_auth_context [simp]: "length auth_context = 24"
  by (simp add: auth_context_def)

text \<open>
  C36. The HMAC input binds the whole challenge: in the 128-byte buffer of the server the
  material is complete (97 bytes), and two sessions have the same material only if they
  agree on the client nonce, the bridge nonce and the session id. A proof computed for one
  challenge is therefore computed over different bytes than a proof for any other.
\<close>

theorem auth_material_binds_challenge:
  assumes "session_sizes s" and "session_sizes t"
  shows "(\<exists>m. bridge_session_auth_material s 128 = Some m \<and> length m = 97) \<and>
         (bridge_session_auth_material s 128 = bridge_session_auth_material t 128 \<longleftrightarrow>
            ss_client_nonce s = ss_client_nonce t \<and> ss_bridge_nonce s = ss_bridge_nonce t \<and>
            ss_session_id s = ss_session_id t)"
  using assms by (simp add: bridge_session_auth_material_def session_sizes_def)

theorem auth_material_binds_challenge_witness:
  "(\<exists>m. bridge_session_auth_material
          (bridge_session_init (replicate 32 0x11) (replicate 8 0x33)) 128 = Some m \<and>
        length m = 97) \<and>
   (bridge_session_auth_material
      (bridge_session_init (replicate 32 0x11) (replicate 8 0x33)) 128 =
    bridge_session_auth_material
      (bridge_session_init (replicate 32 0xEE) (replicate 8 0x33)) 128 \<longleftrightarrow>
    ss_client_nonce (bridge_session_init (replicate 32 0x11) (replicate 8 0x33)) =
      ss_client_nonce (bridge_session_init (replicate 32 0xEE) (replicate 8 0x33)) \<and>
    ss_bridge_nonce (bridge_session_init (replicate 32 0x11) (replicate 8 0x33)) =
      ss_bridge_nonce (bridge_session_init (replicate 32 0xEE) (replicate 8 0x33)) \<and>
    ss_session_id (bridge_session_init (replicate 32 0x11) (replicate 8 0x33)) =
      ss_session_id (bridge_session_init (replicate 32 0xEE) (replicate 8 0x33)))"
  by (rule auth_material_binds_challenge)
     (simp_all add: session_sizes_def bridge_session_init_def)

section \<open>The session as a machine\<close>

datatype session_call =
    AcceptHello "u8 list"
  | Authenticate "u8 list" "u8 list"
  | BeginProxy
  | CloseSession

fun session_step :: "BridgeSession \<Rightarrow> session_call \<Rightarrow> bool \<times> BridgeSession" where
  "session_step s (AcceptHello nonce) = bridge_session_accept_hello s nonce"
| "session_step s (Authenticate expected provided) =
     bridge_session_authenticate s expected provided"
| "session_step s BeginProxy = bridge_session_begin_proxy s"
| "session_step s CloseSession = (True, bridge_session_close s)"

text \<open>The calls that succeeded, latest first, and the session they lead to.\<close>

fun session_run :: "BridgeSession \<Rightarrow> session_call list \<Rightarrow> session_call list \<times> BridgeSession" where
  "session_run s [] = ([], s)"
| "session_run s (c # cs) =
     (case session_run s cs of (done, s') \<Rightarrow>
        case session_step s' c of (ok, s'') \<Rightarrow> (if ok then c # done else done, s''))"

text \<open>What the successful calls must have been for the session to be in its state.\<close>

fun session_history :: "BridgeSessionState \<Rightarrow> session_call list \<Rightarrow> bool" where
  "session_history BridgeSessionAwaitingHello done = (done = [])"
| "session_history BridgeSessionAwaitingAuthentication done = (\<exists>n. done = [AcceptHello n])"
| "session_history BridgeSessionAuthenticated done =
     (\<exists>n e p. done = [Authenticate e p, AcceptHello n] \<and>
        bridge_constant_time_equal e p BRIDGE_HMAC_BYTES)"
| "session_history BridgeSessionProxying done =
     (\<exists>n e p. done = [BeginProxy, Authenticate e p, AcceptHello n] \<and>
        bridge_constant_time_equal e p BRIDGE_HMAC_BYTES)"
| "session_history BridgeSessionClosed done = (CloseSession \<in> set done)"

lemmas session_defs = bridge_session_accept_hello_def bridge_session_authenticate_def
  bridge_session_mark_authenticated_def bridge_session_begin_proxy_def bridge_session_close_def

lemma session_history_step:
  assumes "session_history (ss_state s) done" and "session_step s c = (ok, s')"
  shows "session_history (ss_state s') (if ok then c # done else done)"
  using assms
  by (cases c; cases "ss_state s") (auto simp: session_defs split: if_splits)

lemma session_run_history:
  assumes "session_run (bridge_session_init bn sid) cs = (done, s)"
  shows "session_history (ss_state s) done"
  using assms
proof (induction cs arbitrary: "done" s)
  case (Cons c cs)
  obtain d1 s1 ok s2 where "session_run (bridge_session_init bn sid) cs = (d1, s1)"
    and "session_step s1 c = (ok, s2)" by fastforce
  with Cons session_history_step [of s1 d1 c ok s2] show ?case by auto
qed (auto simp: bridge_session_init_def)

text \<open>
  No session reaches the proxy without authentication: whatever sequence of calls is
  made on a fresh session, it is in the proxying state only if the calls that succeeded
  are exactly one hello, then one authentication whose two digests agree on all 32 bytes,
  then one begin; in particular a second hello, a second authentication or a begin out of
  order has no effect.
\<close>

theorem proxying_requires_authentication:
  assumes "session_run (bridge_session_init bridge_nonce session_id) calls = (done, s)"
    and "ss_state s = BridgeSessionProxying"
  shows "\<exists>nonce expected provided.
           done = [BeginProxy, Authenticate expected provided, AcceptHello nonce] \<and>
           bridge_constant_time_equal expected provided BRIDGE_HMAC_BYTES"
  using session_run_history [OF assms(1)] assms(2) by simp

theorem proxying_requires_authentication_witness:
  "\<exists>nonce expected provided.
     [BeginProxy, Authenticate (replicate 32 5) (replicate 32 5), AcceptHello (replicate 32 7)] =
       [BeginProxy, Authenticate expected provided, AcceptHello nonce] \<and>
     bridge_constant_time_equal expected provided BRIDGE_HMAC_BYTES"
  by (rule proxying_requires_authentication [where bridge_nonce = "replicate 32 1"
        and session_id = "replicate 8 2" and s = "\<lparr>ss_state = BridgeSessionProxying,
          ss_client_nonce = replicate 32 7, ss_bridge_nonce = replicate 32 1,
          ss_session_id = replicate 8 2\<rparr>"
        and calls = "[BeginProxy, BeginProxy, Authenticate (replicate 32 5) (replicate 32 5),
          AcceptHello (replicate 32 7)]"])
     (simp_all add: session_defs bridge_session_init_def constant_time_equal_nth)

end
