(* ===== verification/Bridge_Network.thy ===== *)
theory Bridge_Network
  imports Expansion_Transport Bridge_Session
begin

text \<open>
  The sockets and the other platform calls of \<open>rpc_proxy.c\<close> and \<open>bridge_server.c\<close>, and
  \<open>socket_write\<close> and \<open>send_all\<close>, which both files hold as static functions.

  A task that uses a socket keeps, next to the shared state, two logs: the bytes the socket
  has accepted from it (\<open>send\<close> answering \<open>n\<close> has taken the first \<open>n\<close> bytes) and the bytes
  \<open>recv\<close> has given it. The logs are no part of the program's data; they are what the
  properties speak about.
\<close>

datatype recv_result =
    Received "u8 list"
  | RecvInterrupted
  | RecvTimeout
  | RecvFailed

text \<open>Socket options with their values; a time is in seconds and microseconds.\<close>

datatype socket_option =
    SO_RCVTIMEO nat nat
  | SO_SNDTIMEO nat nat
  | SO_KEEPALIVE int
  | SO_REUSEADDR int

record 'w network =
  socket_send :: "int \<Rightarrow> u8 list \<Rightarrow> 'w Bridge \<Rightarrow> (int \<times> bool) \<times> 'w Bridge"
  socket_recv :: "int \<Rightarrow> nat \<Rightarrow> 'w Bridge \<Rightarrow> recv_result \<times> 'w Bridge"
  socket_shutdown :: "int \<Rightarrow> 'w \<Rightarrow> 'w"
  socket_close :: "int \<Rightarrow> 'w \<Rightarrow> 'w"
  setsockopt :: "int \<Rightarrow> socket_option \<Rightarrow> 'w \<Rightarrow> 'w"
  socket_create :: "'w \<Rightarrow> int \<times> 'w"
  socket_bind :: "int \<Rightarrow> nat \<Rightarrow> 'w \<Rightarrow> int \<times> 'w"
  socket_listen :: "int \<Rightarrow> nat \<Rightarrow> 'w \<Rightarrow> int \<times> 'w"
  socket_accept :: "int \<Rightarrow> 'w Bridge \<Rightarrow> (int \<times> bool) \<times> 'w Bridge"
  create_event_group :: "'w \<Rightarrow> bool \<times> 'w"
  delete_event_group :: "'w \<Rightarrow> 'w"
  proxy_done_wait :: "'w Bridge \<Rightarrow> 'w Bridge"
  esp_fill_random :: "nat \<Rightarrow> 'w \<Rightarrow> u8 list \<times> 'w"
  hmac_sha256 :: hmac_function

record 'w Endpoint =
  bridge :: "'w Bridge"
  out :: "u8 list"
  got :: "u8 list"

definition on_bridge :: "('w, 'a) task \<Rightarrow> (('w, 'x) Endpoint_scheme, 'a) state" where
  "on_bridge m = State (\<lambda>e. case run_state m (bridge e) of (a, b) \<Rightarrow> (a, e\<lparr>bridge := b\<rparr>))"

lemma wp_on_bridge [simp]:
  "wp (on_bridge m) Q e = wp m (\<lambda>a b. Q a (e\<lparr>bridge := b\<rparr>)) (bridge e)"
  by (simp add: wp_def on_bridge_def split: prod.splits)

definition socket_write ::
    "'w platform \<Rightarrow> 'w network \<Rightarrow> int \<Rightarrow> ('w Bridge \<times> u8 list) write_callback" where
  "socket_write P N socket_fd context bytes =
     (case context of (s, log) \<Rightarrow>
        case socket_send N socket_fd bytes s of ((sent, interrupted), s') \<Rightarrow>
          ((sent, sent < 0 \<and> interrupted),
           (if sent > 0
            then s'\<lparr>metrics := bridge_metrics_add_tcp_tx (debug_metrics P) (nat sent) (metrics s')\<rparr>
            else s',
            log @ (if 0 < sent \<and> nat sent \<le> length bytes then take (nat sent) bytes else []))))"

interpretation socket: byte_writer "socket_write P N socket_fd" snd
  by unfold_locales (auto simp: socket_write_def split: prod.splits)

text \<open>None where \<open>send\<close> is interrupted for ever and the call never returns.\<close>

definition send_all ::
    "'w platform \<Rightarrow> 'w network \<Rightarrow> int \<Rightarrow> u8 list \<Rightarrow> (('w, 'x) Endpoint_scheme, esp_err option) state"
where
  "send_all P N socket_fd bytes = State (\<lambda>e.
     case bridge_io_write_all (socket_write P N socket_fd) (bridge e, out e) bytes of
       None \<Rightarrow> (None, e)
     | Some (ok, (s, log)) \<Rightarrow>
         (Some (if ok then ESP_OK else ESP_FAIL), e\<lparr>bridge := s, out := log\<rparr>))"

lemma wp_send_all:
  assumes "\<And>s. Q (Some ESP_OK) (e\<lparr>bridge := s, out := out e @ bytes\<rparr>)"
    and "\<And>s k. k < length bytes \<Longrightarrow>
           Q (Some ESP_FAIL) (e\<lparr>bridge := s, out := out e @ take k bytes\<rparr>)"
    and "Q None e"
  shows "wp (send_all P N socket_fd bytes) Q e"
proof (cases "bridge_io_write_all (socket_write P N socket_fd) (bridge e, out e) bytes")
  case None
  with assms(3) show ?thesis by (simp add: wp_def send_all_def)
next
  case (Some r)
  then obtain ok s log where r: "bridge_io_write_all (socket_write P N socket_fd) (bridge e, out e)
      bytes = Some (ok, (s, log))"
    by (metis prod_cases3)
  from socket.write_all_sends [OF r] obtain k where "k \<le> length bytes"
    and "log = out e @ take k bytes" and "ok \<longleftrightarrow> k = length bytes"
    by auto
  with assms(1,2) r show ?thesis by (cases ok) (auto simp: wp_def send_all_def)
qed

definition receive_from ::
    "'w network \<Rightarrow> int \<Rightarrow> nat \<Rightarrow> (('w, 'x) Endpoint_scheme, recv_result) state" where
  "receive_from N socket_fd n = State (\<lambda>e.
     case socket_recv N socket_fd n (bridge e) of
       (r, s) \<Rightarrow> (r, e\<lparr>bridge := s, got := got e @ (case r of Received bs \<Rightarrow> bs | _ \<Rightarrow> [])\<rparr>))"

lemma wp_receive_from [simp]:
  "wp (receive_from N socket_fd n) Q e =
     (case socket_recv N socket_fd n (bridge e) of
        (r, s) \<Rightarrow> Q r (e\<lparr>bridge := s, got := got e @ (case r of Received bs \<Rightarrow> bs | _ \<Rightarrow> [])\<rparr>))"
  by (simp add: wp_def receive_from_def split: prod.splits)

end
