(* ===== verification/Simulated_Platform.thy ===== *)
theory Simulated_Platform
  imports Bridge_Platform
begin

text \<open>
  A small platform on which the properties with platform hypotheses are instantiated. Its
  outside is a clock that advances with every wait, the bytes written to and waiting at
  the UART, the line rate, the contents of the stream buffer, the segments a client has sent,
  the flash, the bytes typed on the console, the button, the access point and the USB stack; the Flipper acknowledges every
  request, and no other task runs.
\<close>

record sim_world =
  sim_clock :: int
  sim_sent :: "u8 list"
  sim_incoming :: "u8 list"
  sim_rate :: u32
  sim_queue :: "u8 list"
  sim_socket :: "u8 list list"
  sim_flash :: "(string \<times> u8 list) list"
  sim_console :: "u8 list"
  sim_button :: bool
  sim_ap :: "wifi_ap_config option"
  sim_usb :: "bool \<times> bool"

definition sim_start :: sim_world where
  "sim_start = \<lparr>sim_clock = 0, sim_sent = [], sim_incoming = [], sim_rate = 0, sim_queue = [],
     sim_socket = [], sim_flash = [], sim_console = [], sim_button = False, sim_ap = None,
     sim_usb = (False, False)\<rparr>"

definition sim_wait :: "nat \<Rightarrow> sim_world Bridge \<Rightarrow> sim_world Bridge" where
  "sim_wait ms s = s\<lparr>world := (world s)\<lparr>sim_clock := sim_clock (world s) + int ms * 1000\<rparr>\<rparr>"

definition sim_platform :: "sim_world platform" where
  "sim_platform =
     \<lparr>debug_metrics = True,
      esp_timer_get_time = (\<lambda>w. (sim_clock w, w)),
      uart_param_config = (\<lambda>rate w. (ESP_OK, w\<lparr>sim_rate := rate\<rparr>)),
      uart_set_pin = (\<lambda>w. (ESP_OK, w)),
      uart_flush_input = (\<lambda>w. (ESP_OK, w)),
      uart_set_baudrate = (\<lambda>rate w. (ESP_OK, w\<lparr>sim_rate := rate\<rparr>)),
      uart_driver_install = (\<lambda>w. (ESP_OK, w)),
      uart_driver_delete = (\<lambda>w. w),
      uart_write_bytes = (\<lambda>bs w. (int (length bs), w\<lparr>sim_sent := sim_sent w @ bs\<rparr>)),
      uart_wait_tx_done = (\<lambda>n s. (ESP_OK, s)),
      uart_read_byte = (\<lambda>n s.
        (case sim_incoming (world s) of
           [] \<Rightarrow> ((0, 0), sim_wait n s)
         | b # rest \<Rightarrow> ((1, b), s\<lparr>world := (world s)\<lparr>sim_incoming := rest,
                                              sim_clock := sim_clock (world s) + 1\<rparr>\<rparr>))),
      gpio_reset_tx_pin = (\<lambda>w. (ESP_OK, w)),
      gpio_reset_rx_pin = (\<lambda>w. (ESP_OK, w)),
      gpio_set_tx_open_drain = (\<lambda>w. (ESP_OK, w)),
      gpio_set_tx_level = (\<lambda>high w. (ESP_OK, w)),
      esp_rom_delay_us = (\<lambda>us w. w\<lparr>sim_clock := sim_clock w + int us\<rparr>),
      vTaskDelay = sim_wait,
      tx_mutex_take = (\<lambda>n s. (True, s)),
      tx_mutex_give = (\<lambda>w. w),
      request_mutex_take = (\<lambda>n s. (True, s)),
      request_mutex_give = (\<lambda>w. w),
      status_semaphore_wait = (\<lambda>n s.
        if awaiting_status s
        then s\<lparr>last_status := ExpansionFrameErrorNone, status_semaphore := True\<rparr> else s),
      event_wait = (\<lambda>bits s. s\<lparr>events := events s OR bits\<rparr>),
      create_task = (\<lambda>name w. (True, w)),
      delete_task = (\<lambda>name w. w),
      calloc = (\<lambda>w. (True, w)),
      create_kernel_objects = (\<lambda>w. (True, w)),
      delete_kernel_objects = (\<lambda>w. w),
      stream_bytes_available = (\<lambda>w. length (sim_queue w)),
      stream_send = (\<lambda>bs n s.
        (length bs, s\<lparr>world := (world s)\<lparr>sim_queue := sim_queue (world s) @ bs\<rparr>\<rparr>)),
      stream_receive = (\<lambda>capacity n s.
        (take capacity (sim_queue (world s)),
         s\<lparr>world := (world s)\<lparr>sim_queue := drop capacity (sim_queue (world s))\<rparr>\<rparr>)),
      stream_reset = (\<lambda>w. w\<lparr>sim_queue := []\<rparr>)\<rparr>"

text \<open>A bridge in a given link state, with nothing pending.\<close>

definition sim_bridge :: "ExpansionState \<Rightarrow> sim_world \<Rightarrow> sim_world Bridge" where
  "sim_bridge link w =
     \<lparr>machine = \<lparr>sm_state = link, reconnect_attempts = 0\<rparr>, negotiated_baud = 0,
      running = True, uart_installed = True, awaiting_status = False,
      last_status = ExpansionFrameErrorNone, last_rx_us = 0, last_tx_us = 0, events = 0,
      status_semaphore = False, supervisor_task = True, rx_task = False,
      heartbeat_task = False, metrics = metrics_zero,
      led = \<lparr>s_activity_task = True, led_notification = 0\<rparr>, client_active = False,
      wifi_started = True, bridge_ssid = replicate 20 0, proxy_events = 0, world = w\<rparr>"

end
