(* ===== verification/Simulated_Network.thy ===== *)
theory Simulated_Network
  imports Bridge_Network Simulated_Platform
begin

text \<open>
  Sockets for the simulated platform: everything written is accepted, the client's segments
  arrive one after the other, and then the connection is closed.
\<close>

definition sim_network :: "sim_world network" where
  "sim_network =
     \<lparr>socket_send = (\<lambda>fd bs s. ((int (length bs), False), s)),
      socket_recv = (\<lambda>fd n s.
        (case sim_socket (world s) of
           [] \<Rightarrow> (Received [], s)
         | segment # rest \<Rightarrow> (Received segment, s\<lparr>world := (world s)\<lparr>sim_socket := rest\<rparr>\<rparr>))),
      socket_shutdown = (\<lambda>fd w. w),
      socket_close = (\<lambda>fd w. w),
      setsockopt = (\<lambda>fd option w. w),
      socket_create = (\<lambda>w. (1, w)),
      socket_bind = (\<lambda>fd port w. (0, w)),
      socket_listen = (\<lambda>fd backlog w. (0, w)),
      socket_accept = (\<lambda>fd s. ((3, False), s)),
      create_event_group = (\<lambda>w. (True, w)),
      delete_event_group = (\<lambda>w. w),
      proxy_done_wait = (\<lambda>s. s),
      esp_fill_random = (\<lambda>n w. (replicate n 7, w)),
      hmac_sha256 = Some (\<lambda>key message. (0, take 32 (key @ message)))\<rparr>"

definition sim_endpoint :: "ExpansionState \<Rightarrow> sim_world \<Rightarrow> sim_world Endpoint" where
  "sim_endpoint link w = \<lparr>bridge = sim_bridge link w, out = [], got = []\<rparr>"

end
