(* ===== verification/Transport_Sending.thy ===== *)
theory Transport_Sending
  imports Expansion_Transport Simulated_Platform
begin

text \<open>
  What the transport sends: the frames that an operation of \<open>expansion_transport.c\<close> puts on
  the UART, in what order, and what the Flipper decodes from them, while the receiver and
  the heartbeat task send frames of their own in between.
\<close>

unbundle bit_operations_syntax

section \<open>Small steps\<close>

lemma wp_set_events [simp]: "wp (set_events b) Q s = Q () (s\<lparr>events := events s OR b\<rparr>)"
  and wp_clear_events [simp]: "wp (clear_events b) Q s = Q () (s\<lparr>events := events s AND NOT b\<rparr>)"
  and wp_transport_apply [simp]: "wp (transport_apply e) R s =
        (case expansion_state_machine_apply (machine s) e of
           (ok, a, m) \<Rightarrow> R (ok, a) (s\<lparr>machine := m\<rparr>))"
  and wp_expansion_transport_state [simp]: "wp (expansion_transport_state True) T s =
        T (sm_state (machine s)) s"
  and wp_negotiated_baud [simp]: "wp (expansion_transport_negotiated_baud True) U s =
        U (negotiated_baud s) s"
  and wp_note_transfer [simp]: "wp (note_transfer n) Q s =
        Q () (s\<lparr>led := activity_led_note_transfer n (led s)\<rparr>)"
  and wp_stop_or_lost [simp]: "wp stop_or_lost V s =
        V (events s AND (TRANSPORT_STOP_BIT OR TRANSPORT_LOST_BIT) \<noteq> 0) s"
  by (simp_all add: set_events_def clear_events_def transport_apply_def
      expansion_transport_state_def expansion_transport_negotiated_baud_def note_transfer_def
      stop_or_lost_def wp_def split: prod.splits)

definition link_lost :: "'w Bridge \<Rightarrow> bool" where
  "link_lost s = (events s AND TRANSPORT_LOST_BIT \<noteq> 0)"

lemma bit_set_and: "(x OR b) AND b = (b :: u32)"
  by (simp add: bit_eq_iff bit_simps)

lemma link_lost_set [simp]: "link_lost (s\<lparr>events := x OR 2\<rparr>)"
  using bit_set_and [of x 2] by (simp add: link_lost_def)

lemma link_lost_free [simp]:
  "link_lost (s\<lparr>metrics := m\<rparr>) = link_lost s"
  "link_lost (s\<lparr>world := w\<rparr>) = link_lost s"
  "link_lost (s\<lparr>machine := k\<rparr>) = link_lost s"
  "link_lost (s\<lparr>led := l\<rparr>) = link_lost s"
  by (simp_all add: link_lost_def)

text \<open>Giving up the link changes the event bits and a counter only.\<close>

lemma wp_signal_link_lost:
  assumes "\<And>m. Q () (s\<lparr>events := events s OR TRANSPORT_LOST_BIT, metrics := m\<rparr>)"
  shows "wp (signal_link_lost P) Q s"
  using assms [of "metrics s"] assms by (simp add: signal_link_lost_def)

section \<open>Traffic\<close>

text \<open>
  \<open>sent\<close> reads off the outside what has been written to the UART. The receiver and the
  heartbeat task send status frames and heartbeats; \<open>foreground\<close> are the others.
  \<open>traffic sent s t fs\<close>: from \<open>s\<close> to \<open>t\<close> only whole frames were written, and the
  foreground frames among them are \<open>fs\<close>.
\<close>

fun foreground :: "ExpansionFrame \<Rightarrow> bool" where
  "foreground HeartbeatFrame = False"
| "foreground (StatusFrame e) = False"
| "foreground f = True"

definition traffic ::
    "('w \<Rightarrow> u8 list) \<Rightarrow> 'w Bridge \<Rightarrow> 'w Bridge \<Rightarrow> ExpansionFrame list \<Rightarrow> bool" where
  "traffic sent s t fs \<longleftrightarrow>
     (\<exists>all. list_all sendable_frame all \<and> filter foreground all = fs \<and>
            sent (world t) = sent (world s) @ concat (map encoded_frame all))"

definition uart_laws :: "'w platform \<Rightarrow> ('w \<Rightarrow> u8 list) \<Rightarrow> bool" where
  "uart_laws P sent \<longleftrightarrow>
     (\<forall>bs w w'. uart_write_bytes P bs w = (int (length bs), w') \<longrightarrow> sent w' = sent w @ bs) \<and>
     (\<forall>w. sent (snd (esp_timer_get_time P w)) = sent w) \<and>
     (\<forall>w. sent (tx_mutex_give P w) = sent w) \<and>
     (\<forall>w. sent (request_mutex_give P w) = sent w) \<and>
     (\<forall>n s. traffic sent s (snd (uart_wait_tx_done P n s)) []) \<and>
     (\<forall>n s. traffic sent s (snd (tx_mutex_take P n s)) []) \<and>
     (\<forall>n s. traffic sent s (snd (request_mutex_take P n s)) []) \<and>
     (\<forall>n s. traffic sent s (status_semaphore_wait P n s) [])"

lemma uart_lawsD:
  assumes "uart_laws P sent"
  shows "uart_write_bytes P bs w = (int (length bs), w') \<Longrightarrow> sent w' = sent w @ bs"
    and "esp_timer_get_time P w = (n, w') \<Longrightarrow> sent w' = sent w"
    and "sent (tx_mutex_give P w) = sent w"
    and "sent (request_mutex_give P w) = sent w"
    and "uart_wait_tx_done P k s = (e, t) \<Longrightarrow> traffic sent s t []"
    and "tx_mutex_take P k s = (b, t) \<Longrightarrow> traffic sent s t []"
    and "request_mutex_take P k s = (b, t) \<Longrightarrow> traffic sent s t []"
    and "traffic sent s (status_semaphore_wait P k s) []"
  using assms by (auto simp: uart_laws_def dest: spec [of _ w] spec [of _ s]) (metis snd_conv)+

lemma traffic_refl: "sent (world t) = sent (world s) \<Longrightarrow> traffic sent s t []"
  by (auto simp: traffic_def intro: exI [of _ "[]"])

lemma traffic_trans:
  assumes "traffic sent s t fs" and "traffic sent t u gs"
  shows "traffic sent s u (fs @ gs)"
proof -
  from assms obtain all more where "list_all sendable_frame (all @ more)"
    and "filter foreground (all @ more) = fs @ gs"
    and "sent (world u) = sent (world s) @ concat (map encoded_frame (all @ more))"
    by (auto simp: traffic_def)
  then show ?thesis unfolding traffic_def by blast
qed

lemmas traffic_quiet = traffic_trans [where gs = "[]", simplified]

lemma traffic_same:
  "traffic sent s t fs \<Longrightarrow> sent (world u) = sent (world t) \<Longrightarrow> traffic sent s u fs"
  by (auto simp: traffic_def)

lemma traffic_fields [simp]:
  "traffic sent s (t\<lparr>led := l\<rparr>) fs = traffic sent s t fs"
  "traffic sent s (t\<lparr>metrics := m\<rparr>) fs = traffic sent s t fs"
  "traffic sent s (t\<lparr>machine := k\<rparr>) fs = traffic sent s t fs"
  "traffic sent s (t\<lparr>events := b\<rparr>) fs = traffic sent s t fs"
  by (simp_all add: traffic_def)

lemma traffic_world:
  "sent w = sent (world t) \<Longrightarrow> traffic sent s (t\<lparr>world := w\<rparr>) fs = traffic sent s t fs"
  by (simp add: traffic_def)

lemma traffic_frame:
  "sendable_frame f \<Longrightarrow> sent (world t) = sent (world s) @ encoded_frame f \<Longrightarrow>
     traffic sent s t (filter foreground [f])"
  unfolding traffic_def by (rule exI [of _ "[f]"]) simp

lemma send_frame_traffic:
  assumes laws: "uart_laws P sent" and "sendable_frame f" and "traffic sent s0 s fs"
  shows "wp (send_frame P f)
           (\<lambda>e t. e = ESP_OK \<longrightarrow> traffic sent s0 t (fs @ filter foreground [f])) s"
proof -
  have enc: "expansion_protocol_encode f (BRIDGE_EXPANSION_MAX_DATA + 3) = Some (encoded_frame f)"
    using encode_frame_capacity [OF assms(2)] by simp
  obtain taken s1 where take: "tx_mutex_take P BRIDGE_EXPANSION_ACK_TIMEOUT_MS s = (taken, s1)"
    by fastforce
  obtain n w where wr: "uart_write_bytes P (encoded_frame f) (world s1) = (n, w)" by fastforce
  let ?s2 = "s1\<lparr>world := w\<rparr>"
  obtain e s3 where wait: "uart_wait_tx_done P BRIDGE_EXPANSION_ACK_TIMEOUT_MS ?s2 = (e, s3)"
    by fastforce
  obtain now w' where timer: "esp_timer_get_time P (world s3) = (now, w')" by fastforce
  have tr: "traffic sent s0 u (fs @ filter foreground [f])"
    if n: "n = int (length (encoded_frame f))" and u: "sent (world u) = sent (world s3)" for u
  proof -
    have "traffic sent s0 s1 fs"
      using traffic_quiet [OF assms(3) uart_lawsD(6) [OF laws take]] .
    moreover have "traffic sent s1 ?s2 (filter foreground [f])"
      using traffic_frame [OF assms(2), of sent ?s2 s1] uart_lawsD(1) [OF laws] wr n by simp
    ultimately have "traffic sent s0 ?s2 (fs @ filter foreground [f])" by (rule traffic_trans)
    from traffic_quiet [OF this uart_lawsD(5) [OF laws wait]] u
    show ?thesis by (rule traffic_same)
  qed
  show ?thesis
    using take wr wait timer tr uart_lawsD(2) [OF laws timer]
    by (simp add: send_frame_def enc mark_tx_activity_def uart_lawsD(3) [OF laws]
        del: filter.simps BRIDGE_EXPANSION_MAX_DATA_def BRIDGE_EXPANSION_ACK_TIMEOUT_MS_def)
qed

lemma send_wait_status_traffic:
  assumes laws: "uart_laws P sent" and "sendable_frame f" and "foreground f"
    and "traffic sent s0 s fs"
  shows "wp (send_wait_status P f)
           (\<lambda>(e, status) t. e = ESP_OK \<longrightarrow>
              traffic sent s0 t (fs @ [f]) \<and> last_status t = status \<and> \<not> awaiting_status t) s"
proof -
  obtain taken s1 where take: "request_mutex_take P BRIDGE_EXPANSION_TIMEOUT_MS s = (taken, s1)"
    by fastforce
  obtain t0 w where timer: "esp_timer_get_time P (world s1) = (t0, w)" by fastforce
  let ?s2 = "s1\<lparr>status_semaphore := False, awaiting_status := True,
                last_status := ExpansionFrameErrorUnknown, world := w\<rparr>"
  have "traffic sent s0 s1 fs"
    using traffic_quiet [OF assms(4) uart_lawsD(7) [OF laws take]] .
  then have "traffic sent s0 ?s2 fs"
    using uart_lawsD(2) [OF laws timer] by (auto elim: traffic_same)
  from send_frame_traffic [OF laws assms(2) this] assms(3)
  have frame: "wp (send_frame P f) (\<lambda>e t. e = ESP_OK \<longrightarrow> traffic sent s0 t (fs @ [f])) ?s2"
    by simp
  let ?k = BRIDGE_EXPANSION_ACK_TIMEOUT_MS
  have sem: "traffic sent s0 (status_semaphore_wait P ?k t) (fs @ [f])"
    if "traffic sent s0 t (fs @ [f])" for t
    using traffic_quiet [OF that uart_lawsD(8) [OF laws]] .
  show ?thesis
    using take timer
    apply (simp add: send_wait_status_def
        del: BRIDGE_EXPANSION_TIMEOUT_MS_def BRIDGE_EXPANSION_ACK_TIMEOUT_MS_def split: prod.splits)
    apply (intro impI wp_mono [OF frame])
    apply (auto split: prod.splits simp: uart_lawsD(4) [OF laws] uart_lawsD(2) [OF laws]
        simp del: BRIDGE_EXPANSION_TIMEOUT_MS_def BRIDGE_EXPANSION_ACK_TIMEOUT_MS_def
        intro: traffic_same [OF sem])
    done
qed

section \<open>Chunks\<close>

text \<open>The specification of the split into data frames.\<close>

function chunks_of :: "u8 list \<Rightarrow> u8 list list" where
  "chunks_of bytes =
     (if bytes = [] then []
      else take BRIDGE_EXPANSION_MAX_DATA bytes # chunks_of (drop BRIDGE_EXPANSION_MAX_DATA bytes))"
  by pat_completeness auto
termination by (relation "measure length") auto

declare chunks_of.simps [simp del]

lemma chunks_of_Nil [simp]: "chunks_of [] = []"
  by (simp add: chunks_of.simps)

lemma chunks_of_nonempty:
  "bytes \<noteq> [] \<Longrightarrow> chunks_of bytes = take 64 bytes # chunks_of (drop 64 bytes)"
  using chunks_of.simps [of bytes] by simp

lemma concat_chunks_of [simp]: "concat (chunks_of bytes) = bytes"
  by (induction bytes rule: chunks_of.induct)
     (metis BRIDGE_EXPANSION_MAX_DATA_def append_take_drop_id chunks_of.simps concat.simps)

lemma chunks_of_bounded: "chunk \<in> set (chunks_of bytes) \<Longrightarrow> chunk \<noteq> [] \<and> length chunk \<le> 64"
proof (induction bytes rule: chunks_of.induct)
  case (1 bytes)
  then show ?case
    using chunks_of.simps [of bytes] by (auto split: if_splits)
qed

lemma sendable_data_frame: "length chunk \<le> 64 \<Longrightarrow> sendable_frame (data_frame chunk)"
  by (auto simp: sendable_frame_def data_frame_def expansion_protocol_encode_def encode_finish_def
      unsigned_of_nat take_bit_nat_eq_self)

text \<open>What a receiver of frames takes from them: the data contents, in order.\<close>

fun frame_payload :: "ExpansionFrame \<Rightarrow> u8 list" where
  "frame_payload (DataFrame n bytes) = take (unat n) bytes"
| "frame_payload f = []"

definition received_payload :: "ExpansionDecodeResult list \<Rightarrow> u8 list" where
  "received_payload verdicts =
     concat (map (\<lambda>v. case v of ExpansionDecodeFrameReady f \<Rightarrow> frame_payload f | _ \<Rightarrow> []) verdicts)"

lemma frame_payload_data [simp]: "length chunk \<le> 64 \<Longrightarrow> frame_payload (data_frame chunk) = chunk"
  by (simp add: data_frame_def unsigned_of_nat take_bit_nat_eq_self)

lemma foreground_data [simp]: "foreground (data_frame chunk)"
  by (simp add: data_frame_def)

lemma background_payload: "concat (map frame_payload (filter foreground fs)) =
    concat (map frame_payload fs)"
proof (induction fs)
  case (Cons f fs)
  then show ?case by (cases f) auto
qed simp

lemma payload_of_traffic:
  assumes "traffic sent s t fs"
  shows "\<exists>verdicts. decoder_feed expansion_decoder_push ExpansionDecodeNeedMore
           expansion_decoder_reset (drop (length (sent (world s))) (sent (world t))) =
             (verdicts, expansion_decoder_reset) \<and>
           received_payload verdicts = concat (map frame_payload fs)"
proof -
  from assms obtain all where all: "list_all sendable_frame all"
    and fs: "filter foreground all = fs"
    and w: "drop (length (sent (world s))) (sent (world t)) = concat (map encoded_frame all)"
    by (auto simp: traffic_def)
  have "received_payload (map ExpansionDecodeFrameReady all) = concat (map frame_payload all)"
    by (simp add: received_payload_def comp_def)
  with expansion.stream_decodes [OF all] w fs background_payload [of all] show ?thesis
    by auto
qed

declare send_chunks.simps [simp del]

lemma chunks_of_step:
  assumes "offset < length bytes" and "chunk = min (length bytes - offset) 64"
  shows "chunks_of (drop offset bytes) =
           take chunk (drop offset bytes) # chunks_of (drop (offset + chunk) bytes)"
  using assms chunks_of_nonempty [of "drop offset bytes"] by (auto simp: min_def add.commute)

lemma send_data_traffic:
  assumes "uart_laws P sent" and "traffic sent s0 s fs" and "length bytes \<le> 64"
  shows "wp (send_wait_status P (data_frame bytes))
           (\<lambda>(e, status) t. e = ESP_OK \<longrightarrow> traffic sent s0 t (fs @ [data_frame bytes])) s"
  using send_wait_status_traffic [OF assms(1) _ _ assms(2), of "data_frame bytes"] assms(3)
  by (auto simp: sendable_data_frame elim!: wp_mono)

lemma send_chunks_traffic:
  assumes laws: "uart_laws P sent" and "traffic sent s0 s fs" and "offset \<le> length bytes"
  shows "wp (send_chunks P bytes offset)
           (\<lambda>e t. if e = ESP_OK
                then traffic sent s0 t (fs @ map data_frame (chunks_of (drop offset bytes)))
                else link_lost t) s"
  using assms(2,3)
proof (induction "length bytes - offset" arbitrary: offset s fs rule: less_induct)
  case less
  show ?case
  proof (cases "offset < length bytes")
    case False
    then have "wp (send_chunks P bytes offset) R s = R ESP_OK s" for R
      by (simp add: send_chunks.simps [of P bytes offset])
    with less.prems False show ?thesis by simp
  next
    case True
    define chunk where "chunk = min (length bytes - offset) 64"
    have c: "(if length bytes - offset < BRIDGE_EXPANSION_MAX_DATA
              then length bytes - offset else BRIDGE_EXPANSION_MAX_DATA) = chunk"
      by (simp add: chunk_def min_def)
    let ?f = "data_frame (take chunk (drop offset bytes))"
    have len: "chunk \<le> 64" "0 < chunk" "offset + chunk \<le> length bytes"
      using True by (auto simp: chunk_def)
    have step: "wp (send_wait_status P ?f)
        (\<lambda>(e, status) t. e = ESP_OK \<longrightarrow> traffic sent s0 t (fs @ [?f])) s"
      by (rule send_data_traffic [OF laws less.prems(1)]) (use len in simp)
    define Q where "Q = (\<lambda>e t. if e = ESP_OK
        then traffic sent s0 t (fs @ map data_frame (chunks_of (drop offset bytes)))
        else link_lost t)"
    have rest: "wp (send_chunks P bytes (offset + chunk)) Q (u\<lparr>metrics := m\<rparr>)"
      if u: "traffic sent s0 u (fs @ [?f])" for u m
    proof -
      have Q: "Q = (\<lambda>e t. if e = ESP_OK
          then traffic sent s0 t
                 ((fs @ [?f]) @ map data_frame (chunks_of (drop (offset + chunk) bytes)))
          else link_lost t)"
        by (simp add: Q_def chunks_of_step [OF True chunk_def])
      have "length bytes - (offset + chunk) < length bytes - offset" using len True by simp
      moreover have "traffic sent s0 (u\<lparr>metrics := m\<rparr>) (fs @ [?f])"
        using u by (auto elim: traffic_same)
      ultimately show ?thesis unfolding Q using len(3) by (rule less.hyps)
    qed
    have lost: "wp (signal_link_lost P) (\<lambda>_. wp (ret e) Q) u" if "e \<noteq> ESP_OK" for u e
      using that by (intro wp_signal_link_lost) (simp add: Q_def)
    have "wp (send_chunks P bytes offset) Q s"
      unfolding send_chunks.simps [of P bytes offset] c Let_def
      using True lost rest by (auto intro!: wp_mono [OF step])
    then show ?thesis by (simp add: Q_def)
  qed
qed

section \<open>Properties\<close>

lemma sim_uart_laws: "uart_laws sim_platform sim_sent"
  by (auto simp: uart_laws_def sim_platform_def intro: traffic_refl)

lemma send_rpc_traffic:
  assumes "uart_laws P sent" and "traffic sent s0 s fs"
  shows "wp (expansion_transport_send_rpc P True bytes)
     (\<lambda>e t. if e = ESP_OK then traffic sent s0 t (fs @ map data_frame (chunks_of bytes))
           else link_lost t \<or> sm_state (machine s) \<noteq> ExpansionStateRpcReady) s"
  using send_chunks_traffic [OF assms, of 0 bytes]
  by (auto simp: expansion_transport_send_rpc_def elim!: wp_mono split: if_splits)

lemma data_frames_payload:
  "concat (map frame_payload (map data_frame (chunks_of bytes))) = bytes"
  using chunks_of_bounded [of _ bytes]
  by (simp add: comp_def frame_payload_data cong: map_cong)

text \<open>
  C2. Payload towards the Flipper arrives complete and in order: when
  \<open>expansion_transport_send_rpc\<close> reports success, the foreground frames it put on the UART
  are exactly the data frames of the payload cut into chunks of at most 64 bytes, and a
  decoder that reads what was written since then yields exactly the payload, whatever
  status frames and heartbeats the other tasks sent in between; otherwise the link is
  marked as lost.
\<close>

theorem send_rpc_delivers:
  assumes "uart_laws P sent" and "sm_state (machine s) = ExpansionStateRpcReady"
    and "run_state (expansion_transport_send_rpc P True bytes) s = (error, t)"
  shows "if error = ESP_OK
    then traffic sent s t (map data_frame (chunks_of bytes)) \<and>
         (\<exists>verdicts. decoder_feed expansion_decoder_push ExpansionDecodeNeedMore
            expansion_decoder_reset (drop (length (sent (world s))) (sent (world t))) =
              (verdicts, expansion_decoder_reset) \<and>
            received_payload verdicts = bytes)
    else link_lost t"
proof -
  have "if error = ESP_OK then traffic sent s t (map data_frame (chunks_of bytes)) else link_lost t"
    using wpD [OF send_rpc_traffic [OF assms(1) traffic_refl [of sent s s]] assms(3)] assms(2)
    by (simp split: if_splits)
  then show ?thesis
    using payload_of_traffic [of sent s t "map data_frame (chunks_of bytes)"]
    unfolding data_frames_payload by (auto split: if_splits)
qed

definition example_payload :: "u8 list" where
  "example_payload = replicate 65 7"

theorem send_rpc_delivers_witness:
  "let s = sim_bridge ExpansionStateRpcReady sim_start;
       (error, t) = run_state (expansion_transport_send_rpc sim_platform True example_payload) s
   in if error = ESP_OK
      then traffic sim_sent s t (map data_frame (chunks_of example_payload)) \<and>
           (\<exists>verdicts. decoder_feed expansion_decoder_push ExpansionDecodeNeedMore
              expansion_decoder_reset (drop (length (sim_sent (world s))) (sim_sent (world t))) =
                (verdicts, expansion_decoder_reset) \<and>
              received_payload verdicts = example_payload)
      else link_lost t"
proof -
  have st: "sm_state (machine (sim_bridge ExpansionStateRpcReady sim_start)) =
      ExpansionStateRpcReady"
    by (simp add: sim_bridge_def)
  obtain error t where run:
    "run_state (expansion_transport_send_rpc sim_platform True example_payload)
       (sim_bridge ExpansionStateRpcReady sim_start) = (error, t)"
    by fastforce
  from send_rpc_delivers [OF sim_uart_laws st run] show ?thesis
    unfolding Let_def run prod.case .
qed

lemma control_request_spec:
  assumes laws: "uart_laws P sent" and "command \<le> ExpansionControlStopRpc"
    and "traffic sent s0 s fs"
    and event: "confirmation \<in> {ExpansionEventRpcStarted, ExpansionEventRpcStopped}"
  shows "wp (control_request P command confirmation)
     (\<lambda>e t. if e = ESP_OK
          then traffic sent s0 t (fs @ [ControlFrame command]) \<and>
               last_status t = ExpansionFrameErrorNone \<and> \<not> awaiting_status t \<and>
               sm_state (machine t) = (if confirmation = ExpansionEventRpcStarted
                                       then ExpansionStateRpcReady else ExpansionStateReady)
          else link_lost t) s"
proof -
  define Q where "Q = (\<lambda>e t. if e = ESP_OK
      then traffic sent s0 t (fs @ [ControlFrame command]) \<and>
           last_status t = ExpansionFrameErrorNone \<and> \<not> awaiting_status t \<and>
           sm_state (machine t) = (if confirmation = ExpansionEventRpcStarted
                                   then ExpansionStateRpcReady else ExpansionStateReady)
      else link_lost t)"
  have step: "wp (send_wait_status P (ControlFrame command))
      (\<lambda>(e, status) t. e = ESP_OK \<longrightarrow> traffic sent s0 t (fs @ [ControlFrame command]) \<and>
         last_status t = status \<and> \<not> awaiting_status t) s"
    using send_wait_status_traffic [OF laws _ _ assms(3), of "ControlFrame command"] assms(2)
    by (simp add: sendable_control_frame)
  have lost: "wp (signal_link_lost P) (\<lambda>_. wp (ret e) Q) u" if "e \<noteq> ESP_OK" for u e
    using that by (intro wp_signal_link_lost) (simp add: Q_def)
  have "Q ESP_OK (u\<lparr>machine := m\<rparr>)"
    if "traffic sent s0 u (fs @ [ControlFrame command])" "last_status u = ExpansionFrameErrorNone"
      "\<not> awaiting_status u" "expansion_state_machine_apply (machine u) confirmation = (True, a, m)"
    for u m a
    using that event by (auto simp: Q_def apply_simps elim: traffic_same split: if_splits)
  with lost have "wp (control_request P command confirmation) Q s"
    unfolding control_request_def
    by (auto intro!: wp_mono [OF step] split: prod.splits)
  then show ?thesis by (simp add: Q_def)
qed

text \<open>
  C22. A proxy session starts only with the Flipper's consent. \<open>expansion_transport_begin_rpc\<close>
  succeeds only when it sent exactly one START RPC frame, the status that answered it was
  "none", and the machine took the confirmation, so the link is in the RPC state. When the
  link was not ready nothing is sent and a reconnect is requested; on every other failure
  the link is marked as lost.
\<close>

theorem begin_rpc_needs_consent:
  assumes "uart_laws P sent"
    and "run_state (expansion_transport_begin_rpc P True) s = (error, t)"
  shows "if sm_state (machine s) \<noteq> ExpansionStateReady
    then error = ESP_ERR_INVALID_STATE \<and>
         t = s\<lparr>events := events s OR TRANSPORT_RECONNECT_BIT\<rparr>
    else if error = ESP_OK
    then traffic sent s t [ControlFrame ExpansionControlStartRpc] \<and>
         last_status t = ExpansionFrameErrorNone \<and> \<not> awaiting_status t \<and>
         sm_state (machine t) = ExpansionStateRpcReady
    else link_lost t"
proof (cases "sm_state (machine s) = ExpansionStateReady")
  case False
  with assms(2) show ?thesis
    by (auto simp: expansion_transport_begin_rpc_def expansion_transport_request_reconnect_def
        do_if_def set_events_def expansion_transport_state_def)
next
  case True
  let ?s = "s\<lparr>machine := (machine s)\<lparr>sm_state := ExpansionStateStartingRpc\<rparr>\<rparr>"
  have "wp (control_request P ExpansionControlStartRpc ExpansionEventRpcStarted)
      (\<lambda>e t. if e = ESP_OK
          then traffic sent s t [ControlFrame ExpansionControlStartRpc] \<and>
               last_status t = ExpansionFrameErrorNone \<and> \<not> awaiting_status t \<and>
               sm_state (machine t) = ExpansionStateRpcReady
          else link_lost t) ?s"
    using control_request_spec [OF assms(1), of ExpansionControlStartRpc s ?s "[]"
        ExpansionEventRpcStarted]
    by (simp add: traffic_refl cong: if_cong split del: if_split)
  with True have "wp (expansion_transport_begin_rpc P True)
      (\<lambda>e t. if e = ESP_OK
          then traffic sent s t [ControlFrame ExpansionControlStartRpc] \<and>
               last_status t = ExpansionFrameErrorNone \<and> \<not> awaiting_status t \<and>
               sm_state (machine t) = ExpansionStateRpcReady
          else link_lost t) s"
    by (simp add: expansion_transport_begin_rpc_def apply_simps
        cong: if_cong split del: if_split)
  from wpD [OF this assms(2)] True show ?thesis by simp
qed

lemma sim_begin_rpc:
  "run_state (expansion_transport_begin_rpc sim_platform True)
     (sim_bridge ExpansionStateReady sim_start) = (error, t) \<Longrightarrow>
   error = ESP_OK \<and> sim_sent (world t) = [4, 0, 4]"
  by (auto simp: expansion_transport_begin_rpc_def control_request_def send_wait_status_def
      send_frame_def expansion_protocol_encode_def encode_finish_def
      expansion_protocol_checksum_def sim_platform_def sim_bridge_def sim_start_def
      transport_apply_def expansion_transport_state_def device_def device_do_def blocking_def
      count_metric_def mark_tx_activity_def do_if_def apply_simps)

theorem begin_rpc_needs_consent_witness:
  "case run_state (expansion_transport_begin_rpc sim_platform True)
          (sim_bridge ExpansionStateReady sim_start) of
     (error, t) \<Rightarrow>
       error = ESP_OK \<and> sim_sent (world t) = [4, 0, 4] \<and>
       sm_state (machine t) = ExpansionStateRpcReady"
proof -
  obtain error t where run: "run_state (expansion_transport_begin_rpc sim_platform True)
      (sim_bridge ExpansionStateReady sim_start) = (error, t)"
    by fastforce
  with begin_rpc_needs_consent [OF sim_uart_laws run] sim_begin_rpc [OF run]
  show ?thesis by (simp add: sim_bridge_def)
qed

text \<open>
  C23. Ending a session is a handshake too, and it is safe to repeat: \<open>expansion_transport_end_rpc\<close>
  on a ready link succeeds and does nothing; in the RPC state it succeeds only after one STOP
  RPC frame was answered by the status "none", and the link is then ready again; in every
  other state it is refused and sends nothing; and every failed handshake marks the link as
  lost.
\<close>

theorem end_rpc_handshake:
  assumes "uart_laws P sent" and "\<And>w. sent (stream_reset P w) = sent w"
    and "run_state (expansion_transport_end_rpc P True) s = (error, t)"
  shows "if sm_state (machine s) = ExpansionStateReady then error = ESP_OK \<and> t = s
    else if sm_state (machine s) \<noteq> ExpansionStateRpcReady
    then error = ESP_ERR_INVALID_STATE \<and> t = s
    else if error = ESP_OK
    then traffic sent s t [ControlFrame ExpansionControlStopRpc] \<and>
         last_status t = ExpansionFrameErrorNone \<and> sm_state (machine t) = ExpansionStateReady
    else link_lost t"
proof (cases "sm_state (machine s) = ExpansionStateRpcReady")
  case False
  with assms(3) show ?thesis
    by (auto simp: expansion_transport_end_rpc_def expansion_transport_state_def split: if_splits)
next
  case True
  let ?s = "s\<lparr>machine := (machine s)\<lparr>sm_state := ExpansionStateStoppingRpc\<rparr>\<rparr>"
  define Q where "Q = (\<lambda>e t. if e = ESP_OK
      then traffic sent s t [ControlFrame ExpansionControlStopRpc] \<and>
           last_status t = ExpansionFrameErrorNone \<and> sm_state (machine t) = ExpansionStateReady
      else link_lost t)"
  have "wp (control_request P ExpansionControlStopRpc ExpansionEventRpcStopped) Q ?s"
    using control_request_spec [OF assms(1), of ExpansionControlStopRpc s ?s "[]"
        ExpansionEventRpcStopped]
    by (auto simp: traffic_refl Q_def elim!: wp_mono)
  moreover have "Q e (u\<lparr>world := stream_reset P (world u)\<rparr>)" if "Q e u" for e u
    using that by (simp add: Q_def traffic_world assms(2) split: if_splits)
  ultimately have "wp (expansion_transport_end_rpc P True) Q s"
    using True by (auto simp: expansion_transport_end_rpc_def apply_simps elim!: wp_mono)
  from wpD [OF this assms(3)] True show ?thesis by (simp add: Q_def)
qed

theorem end_rpc_handshake_witness:
  "case run_state (expansion_transport_end_rpc sim_platform True)
          (sim_bridge ExpansionStateRpcReady sim_start) of
     (error, t) \<Rightarrow>
       if error = ESP_OK
       then traffic sim_sent (sim_bridge ExpansionStateRpcReady sim_start) t
              [ControlFrame ExpansionControlStopRpc] \<and>
            last_status t = ExpansionFrameErrorNone \<and>
            sm_state (machine t) = ExpansionStateReady
       else link_lost t"
proof -
  obtain error t where run: "run_state (expansion_transport_end_rpc sim_platform True)
      (sim_bridge ExpansionStateRpcReady sim_start) = (error, t)"
    by fastforce
  have "sim_sent (stream_reset sim_platform w) = sim_sent w" for w
    by (simp add: sim_platform_def)
  note end_rpc_handshake [OF sim_uart_laws this run]
  moreover have "sm_state (machine (sim_bridge ExpansionStateRpcReady sim_start)) =
      ExpansionStateRpcReady" by (simp add: sim_bridge_def)
  ultimately show ?thesis by (simp add: run)
qed

end
