(* ===== verification/Transport_Receiving.thy ===== *)
theory Transport_Receiving
  imports Transport_Sending
begin

text \<open>
  What the receiver task of \<open>expansion_transport.c\<close> does with the bytes of the UART: the
  payload of data frames goes into the stream buffer, each frame is acknowledged, and a
  frame that does not fit gives the link up instead of losing bytes silently.
\<close>

unbundle bit_operations_syntax

section \<open>A quiet platform\<close>

text \<open>
  \<open>view\<close> reads off the outside the bytes waiting at the UART, the contents of the stream
  buffer and the bytes written to the UART. The laws say that the calls do what ESP-IDF
  and FreeRTOS document, while no other task changes the shared state.
\<close>

type_synonym 'w rx_view = "'w \<Rightarrow> u8 list \<times> u8 list \<times> u8 list"

definition rx_laws :: "'w platform \<Rightarrow> 'w rx_view \<Rightarrow> bool" where
  "rx_laws P view \<longleftrightarrow>
     (\<forall>n s b i q out. view (world s) = (b # i, q, out) \<longrightarrow>
        (\<exists>w. uart_read_byte P n s = ((1, b), s\<lparr>world := w\<rparr>) \<and> view w = (i, q, out))) \<and>
     (\<forall>w i q out. view w = (i, q, out) \<longrightarrow> stream_bytes_available P w = length q) \<and>
     (\<forall>bs n s i q out. view (world s) = (i, q, out) \<longrightarrow>
        length q + length bs \<le> BRIDGE_RPC_RX_BUFFER_BYTES \<longrightarrow>
        (\<exists>w. stream_send P bs n s = (length bs, s\<lparr>world := w\<rparr>) \<and> view w = (i, q @ bs, out))) \<and>
     (\<forall>n s. \<exists>w. tx_mutex_take P n s = (True, s\<lparr>world := w\<rparr>) \<and> view w = view (world s)) \<and>
     (\<forall>bs w i q out. view w = (i, q, out) \<longrightarrow>
        (\<exists>w'. uart_write_bytes P bs w = (int (length bs), w') \<and> view w' = (i, q, out @ bs))) \<and>
     (\<forall>n s. \<exists>w. uart_wait_tx_done P n s = (ESP_OK, s\<lparr>world := w\<rparr>) \<and> view w = view (world s)) \<and>
     (\<forall>w. view (snd (esp_timer_get_time P w)) = view w) \<and>
     (\<forall>w. view (tx_mutex_give P w) = view w)"

lemma rx_lawsD:
  assumes "rx_laws P view"
  shows "view (world s) = (b # i, q, out) \<Longrightarrow>
      \<exists>w. uart_read_byte P n s = ((1, b), s\<lparr>world := w\<rparr>) \<and> view w = (i, q, out)"
    and "view w = (i, q, out) \<Longrightarrow> stream_bytes_available P w = length q"
    and "view (world s) = (i, q, out) \<Longrightarrow> length q + length bs \<le> 8192 \<Longrightarrow>
      \<exists>w. stream_send P bs n s = (length bs, s\<lparr>world := w\<rparr>) \<and> view w = (i, q @ bs, out)"
    and "\<exists>w. tx_mutex_take P n s = (True, s\<lparr>world := w\<rparr>) \<and> view w = view (world s)"
    and "view w = (i, q, out) \<Longrightarrow>
      \<exists>w'. uart_write_bytes P bs w = (int (length bs), w') \<and> view w' = (i, q, out @ bs)"
    and "\<exists>w. uart_wait_tx_done P n s = (ESP_OK, s\<lparr>world := w\<rparr>) \<and> view w = view (world s)"
    and "esp_timer_get_time P w = (now, w') \<Longrightarrow> view w' = view w"
    and "view (tx_mutex_give P w) = view w"
  using assms unfolding rx_laws_def by (simp_all, metis snd_conv)

section \<open>One frame\<close>

text \<open>What acknowledging and receiving leave alone.\<close>

definition same_link :: "'w Bridge \<Rightarrow> 'w Bridge \<Rightarrow> bool" where
  "same_link s t \<longleftrightarrow> machine t = machine s \<and> events t = events s"

lemma same_link_refl [simp]: "same_link s s"
  and same_link_trans: "same_link s t \<Longrightarrow> same_link t u \<Longrightarrow> same_link s u"
  by (simp_all add: same_link_def)

lemma send_frame_quiet:
  assumes laws: "rx_laws P view" and "view (world s) = (i, q, out)" and "sendable_frame f"
  shows "\<exists>t. run_state (send_frame P f) s = (ESP_OK, t) \<and> same_link s t \<and>
             view (world t) = (i, q, out @ encoded_frame f)"
proof -
  let ?f = "encoded_frame f"
  have enc: "expansion_protocol_encode f 67 = Some ?f"
    by (rule encode_frame_capacity) (rule assms(3))
  obtain w1 where 1: "tx_mutex_take P 200 s = (True, s\<lparr>world := w1\<rparr>)"
    "view w1 = (i, q, out)" using rx_lawsD(4) [OF laws] assms(2) by metis
  obtain w2 where 2: "uart_write_bytes P ?f w1 = (int (length ?f), w2)"
    "view w2 = (i, q, out @ ?f)" using rx_lawsD(5) [OF laws 1(2)] by metis
  obtain w3 where 3: "uart_wait_tx_done P 200 (s\<lparr>world := w2\<rparr>) = (ESP_OK, s\<lparr>world := w3\<rparr>)"
    "view w3 = view w2" using rx_lawsD(6) [OF laws, of 200 "s\<lparr>world := w2\<rparr>"] by auto
  obtain now w4 where 4: "esp_timer_get_time P w3 = (now, w4)" by fastforce
  show ?thesis
    using 1 2 3 4 rx_lawsD(7) [OF laws 4] rx_lawsD(8) [OF laws]
    by (simp add: send_frame_def enc device_def device_do_def blocking_def
        mark_tx_activity_def count_metric_def do_if_def same_link_def)
qed

lemma send_status_quiet:
  assumes "rx_laws P view" and "view (world s) = (i, q, out)"
  shows "\<exists>t. run_state (send_status P status) s = (ESP_OK, t) \<and> same_link s t \<and>
             view (world t) = (i, q, out @ encoded_frame (StatusFrame status))"
  using send_frame_quiet [OF assms sendable_status_frame] by (simp add: send_status_def)

lemma accept_iff_room:
  assumes "length q \<le> 8192" and "length p \<le> 64"
  shows "bridge_io_buffer_can_accept (of_nat (length q)) (ucast (of_nat (length p) :: u8)) 8192
     \<longleftrightarrow> length q + length p \<le> 8192"
proof -
  have "unat (of_nat (length p) :: u8) = length p"
    using assms by (simp add: unsigned_of_nat take_bit_nat_eq_self)
  moreover have "unat (of_nat (length q) :: u32) = length q"
    using assms by (simp add: unsigned_of_nat take_bit_nat_eq_self)
  ultimately show ?thesis
    by (auto simp: bridge_io_buffer_can_accept_def word_le_nat_alt unat_sub)
qed

lemma rx_data_accepted:
  assumes laws: "rx_laws P view" and v: "view (world s) = (i, q, out)"
    and ready: "sm_state (machine s) = ExpansionStateRpcReady"
    and "length p \<le> 64" and fits: "length q + length p \<le> 8192"
  shows "\<exists>t. run_state (rx_frame P (data_frame p)) s = (True, t) \<and> same_link s t \<and>
             view (world t) = (i, q @ p, out @ encoded_frame (StatusFrame ExpansionFrameErrorNone))"
proof -
  have len: "unat (of_nat (length p) :: u8) = length p"
    using assms(4) by (simp add: unsigned_of_nat take_bit_nat_eq_self)
  obtain w1 where 1: "stream_send P p 200 s = (length p, s\<lparr>world := w1\<rparr>)" "view w1 = (i, q @ p, out)"
    using rx_lawsD(3) [OF laws v fits] by metis
  obtain t where 2: "run_state (send_status P ExpansionFrameErrorNone) (s\<lparr>world := w1\<rparr>) = (ESP_OK, t)"
    "same_link (s\<lparr>world := w1\<rparr>) t"
    "view (world t) = (i, q @ p, out @ encoded_frame (StatusFrame ExpansionFrameErrorNone))"
    using send_status_quiet [OF laws, of "s\<lparr>world := w1\<rparr>"] 1 by auto
  have "length q \<le> 8192" using fits by simp
  with 1 2 ready fits len show ?thesis
    by (simp add: rx_frame_def data_frame_def rx_data_def expansion_transport_state_def
        rx_lawsD(2) [OF laws v] accept_iff_room assms(4) blocking_def count_metric_def
        same_link_def)
qed

lemma signal_link_lost_effect:
  assumes "run_state (signal_link_lost P) s = ((), t)"
  shows "link_lost t \<and> machine t = machine s \<and> world t = world s"
  using assms by (auto simp: signal_link_lost_def set_events_def count_metric_def do_if_def
      split: if_splits)

lemma rx_data_refused:
  assumes laws: "rx_laws P view" and v: "view (world s) = (i, q, out)"
    and ready: "sm_state (machine s) = ExpansionStateRpcReady"
    and "length p \<le> 64" and "length q \<le> 8192" and full: "8192 < length q + length p"
  shows "\<exists>t. run_state (rx_frame P (data_frame p)) s = (False, t) \<and> link_lost t \<and>
             machine t = machine s \<and>
             view (world t) = (i, q, out @ encoded_frame (StatusFrame ExpansionFrameErrorUnknown))"
proof -
  obtain t where 1: "run_state (send_status P ExpansionFrameErrorUnknown) s = (ESP_OK, t)"
    "same_link s t"
    "view (world t) = (i, q, out @ encoded_frame (StatusFrame ExpansionFrameErrorUnknown))"
    using send_status_quiet [OF laws v] by blast
  obtain u where 2: "run_state (signal_link_lost P) t = ((), u)" by (metis old.unit.exhaust prod.exhaust)
  from 1 2 ready full show ?thesis
    using signal_link_lost_effect [OF 2]
    by (simp add: rx_frame_def data_frame_def rx_data_def expansion_transport_state_def
        rx_lawsD(2) [OF laws v] accept_iff_room assms(4,5) same_link_def)
qed

section \<open>The bytes of the UART\<close>

lemma rx_round_frame:
  assumes laws: "rx_laws P view" and v: "view (world s) = (b # i, q, out)"
    and verdict: "expansion_decoder_push d b = (ExpansionDecodeFrameReady f, d')"
  obtains u where "run_state (rx_round P d) s =
      (case run_state (rx_frame P f) u of (go, t) \<Rightarrow> ((go, d'), t))"
    and "same_link s u" and "view (world u) = (i, q, out)"
proof -
  obtain w where 1: "uart_read_byte P 20 s = ((1, b), s\<lparr>world := w\<rparr>)" "view w = (i, q, out)"
    using rx_lawsD(1) [OF laws v] by metis
  obtain now w' where 2: "esp_timer_get_time P w = (now, w')" by fastforce
  show thesis
    by (rule that [of "s\<lparr>world := w', last_rx_us := now,
         metrics := bridge_metrics_frame (debug_metrics P)
           (bridge_metrics_add_expansion_rx (debug_metrics P) 1 (metrics s))\<rparr>"])
       (use 1 2 verdict rx_lawsD(7) [OF laws 2] in
         \<open>simp_all add: rx_round_def blocking_def device_def count_metric_def
            mark_rx_activity_def same_link_def split: prod.splits\<close>)
qed

lemma rx_round_more:
  assumes laws: "rx_laws P view" and v: "view (world s) = (b # i, q, out)"
    and verdict: "expansion_decoder_push d b = (ExpansionDecodeNeedMore, d')"
  shows "\<exists>t. run_state (rx_round P d) s = ((True, d'), t) \<and> same_link s t \<and>
             view (world t) = (i, q, out)"
proof -
  obtain w where "uart_read_byte P 20 s = ((1, b), s\<lparr>world := w\<rparr>)" "view w = (i, q, out)"
    using rx_lawsD(1) [OF laws v] by metis
  with verdict show ?thesis
    by (simp add: rx_round_def blocking_def count_metric_def same_link_def)
qed

definition serving :: "'w Bridge \<Rightarrow> bool" where
  "serving s \<longleftrightarrow> sm_state (machine s) = ExpansionStateRpcReady \<and>
     events s AND (TRANSPORT_STOP_BIT OR TRANSPORT_LOST_BIT) = 0"

lemma serving_same_link: "serving s \<Longrightarrow> same_link s t \<Longrightarrow> serving t"
  by (simp add: serving_def same_link_def)

lemma rx_loop_step:
  assumes "serving s" and "run_state (rx_round P d) s = ((go, d'), t)"
  shows "run_state (rx_loop P (Suc n) d) s =
         (if go then run_state (rx_loop P n d') t else ((True, d'), t))"
  using assms by (simp add: serving_def stop_or_lost_def)

declare rx_loop.simps(2) [simp del]

lemma rx_loop_more:
  assumes "rx_laws P view" and "expansion_decoder_push d b = (ExpansionDecodeNeedMore, d1)"
    and "view (world s) = (b # i, q, out)" and "serving s"
  shows "\<exists>t. run_state (rx_loop P (Suc n) d) s = run_state (rx_loop P n d1) t \<and>
             same_link s t \<and> view (world t) = (i, q, out)"
  using rx_round_more [OF assms(1,3,2)] rx_loop_step [OF assms(4)] by metis

lemma rx_loop_data_frame:
  assumes laws: "rx_laws P view"
    and push: "expansion_decoder_push d b = (ExpansionDecodeFrameReady (data_frame p), d1)"
    and input: "view (world s) = (b # i, q, out)" and "serving s"
    and "length p \<le> 64" and "length q + length p \<le> 8192"
  shows "\<exists>t. run_state (rx_loop P (Suc n) d) s = run_state (rx_loop P n d1) t \<and>
             same_link s t \<and> view (world t) =
               (i, q @ p, out @ encoded_frame (StatusFrame ExpansionFrameErrorNone))"
proof -
  obtain u where round: "run_state (rx_round P d) s =
      (case run_state (rx_frame P (data_frame p)) u of (go, t) \<Rightarrow> ((go, d1), t))"
    and su: "same_link s u" and vu: "view (world u) = (i, q, out)"
    using rx_round_frame [OF laws input push] by metis
  have "serving u" using assms(4) su by (rule serving_same_link)
  with assms(5,6) obtain t where t: "run_state (rx_frame P (data_frame p)) u = (True, t)"
    "same_link u t"
    "view (world t) = (i, q @ p, out @ encoded_frame (StatusFrame ExpansionFrameErrorNone))"
    using rx_data_accepted [OF laws vu, of p] by (auto simp: serving_def)
  then show ?thesis
    using rx_loop_step [OF assms(4), of P d True d1 t n] round same_link_trans [OF su t(2)] by auto
qed

lemma rx_loop_payload:
  assumes laws: "rx_laws P view"
  shows "decoder_feed expansion_decoder_push ExpansionDecodeNeedMore d bs =
           (map (\<lambda>p. ExpansionDecodeFrameReady (data_frame p)) ps, d') \<Longrightarrow>
         view (world s) = (bs @ i, q, out) \<Longrightarrow> serving s \<Longrightarrow>
         list_all (\<lambda>p. length p \<le> 64) ps \<Longrightarrow> length q + length (concat ps) \<le> 8192 \<Longrightarrow>
         \<exists>t. run_state (rx_loop P (length bs + n) d) s = run_state (rx_loop P n d') t \<and>
             same_link s t \<and>
             view (world t) = (i, q @ concat ps, out @
               concat (map (\<lambda>p. encoded_frame (StatusFrame ExpansionFrameErrorNone)) ps))"
proof (induction bs arbitrary: d ps s q out)
  case Nil
  then show ?case by auto
next
  case (Cons b bs)
  obtain v d1 where push: "expansion_decoder_push d b = (v, d1)" by fastforce
  have input: "view (world s) = (b # bs @ i, q, out)" using Cons.prems(2) by simp
  show ?case
  proof (cases "v = ExpansionDecodeNeedMore")
    case True
    with push Cons.prems(1) have rest: "decoder_feed expansion_decoder_push ExpansionDecodeNeedMore
        d1 bs = (map (\<lambda>p. ExpansionDecodeFrameReady (data_frame p)) ps, d')"
      by (auto simp: Let_def split: prod.splits)
    obtain u where u: "run_state (rx_loop P (length (b # bs) + n) d) s =
        run_state (rx_loop P (length bs + n) d1) u" "same_link s u" "view (world u) = (bs @ i, q, out)"
      using rx_loop_more [OF laws push [unfolded True] input Cons.prems(3), of "length bs + n"]
      by auto
    from Cons.IH [OF rest u(3) serving_same_link [OF Cons.prems(3) u(2)] Cons.prems(4,5)]
    show ?thesis using u(1,2) by (auto intro: same_link_trans)
  next
    case False
    with push Cons.prems(1) obtain p ps' where ps: "ps = p # ps'"
      and v: "v = ExpansionDecodeFrameReady (data_frame p)"
      and rest: "decoder_feed expansion_decoder_push ExpansionDecodeNeedMore
        d1 bs = (map (\<lambda>p. ExpansionDecodeFrameReady (data_frame p)) ps', d')"
      by (auto simp: Let_def Cons_eq_map_conv split: prod.splits)
    have fits: "length p \<le> 64" "length q + length p \<le> 8192" "list_all (\<lambda>p. length p \<le> 64) ps'"
      "length (q @ p) + length (concat ps') \<le> 8192"
      using Cons.prems(4,5) by (simp_all add: ps)
    obtain t where t: "run_state (rx_loop P (length (b # bs) + n) d) s =
        run_state (rx_loop P (length bs + n) d1) t" "same_link s t"
      "view (world t) = (bs @ i, q @ p, out @ encoded_frame (StatusFrame ExpansionFrameErrorNone))"
      using rx_loop_data_frame [OF laws push [unfolded v] input Cons.prems(3) fits(1,2),
          of "length bs + n"] by auto
    from Cons.IH [OF rest t(3) serving_same_link [OF Cons.prems(3) t(2)] fits(3,4)]
    show ?thesis using t(1,2) by (auto simp: ps intro: same_link_trans)
  qed
qed

section \<open>Properties\<close>

text \<open>
  C3. Nothing from the Flipper is lost, duplicated or reordered: however the payload is cut
  into data frames, when their bytes arrive during an RPC session and fit the stream
  buffer, the receiver task takes exactly these bytes from the UART, appends exactly the
  payload to the buffer, answers each frame with exactly one "none" status, and keeps
  running with the link untouched.
\<close>

theorem rx_task_delivers:
  assumes "rx_laws P view" and "serving s"
    and "list_all (\<lambda>p. length p \<le> 64) ps" and "length q + length (concat ps) \<le> 8192"
    and "view (world s) = (concat (map (encoded_frame \<circ> data_frame) ps) @ i, q, out)"
  shows "\<exists>t. run_state (rx_loop P (length (concat (map (encoded_frame \<circ> data_frame) ps)))
               expansion_decoder_reset) s = ((False, expansion_decoder_reset), t) \<and>
             machine t = machine s \<and> events t = events s \<and>
             view (world t) = (i, q @ concat ps, out @
               concat (map (\<lambda>p. encoded_frame (StatusFrame ExpansionFrameErrorNone)) ps))"
proof -
  let ?bs = "concat (map (encoded_frame \<circ> data_frame) ps)"
  have "list_all sendable_frame (map data_frame ps)"
    using assms(3) by (auto simp: list_all_iff sendable_data_frame)
  from expansion.stream_decodes [OF this]
  have "decoder_feed expansion_decoder_push ExpansionDecodeNeedMore expansion_decoder_reset ?bs =
        (map (\<lambda>p. ExpansionDecodeFrameReady (data_frame p)) ps, expansion_decoder_reset)"
    by (simp add: comp_def)
  from rx_loop_payload [OF assms(1) this assms(5,2,3,4), of 0] show ?thesis
    by (auto simp: same_link_def)
qed

lemma same_world: "Q (world s) \<Longrightarrow> \<exists>w. s = s\<lparr>world := w\<rparr> \<and> Q w"
  by (rule exI [of _ "world s"]) simp

lemma sim_rx_laws:
  "rx_laws sim_platform (\<lambda>w. (sim_incoming w, sim_queue w, sim_sent w))"
  by (auto simp: rx_laws_def sim_platform_def intro!: same_world)

definition sim_receiving :: "u8 list \<Rightarrow> u8 list \<Rightarrow> sim_world Bridge" where
  "sim_receiving bytes queue =
     sim_bridge ExpansionStateRpcReady (sim_start\<lparr>sim_incoming := bytes, sim_queue := queue\<rparr>)"

theorem rx_task_delivers_witness:
  "\<exists>t. run_state (rx_loop sim_platform
          (length (concat (map (encoded_frame \<circ> data_frame) [[1, 2], [3]]))) expansion_decoder_reset)
        (sim_receiving (concat (map (encoded_frame \<circ> data_frame) [[1, 2], [3]]) @ [9]) [0]) =
        ((False, expansion_decoder_reset), t) \<and>
       sim_incoming (world t) = [9] \<and> sim_queue (world t) = [0, 1, 2, 3] \<and>
       events t = 0"
  using rx_task_delivers [OF sim_rx_laws, of
      "sim_receiving (concat (map (encoded_frame \<circ> data_frame) [[1, 2], [3]]) @ [9]) [0]"
      "[[1, 2], [3]]" "[0]" "[9]" "[]"]
  by (auto simp: sim_receiving_def sim_bridge_def sim_start_def serving_def)

text \<open>
  C24. A full buffer never loses payload silently: when a complete data frame arrives that
  does not fit the 8192 bytes of the stream buffer, the buffer keeps what it holds, the
  Flipper is told with an error status, the link is marked as lost and the task ends.
\<close>

theorem rx_task_overflow:
  assumes "rx_laws P view" and "serving s"
    and "length p \<le> 64" and "length q \<le> 8192" and "8192 < length q + length p"
    and "view (world s) = (b # i, q, out)"
    and "expansion_decoder_push d b = (ExpansionDecodeFrameReady (data_frame p), d')"
  shows "\<exists>t. run_state (rx_loop P (Suc n) d) s = ((True, d'), t) \<and> link_lost t \<and>
             view (world t) = (i, q, out @ encoded_frame (StatusFrame ExpansionFrameErrorUnknown))"
proof -
  obtain u where round: "run_state (rx_round P d) s =
      (case run_state (rx_frame P (data_frame p)) u of (go, t) \<Rightarrow> ((go, d'), t))"
    and "same_link s u" and vu: "view (world u) = (i, q, out)"
    by (rule rx_round_frame [OF assms(1,6,7)])
  have "sm_state (machine u) = ExpansionStateRpcReady"
    using assms(2) \<open>same_link s u\<close> by (simp add: serving_def same_link_def)
  from rx_data_refused [OF assms(1) vu this assms(3,4,5)] obtain t where
    "run_state (rx_frame P (data_frame p)) u = (False, t)" and "link_lost t"
    and "view (world t) = (i, q, out @ encoded_frame (StatusFrame ExpansionFrameErrorUnknown))"
    by blast
  with rx_loop_step [OF assms(2), of P d False d' t n] round show ?thesis by auto
qed

lemma push_last_byte:
  "expansion_decoder_push
     (snd (decoder_feed expansion_decoder_push ExpansionDecodeNeedMore expansion_decoder_reset [5, 1, 7])) 3 =
   (ExpansionDecodeFrameReady (data_frame [7]), expansion_decoder_reset)"
  by code_simp

theorem rx_task_overflow_witness:
  "\<exists>t. run_state (rx_loop sim_platform (Suc 0)
          (snd (decoder_feed expansion_decoder_push ExpansionDecodeNeedMore
                  expansion_decoder_reset [5, 1, 7])))
        (sim_receiving [3] (replicate 8192 0)) = ((True, expansion_decoder_reset), t) \<and>
       link_lost t \<and> sim_queue (world t) = replicate 8192 0"
  using rx_task_overflow [OF sim_rx_laws _ _ _ _ _ push_last_byte, of
      "sim_receiving [3] (replicate 8192 0)" "replicate 8192 0" "[]" "[]" 0]
  by (auto simp: sim_receiving_def sim_bridge_def sim_start_def serving_def)

section \<open>The heartbeat\<close>


lemma sim_delay:
  "\<exists>w. vTaskDelay sim_platform n s = s\<lparr>world := w\<rparr> \<and>
     (sim_incoming w, sim_queue w, sim_sent w) =
     (sim_incoming (world s), sim_queue (world s), sim_sent (world s))"
  by (rule exI [of _ "(world s)\<lparr>sim_clock := sim_clock (world s) + int n * 1000\<rparr>"])
     (simp add: sim_platform_def sim_wait_def)


end
