(* ===== verification/Rpc_Proxy.thy ===== *)
theory Rpc_Proxy
  imports Simulated_Network Transport_Receiving
begin

text \<open>
  \<open>rpc_proxy.h\<close> and \<open>rpc_proxy.c\<close>: the two directions of a proxy session. The task of the
  client forwards what the socket receives to the Flipper; a second task forwards what the
  Flipper sends to the socket. They meet in the bits of the proxy's event group.

  The loops take the number of rounds they may run. None is the answer of a loop that used
  them up, and of a call that never returns.
\<close>

unbundle bit_operations_syntax

section \<open>Operations\<close>

definition PROXY_WRITER_DONE_BIT :: u32 where [simp]: "PROXY_WRITER_DONE_BIT = 1"
definition PROXY_STOP_BIT :: u32 where [simp]: "PROXY_STOP_BIT = 2"

definition proxy_bit :: "u32 \<Rightarrow> (('w, 'x) Endpoint_scheme, bool) state" where
  "proxy_bit b = on_bridge (gets (\<lambda>s. proxy_events s AND b \<noteq> 0))"

definition set_proxy_bit :: "u32 \<Rightarrow> (('w, 'x) Endpoint_scheme, unit) state" where
  "set_proxy_bit b = on_bridge (modify (\<lambda>s. s\<lparr>proxy_events := proxy_events s OR b\<rparr>))"

text \<open>One round answers whether the loop goes on.\<close>

definition proxy_writer_round ::
    "'w platform \<Rightarrow> 'w network \<Rightarrow> int \<Rightarrow> bool \<Rightarrow> ('w Endpoint, bool option) state" where
  "proxy_writer_round P N socket_fd transport = do {
     (error, bytes) \<leftarrow> on_bridge (expansion_transport_receive_rpc P transport BRIDGE_TCP_READ_BYTES 100);
     if error = ESP_OK then do {
       result \<leftarrow> send_all P N socket_fd bytes;
       ret (map_option (\<lambda>e. e = ESP_OK) result)
     } else ret (Some (error = ESP_ERR_TIMEOUT))
   }"

fun proxy_writer_loop ::
    "'w platform \<Rightarrow> 'w network \<Rightarrow> int \<Rightarrow> bool \<Rightarrow> nat \<Rightarrow> ('w Endpoint, unit option) state" where
  "proxy_writer_loop P N socket_fd transport 0 = ret None"
| "proxy_writer_loop P N socket_fd transport (Suc fuel) = do {
     stop \<leftarrow> proxy_bit PROXY_STOP_BIT;
     if stop then ret (Some ())
     else do {
       continue \<leftarrow> proxy_writer_round P N socket_fd transport;
       case continue of
         None \<Rightarrow> ret None
       | Some True \<Rightarrow> proxy_writer_loop P N socket_fd transport fuel
       | Some False \<Rightarrow> ret (Some ())
     }
   }"

definition proxy_writer_task ::
    "'w platform \<Rightarrow> 'w network \<Rightarrow> int \<Rightarrow> bool \<Rightarrow> nat \<Rightarrow> ('w Endpoint, unit option) state" where
  "proxy_writer_task P N socket_fd transport fuel = do {
     ended \<leftarrow> proxy_writer_loop P N socket_fd transport fuel;
     case ended of
       None \<Rightarrow> ret None
     | Some _ \<Rightarrow> do {
         stop \<leftarrow> proxy_bit PROXY_STOP_BIT;
         do_if (\<not> stop) (on_bridge (device_do (socket_shutdown N socket_fd)));
         set_proxy_bit PROXY_WRITER_DONE_BIT;
         ret (Some ())
       }
   }"

fun proxy_forward ::
    "'w platform \<Rightarrow> 'w network \<Rightarrow> int \<Rightarrow> bool \<Rightarrow> nat \<Rightarrow> esp_err \<Rightarrow>
     (('w, 'x) Endpoint_scheme, esp_err option) state" where
  "proxy_forward P N socket_fd transport 0 result = ret None"
| "proxy_forward P N socket_fd transport (Suc fuel) result =
     (if result \<noteq> ESP_OK then ret (Some result)
      else do {
        finished \<leftarrow> proxy_bit PROXY_WRITER_DONE_BIT;
        if finished then ret (Some result)
        else do {
          received \<leftarrow> receive_from N socket_fd BRIDGE_TCP_READ_BYTES;
          case received of
            Received bytes \<Rightarrow>
              if bytes = [] then ret (Some result)
              else do {
                on_bridge (count_metric P (\<lambda>e. bridge_metrics_add_tcp_rx e (length bytes)));
                result \<leftarrow> on_bridge (expansion_transport_send_rpc P transport bytes);
                proxy_forward P N socket_fd transport fuel result
              }
          | RecvInterrupted \<Rightarrow> proxy_forward P N socket_fd transport fuel result
          | RecvTimeout \<Rightarrow> proxy_forward P N socket_fd transport fuel result
          | RecvFailed \<Rightarrow> proxy_forward P N socket_fd transport fuel ESP_FAIL
        }
      })"

text \<open>The end of a session: stop the writer, wait for it, and end the RPC session.\<close>

definition proxy_finish ::
    "'w platform \<Rightarrow> 'w network \<Rightarrow> int \<Rightarrow> bool \<Rightarrow> esp_err \<Rightarrow> (('w, 'x) Endpoint_scheme, esp_err) state"
where
  "proxy_finish P N socket_fd transport result = do {
     set_proxy_bit PROXY_STOP_BIT;
     on_bridge (device_do (socket_shutdown N socket_fd));
     on_bridge (modify (proxy_done_wait N));
     on_bridge (device_do (delete_event_group N));
     stop_error \<leftarrow> on_bridge (expansion_transport_end_rpc P transport);
     ret (if result = ESP_OK \<and> stop_error \<noteq> ESP_OK \<and> stop_error \<noteq> ESP_ERR_INVALID_STATE
          then stop_error else result)
   }"

definition rpc_proxy_run ::
    "'w platform \<Rightarrow> 'w network \<Rightarrow> nat \<Rightarrow> int \<Rightarrow> bool \<Rightarrow> u8 list \<Rightarrow>
     (('w, 'x) Endpoint_scheme, esp_err option) state" where
  "rpc_proxy_run P N fuel socket_fd transport initial_bytes =
     (if socket_fd < 0 \<or> \<not> transport then ret (Some ESP_ERR_INVALID_ARG)
      else do {
        state \<leftarrow> on_bridge (expansion_transport_state transport);
        if state \<noteq> ExpansionStateRpcReady then ret (Some ESP_ERR_INVALID_STATE)
        else do {
          created \<leftarrow> on_bridge (device (create_event_group N));
          if \<not> created then do {
            on_bridge (expansion_transport_end_rpc P transport);
            ret (Some ESP_ERR_NO_MEM)
          } else do {
            on_bridge (modify (\<lambda>s. s\<lparr>proxy_events := 0\<rparr>));
            writer \<leftarrow> on_bridge (device (create_task P ''rpc_to_tcp''));
            if \<not> writer then do {
              on_bridge (device_do (delete_event_group N));
              on_bridge (expansion_transport_end_rpc P transport);
              ret (Some ESP_ERR_NO_MEM)
            } else do {
              result \<leftarrow> if length initial_bytes > 0
                       then on_bridge (expansion_transport_send_rpc P transport initial_bytes)
                       else ret ESP_OK;
              forwarded \<leftarrow> proxy_forward P N socket_fd transport fuel result;
              case forwarded of
                None \<Rightarrow> ret None
              | Some result \<Rightarrow> do {
                  result \<leftarrow> proxy_finish P N socket_fd transport result;
                  ret (Some result)
                }
            }
          }
        }
      })"

section \<open>From the socket to the Flipper\<close>

text \<open>
  The laws of the calls around the two loops: none of them writes to the UART, the tasks
  that run meanwhile send only status frames and heartbeats, and \<open>uart_wait_tx_done\<close> answers
  one of its three documented codes.
\<close>

definition proxy_laws :: "'w platform \<Rightarrow> 'w network \<Rightarrow> ('w \<Rightarrow> u8 list) \<Rightarrow> bool" where
  "proxy_laws P N sent \<longleftrightarrow> uart_laws P sent \<and>
     (\<forall>w. sent (stream_reset P w) = sent w) \<and>
     (\<forall>w. sent (snd (create_event_group N w)) = sent w) \<and>
     (\<forall>w. sent (delete_event_group N w) = sent w) \<and>
     (\<forall>name w. sent (snd (create_task P name w)) = sent w) \<and>
     (\<forall>fd w. sent (socket_shutdown N fd w) = sent w) \<and>
     (\<forall>fd n s. traffic sent s (snd (socket_recv N fd n s)) []) \<and>
     (\<forall>s. traffic sent s (proxy_done_wait N s) []) \<and>
     (\<forall>n s. fst (uart_wait_tx_done P n s) \<in> {ESP_OK, ESP_FAIL, ESP_ERR_TIMEOUT})"

lemma proxy_lawsD:
  assumes "proxy_laws P N sent"
  shows "uart_laws P sent" and "sent (stream_reset P w) = sent w"
    and "create_event_group N w = (b, w') \<Longrightarrow> sent w' = sent w"
    and "sent (delete_event_group N w) = sent w"
    and "create_task P name w = (b, w') \<Longrightarrow> sent w' = sent w"
    and "sent (socket_shutdown N fd w) = sent w"
    and "socket_recv N fd n s = (r, t) \<Longrightarrow> traffic sent s t []"
    and "traffic sent s (proxy_done_wait N s) []"
    and "uart_wait_tx_done P n s = (e, t) \<Longrightarrow> e \<noteq> ESP_ERR_INVALID_STATE"
  using assms unfolding proxy_laws_def
  by simp_all (metis fst_conv snd_conv esp_err.distinct insertE singletonD)+

text \<open>The payload of the foreground frames since a state.\<close>

definition forwarded :: "('w \<Rightarrow> u8 list) \<Rightarrow> 'w Bridge \<Rightarrow> 'w Bridge \<Rightarrow> u8 list \<Rightarrow> bool" where
  "forwarded sent s t payload \<longleftrightarrow>
     (\<exists>fs. traffic sent s t fs \<and> concat (map frame_payload fs) = payload)"

lemma forwarded_quiet:
  "forwarded sent s0 s p \<Longrightarrow> traffic sent s t [] \<Longrightarrow> forwarded sent s0 t p"
  unfolding forwarded_def using traffic_quiet by blast

lemma forwarded_same:
  "forwarded sent s0 s p \<Longrightarrow> sent (world t) = sent (world s) \<Longrightarrow> forwarded sent s0 t p"
  unfolding forwarded_def using traffic_same by blast

lemma forwarded_fields [simp]:
  "forwarded sent s0 (s\<lparr>metrics := m\<rparr>) p = forwarded sent s0 s p"
  "forwarded sent s0 (s\<lparr>proxy_events := b\<rparr>) p = forwarded sent s0 s p"
  by (simp_all add: forwarded_def traffic_def)

lemma forwarded_world:
  "sent w = sent (world s) \<Longrightarrow> forwarded sent s0 (s\<lparr>world := w\<rparr>) p = forwarded sent s0 s p"
  by (simp add: forwarded_def traffic_def)

lemma forwarded_refl: "forwarded sent s s []"
  unfolding forwarded_def by (rule exI [of _ "[]"]) (simp add: traffic_refl)

lemma send_rpc_forwards:
  assumes "uart_laws P sent" and "forwarded sent s0 s p"
  shows "wp (expansion_transport_send_rpc P True bytes)
           (\<lambda>e t. e = ESP_OK \<longrightarrow> forwarded sent s0 t (p @ bytes)) s"
proof -
  from assms(2) obtain fs where fs: "traffic sent s0 s fs" "concat (map frame_payload fs) = p"
    unfolding forwarded_def by blast
  have "forwarded sent s0 t (p @ bytes)"
    if "traffic sent s0 t (fs @ map data_frame (chunks_of bytes))" for t
    using that fs(2) data_frames_payload [of bytes] unfolding forwarded_def
    by (intro exI [of _ "fs @ map data_frame (chunks_of bytes)"]) simp
  then show ?thesis
    by (intro wp_mono [OF send_rpc_traffic [OF assms(1) fs(1)]]) (simp split: if_splits)
qed

lemma end_rpc_forwards:
  assumes laws: "proxy_laws P N sent" and "forwarded sent s0 s p"
  shows "wp (expansion_transport_end_rpc P True)
           (\<lambda>e t. e \<in> {ESP_OK, ESP_ERR_INVALID_STATE} \<longrightarrow> forwarded sent s0 t p) s"
proof -
  from assms(2) obtain fs where fs: "traffic sent s0 s fs" "concat (map frame_payload fs) = p"
    unfolding forwarded_def by blast
  let ?s = "s\<lparr>machine := (machine s)\<lparr>sm_state := ExpansionStateStoppingRpc\<rparr>\<rparr>"
  have frame: "wp (send_frame P f) (\<lambda>e t. e \<noteq> ESP_ERR_INVALID_STATE) u" for f u
    using proxy_lawsD(9) [OF laws]
    by (auto simp: send_frame_def mark_tx_activity_def split: option.splits prod.splits)
  have request: "wp (send_wait_status P f) (\<lambda>r t. fst r \<noteq> ESP_ERR_INVALID_STATE) u" for f u
    by (auto simp: send_wait_status_def intro!: wp_mono [OF frame] split: prod.splits)
  have errors: "wp (control_request P c e) (\<lambda>r t. r \<noteq> ESP_ERR_INVALID_STATE) u" for c e u
    by (auto simp: control_request_def signal_link_lost_def intro!: wp_mono [OF request]
        split: prod.splits)
  have stopped: "forwarded sent s0 u p" if "traffic sent s0 u (fs @ [ControlFrame c])" for u c
    unfolding forwarded_def using that fs(2)
    by (intro exI [of _ "fs @ [ControlFrame c]"]) simp
  have handshake: "wp (control_request P ExpansionControlStopRpc ExpansionEventRpcStopped)
      (\<lambda>e t. e \<in> {ESP_OK, ESP_ERR_INVALID_STATE} \<longrightarrow> e = ESP_OK \<and> forwarded sent s0 t p) ?s"
  proof (rule wp_both [OF _ errors])
    show "wp (control_request P ExpansionControlStopRpc ExpansionEventRpcStopped)
        (\<lambda>e t. e = ESP_OK \<longrightarrow> traffic sent s0 t (fs @ [ControlFrame ExpansionControlStopRpc])) ?s"
      by (rule wp_mono [OF control_request_spec [OF proxy_lawsD(1) [OF laws], of _ s0 ?s fs]])
         (use fs(1) in \<open>auto split: if_splits\<close>)
  qed (auto intro: stopped)
  have reset: "forwarded sent s0 (u\<lparr>world := stream_reset P (world u)\<rparr>) p"
    if "forwarded sent s0 u p" for u
    by (rule forwarded_same [OF that]) (simp add: proxy_lawsD(2) [OF laws])
  show ?thesis
  proof (cases "sm_state (machine s) = ExpansionStateRpcReady")
    case True
    then show ?thesis
      by (auto simp: expansion_transport_end_rpc_def apply_simps
          simp del: ExpansionControlStopRpc_def intro!: wp_mono [OF handshake] reset)
  qed (simp add: expansion_transport_end_rpc_def assms(2))
qed

text \<open>What a run has forwarded: what it was given, and what it received since.\<close>

definition session_forwarded ::
    "('w \<Rightarrow> u8 list) \<Rightarrow> 'w Bridge \<Rightarrow> u8 list \<Rightarrow> u8 list \<Rightarrow> ('w, 'x) Endpoint_scheme \<Rightarrow> bool" where
  "session_forwarded sent s0 initial before e \<longleftrightarrow>
     (\<exists>new. got e = before @ new \<and> forwarded sent s0 (bridge e) (initial @ new))"

lemma session_forwarded_step:
  assumes "session_forwarded sent s0 initial before e"
    and "\<And>p. forwarded sent s0 (bridge e) p \<Longrightarrow> forwarded sent s0 s (p @ bs)"
  shows "session_forwarded sent s0 initial before (e\<lparr>bridge := s, got := got e @ bs\<rparr>)"
  using assms unfolding session_forwarded_def by fastforce

lemma session_forwarded_bridge:
  assumes "session_forwarded sent s0 initial before e"
    and "\<And>p. forwarded sent s0 (bridge e) p \<Longrightarrow> forwarded sent s0 s p"
  shows "session_forwarded sent s0 initial before (e\<lparr>bridge := s\<rparr>)"
  using assms unfolding session_forwarded_def by fastforce

lemma wp_on_bridge_forwards:
  assumes "session_forwarded sent s0 initial before e"
    and "\<And>p. forwarded sent s0 (bridge e) p \<Longrightarrow>
           wp m (\<lambda>r t. ok r \<longrightarrow> forwarded sent s0 t (p @ bs)) (bridge e)"
  shows "wp m (\<lambda>r t. ok r \<longrightarrow> session_forwarded sent s0 initial before
           (e\<lparr>bridge := t, got := got e @ bs\<rparr>)) (bridge e)"
proof -
  from assms(1) obtain new where "got e = before @ new"
    and "forwarded sent s0 (bridge e) (initial @ new)"
    unfolding session_forwarded_def by blast
  with assms(2) [OF this(2)] show ?thesis
    by (auto simp: session_forwarded_def elim!: wp_mono)
qed

lemma proxy_forward_forwards:
  assumes laws: "proxy_laws P N sent"
    and "result = ESP_OK \<longrightarrow> session_forwarded sent s0 initial before e"
  shows "wp (proxy_forward P N fd True fuel result)
     (\<lambda>r e'. r = Some ESP_OK \<longrightarrow> session_forwarded sent s0 initial before e') e"
  using assms(2)
proof (induction fuel arbitrary: result e)
  case (Suc fuel)
  show ?case
  proof (cases "result = ESP_OK")
    case True
    with Suc.prems have now: "session_forwarded sent s0 initial before e" by simp
    obtain r s where recv: "socket_recv N fd BRIDGE_TCP_READ_BYTES (bridge e) = (r, s)" by fastforce
    have quiet: "session_forwarded sent s0 initial before (e\<lparr>bridge := s\<rparr>)"
      using now by (rule session_forwarded_bridge)
         (blast intro: forwarded_quiet proxy_lawsD(7) [OF laws recv])
    have sent: "wp (expansion_transport_send_rpc P True bs)
        (\<lambda>r t. r = ESP_OK \<longrightarrow> session_forwarded sent s0 initial before
           (e\<lparr>got := got e @ bs, bridge := t\<rparr>)) (s\<lparr>metrics := m\<rparr>)" for bs m
    proof -
      have "session_forwarded sent s0 initial before (e\<lparr>bridge := s\<lparr>metrics := m\<rparr>\<rparr>)"
        using quiet by (simp add: session_forwarded_def)
      from wp_on_bridge_forwards [OF this, of "expansion_transport_send_rpc P True bs"
          "\<lambda>r. r = ESP_OK" bs] send_rpc_forwards [OF proxy_lawsD(1) [OF laws]]
      show ?thesis by (simp add: session_forwarded_def)
    qed
    show ?thesis
      using now quiet True recv
      by (auto simp: proxy_bit_def intro!: Suc.IH wp_mono [OF sent]
          simp del: BRIDGE_TCP_READ_BYTES_def split: recv_result.split)
  qed simp
qed simp

lemma proxy_finish_forwards:
  assumes laws: "proxy_laws P N sent"
    and "result = ESP_OK \<longrightarrow> session_forwarded sent s0 initial before e"
  shows "wp (proxy_finish P N fd True result)
     (\<lambda>r e'. r = ESP_OK \<longrightarrow> session_forwarded sent s0 initial before e') e"
proof (cases "result = ESP_OK")
  case True
  let ?s = "proxy_done_wait N ((bridge e)\<lparr>proxy_events := proxy_events (bridge e) OR 2,
      world := socket_shutdown N fd (world (bridge e))\<rparr>)"
  let ?t = "?s\<lparr>world := delete_event_group N (world ?s)\<rparr>"
  have "session_forwarded sent s0 initial before (e\<lparr>bridge := ?s\<rparr>)"
    by (rule session_forwarded_bridge, use True assms(2) in blast,
        rule forwarded_quiet [OF _ proxy_lawsD(8) [OF laws]])
       (simp add: forwarded_world proxy_lawsD(6) [OF laws])
  then have "session_forwarded sent s0 initial before (e\<lparr>bridge := ?t\<rparr>)"
    by (simp add: session_forwarded_def forwarded_world proxy_lawsD(4) [OF laws])
  from wp_on_bridge_forwards [OF this, of "expansion_transport_end_rpc P True"
      "\<lambda>r. r \<in> {ESP_OK, ESP_ERR_INVALID_STATE}" "[]"] end_rpc_forwards [OF laws]
  have "wp (expansion_transport_end_rpc P True) (\<lambda>r t. r \<in> {ESP_OK, ESP_ERR_INVALID_STATE} \<longrightarrow>
      session_forwarded sent s0 initial before (e\<lparr>bridge := t\<rparr>)) ?t"
    by simp
  with True show ?thesis
    by (auto simp: proxy_finish_def set_proxy_bit_def elim!: wp_mono)
next
  case False
  then show ?thesis
    by (auto simp: proxy_finish_def set_proxy_bit_def intro!: wp_mono [OF wp_trivial])
qed

text \<open>
  C5. A proxy session forwards everything the client sends, once and in order: when
  \<open>rpc_proxy_run\<close> reports success, the payload of the frames it put on the UART is the bytes
  left over from the management phase followed by every byte the socket delivered during the
  session, whatever the Flipper and the other tasks did meanwhile; and it does not succeed
  without the link being in the RPC state.
\<close>

theorem rpc_proxy_forwards:
  assumes laws: "proxy_laws P N sent"
    and "run_state (rpc_proxy_run P N fuel fd True initial) e = (Some ESP_OK, e')"
  shows "sm_state (machine (bridge e)) = ExpansionStateRpcReady \<and>
    (\<exists>new fs. got e' = got e @ new \<and> traffic sent (bridge e) (bridge e') fs \<and>
       concat (map frame_payload fs) = initial @ new)"
proof (cases "sm_state (machine (bridge e)) = ExpansionStateRpcReady")
  case False
  have "wp (rpc_proxy_run P N fuel fd True initial) (\<lambda>r _. r \<noteq> Some ESP_OK) e"
    using False by (simp add: rpc_proxy_run_def)
  from wpD [OF this assms(2)] show ?thesis by simp
next
  case True
  let ?F = "session_forwarded sent (bridge e) initial (got e)"
  have start: "wp (expansion_transport_send_rpc P True initial)
      (\<lambda>r t. r = ESP_OK \<longrightarrow> ?F (e\<lparr>bridge := t\<rparr>)) u"
    if "forwarded sent (bridge e) u []" for u
    using send_rpc_forwards [OF proxy_lawsD(1) [OF laws] that, of initial]
    by (auto simp: session_forwarded_def elim!: wp_mono)
  have base: "?F (e\<lparr>bridge := u\<rparr>)" if "forwarded sent (bridge e) u []" and "initial = []" for u
    using that by (simp add: session_forwarded_def)
  have opened: "forwarded sent (bridge e) ((bridge e)\<lparr>world := w', proxy_events := b\<rparr>) []"
      "forwarded sent (bridge e) ((bridge e)\<lparr>proxy_events := b, world := w'\<rparr>) []"
    if "create_event_group N (world (bridge e)) = (x, w)" and "create_task P name w = (y, w')"
    for w w' x y b name
    using proxy_lawsD(3) [OF laws that(1)] proxy_lawsD(5) [OF laws that(2)]
    by (simp_all add: forwarded_refl forwarded_world)
  have "wp (rpc_proxy_run P N fuel fd True initial) (\<lambda>r e'. r = Some ESP_OK \<longrightarrow> ?F e') e"
    using True start base opened
    by (auto simp: rpc_proxy_run_def
        intro!: wp_mono [OF wp_trivial [where m = "expansion_transport_end_rpc P True"]]
          wp_mono [OF start] wp_mono [OF proxy_forward_forwards [OF laws, where ?s0.0 = "bridge e"
            and initial = initial and before = "got e"]]
          wp_mono [OF proxy_finish_forwards [OF laws, where ?s0.0 = "bridge e"
            and initial = initial and before = "got e"]]
        split: prod.splits option.splits)
  from wpD [OF this assms(2)] True show ?thesis
    by (auto simp: session_forwarded_def forwarded_def)
qed

lemma sim_proxy_laws: "proxy_laws sim_platform sim_network sim_sent"
  unfolding proxy_laws_def
  by (auto simp: sim_uart_laws)
     (auto simp: sim_platform_def sim_network_def intro!: traffic_refl split: list.splits)

text \<open>On the simulated platform every request is acknowledged.\<close>

lemma sim_send_wait_status:
  assumes "sendable_frame f"
  shows "\<exists>t. run_state (send_wait_status sim_platform f) s =
       ((ESP_OK, ExpansionFrameErrorNone), t) \<and> machine t = machine s \<and>
       proxy_events t = proxy_events s \<and> sim_socket (world t) = sim_socket (world s)"
  using encode_frame_capacity [OF assms]
  by (simp add: send_wait_status_def send_frame_def sim_platform_def mark_tx_activity_def
      device_def device_do_def blocking_def count_metric_def do_if_def)

lemma sim_send_rpc:
  assumes "sm_state (machine s) = ExpansionStateRpcReady" and "length bytes \<le> 64"
  shows "\<exists>t. run_state (expansion_transport_send_rpc sim_platform True bytes) s = (ESP_OK, t) \<and>
       machine t = machine s \<and> proxy_events t = proxy_events s \<and>
       sim_socket (world t) = sim_socket (world s)"
proof (cases "bytes = []")
  case False
  obtain t where "run_state (send_wait_status sim_platform (data_frame bytes)) s =
      ((ESP_OK, ExpansionFrameErrorNone), t)" "machine t = machine s"
      "proxy_events t = proxy_events s" "sim_socket (world t) = sim_socket (world s)"
    using sim_send_wait_status [OF sendable_data_frame [OF assms(2)]] by blast
  with False assms show ?thesis
    by (simp add: expansion_transport_send_rpc_def expansion_transport_state_def
        send_chunks.simps [of _ bytes 0] send_chunks.simps [of _ bytes "length bytes"]
        count_metric_def do_if_def note_transfer_def Let_def)
qed (use assms(1) in \<open>simp add: expansion_transport_send_rpc_def expansion_transport_state_def
        send_chunks.simps do_if_def note_transfer_def\<close>)

lemma sim_end_rpc:
  assumes "sm_state (machine s) = ExpansionStateRpcReady"
  shows "\<exists>t. run_state (expansion_transport_end_rpc sim_platform True) s = (ESP_OK, t)"
proof -
  let ?s = "s\<lparr>machine := (machine s)\<lparr>sm_state := ExpansionStateStoppingRpc\<rparr>\<rparr>"
  obtain t where "run_state (send_wait_status sim_platform (ControlFrame 1)) ?s =
      ((ESP_OK, ExpansionFrameErrorNone), t)" "machine t = machine ?s"
    using sim_send_wait_status [of "ControlFrame 1" ?s] by (auto simp: sendable_control_frame)
  with assms show ?thesis
    by (simp add: expansion_transport_end_rpc_def expansion_transport_state_def
        transport_apply_def control_request_def apply_simps do_if_def device_do_def)
qed

lemma sim_proxy_forward:
  assumes "sm_state (machine (bridge e)) = ExpansionStateRpcReady"
    and "proxy_events (bridge e) = 0" and "sim_socket (world (bridge e)) = segments"
    and "list_all (\<lambda>bs. bs \<noteq> [] \<and> length bs \<le> 64) segments" and "length segments < fuel"
  shows "\<exists>e'. run_state (proxy_forward sim_platform sim_network fd True fuel ESP_OK) e =
       (Some ESP_OK, e') \<and> sm_state (machine (bridge e')) = ExpansionStateRpcReady"
  using assms
proof (induction segments arbitrary: e fuel)
  case Nil
  then show ?case
    by (cases fuel) (auto simp: proxy_bit_def on_bridge_def receive_from_def sim_network_def)
next
  case (Cons bs rest)
  obtain n where fuel: "fuel = Suc n" using Cons.prems(5) by (cases fuel) auto
  let ?s = "(bridge e)\<lparr>world := (world (bridge e))\<lparr>sim_socket := rest\<rparr>,
      metrics := bridge_metrics_add_tcp_rx True (length bs) (metrics (bridge e))\<rparr>"
  obtain t where t: "run_state (expansion_transport_send_rpc sim_platform True bs) ?s = (ESP_OK, t)"
    "machine t = machine ?s" "proxy_events t = proxy_events ?s" "sim_socket (world t) = rest"
    using sim_send_rpc [of ?s bs] Cons.prems by auto
  let ?e = "e\<lparr>got := got e @ bs, bridge := t\<rparr>"
  have "run_state (proxy_forward sim_platform sim_network fd True fuel ESP_OK) e =
      run_state (proxy_forward sim_platform sim_network fd True n ESP_OK) ?e"
    using Cons.prems t(1) unfolding fuel
    by (simp add: proxy_bit_def on_bridge_def receive_from_def sim_network_def count_metric_def
        sim_platform_def)
  with Cons.IH [of ?e n] Cons.prems t fuel show ?case by simp
qed

lemma sim_proxy_run:
  "fst (run_state (rpc_proxy_run sim_platform sim_network 5 3 True [1, 2])
     (sim_endpoint ExpansionStateRpcReady (sim_start\<lparr>sim_socket := [[3], [4, 5]]\<rparr>))) = Some ESP_OK"
proof -
  let ?s = "(sim_bridge ExpansionStateRpcReady (sim_start\<lparr>sim_socket := [[3], [4, 5]]\<rparr>))
      \<lparr>proxy_events := 0\<rparr>"
  have calls: "create_event_group sim_network w = (True, w)"
    "create_task sim_platform name w = (True, w)" "socket_shutdown sim_network fd w = w"
    "delete_event_group sim_network w = w" "proxy_done_wait sim_network = (\<lambda>s. s)" for name fd w
    by (simp_all add: sim_network_def sim_platform_def)
  obtain t where t: "run_state (expansion_transport_send_rpc sim_platform True [1, 2]) ?s = (ESP_OK, t)"
    "sm_state (machine t) = ExpansionStateRpcReady" "proxy_events t = 0"
    "sim_socket (world t) = [[3], [4, 5]]"
    using sim_send_rpc [of ?s "[1, 2]"] by (auto simp: sim_bridge_def)
  obtain e where e: "run_state (proxy_forward sim_platform sim_network 3 True 5 ESP_OK)
      \<lparr>bridge = t, out = [], got = []\<rparr> = (Some ESP_OK, e)"
    "sm_state (machine (bridge e)) = ExpansionStateRpcReady"
    using sim_proxy_forward [of "\<lparr>bridge = t, out = [], got = []\<rparr>" "[[3], [4, 5]]" 5 3] t by auto
  obtain u where u: "run_state (expansion_transport_end_rpc sim_platform True)
      ((bridge e)\<lparr>proxy_events := proxy_events (bridge e) OR 2\<rparr>) = (ESP_OK, u)"
    using sim_end_rpc [of "(bridge e)\<lparr>proxy_events := proxy_events (bridge e) OR 2\<rparr>"] e(2) by auto
  have "run_state (rpc_proxy_run sim_platform sim_network 5 3 True [1, 2])
      (sim_endpoint ExpansionStateRpcReady (sim_start\<lparr>sim_socket := [[3], [4, 5]]\<rparr>)) =
      (Some ESP_OK, e\<lparr>bridge := u\<rparr>)"
    using t(1) e u
    by (simp add: rpc_proxy_run_def proxy_finish_def set_proxy_bit_def sim_endpoint_def
        on_bridge_def device_def device_do_def calls expansion_transport_state_def)
       (simp add: sim_bridge_def)
  then show ?thesis by simp
qed

theorem rpc_proxy_forwards_witness:
  "\<exists>e' new fs. run_state (rpc_proxy_run sim_platform sim_network 5 3 True [1, 2])
       (sim_endpoint ExpansionStateRpcReady (sim_start\<lparr>sim_socket := [[3], [4, 5]]\<rparr>)) =
         (Some ESP_OK, e') \<and>
     got e' = new \<and> concat (map frame_payload fs) = [1, 2] @ new"
proof -
  obtain e' where run: "run_state (rpc_proxy_run sim_platform sim_network 5 3 True [1, 2])
       (sim_endpoint ExpansionStateRpcReady (sim_start\<lparr>sim_socket := [[3], [4, 5]]\<rparr>)) =
         (Some ESP_OK, e')"
    using sim_proxy_run by (metis prod.collapse)
  from rpc_proxy_forwards [OF sim_proxy_laws run] run show ?thesis
    by (auto simp: sim_endpoint_def)
qed

section \<open>From the Flipper to the socket\<close>

text \<open>
  \<open>queue\<close> reads off the outside what the stream buffer holds. A read takes a prefix of at
  most the capacity; while a call blocks, the receiver task may append.
\<close>

definition queue_laws :: "'w platform \<Rightarrow> 'w network \<Rightarrow> ('w \<Rightarrow> u8 list) \<Rightarrow> bool" where
  "queue_laws P N queue \<longleftrightarrow>
     (\<forall>c n s bs t. stream_receive P c n s = (bs, t) \<longrightarrow>
        length bs \<le> c \<and> (\<exists>more. queue (world s) @ more = bs @ queue (world t))) \<and>
     (\<forall>fd bs s. \<exists>more. queue (world (snd (socket_send N fd bs s))) = queue (world s) @ more)"

definition grows :: "('w \<Rightarrow> u8 list) \<Rightarrow> 'w Bridge \<Rightarrow> 'w Bridge \<Rightarrow> bool" where
  "grows queue s t \<longleftrightarrow> (\<exists>more. queue (world t) = queue (world s) @ more)"

lemma socket_write_grows:
  assumes "queue_laws P N queue" and "grows queue s0 (fst c)"
  shows "grows queue s0 (fst (snd (socket_write P N fd c bs)))"
proof -
  obtain s log where c: "c = (s, log)" by fastforce
  obtain more where "queue (world (snd (socket_send N fd bs s))) = queue (world s) @ more"
    using assms(1) unfolding queue_laws_def by blast
  with assms(2) show ?thesis
    by (auto simp: c socket_write_def grows_def split: prod.splits)
qed

lemma send_all_grows:
  assumes laws: "queue_laws P N queue"
  shows "wp (send_all P N fd bytes) (\<lambda>r e'. grows queue (bridge e) (bridge e') \<and>
     (\<exists>k. out e' = out e @ take k bytes \<and> (r = Some ESP_OK \<longrightarrow> k = length bytes))) e"
proof (cases "bridge_io_write_all (socket_write P N fd) (bridge e, out e) bytes")
  case None
  then show ?thesis
    by (auto simp: wp_def send_all_def grows_def intro: exI [of _ 0])
next
  case (Some r)
  then obtain ok s log where r: "bridge_io_write_all (socket_write P N fd) (bridge e, out e)
      bytes = Some (ok, (s, log))"
    by (metis prod_cases3)
  have "grows queue (bridge e) (fst (bridge e, out e))" by (simp add: grows_def)
  from write_all_invariant [where I = "\<lambda>c. grows queue (bridge e) (fst c)",
      OF socket_write_grows [OF laws] this r]
  have "grows queue (bridge e) (fst (s, log))" .
  moreover obtain k where "log = out e @ take k bytes" and "ok \<longleftrightarrow> k = length bytes"
    using socket.write_all_sends [OF r] by auto
  ultimately show ?thesis using r by (auto simp: wp_def send_all_def)
qed

text \<open>The bytes on their way: written, lost in a failed write, and still buffered.\<close>

definition in_order :: "('w \<Rightarrow> u8 list) \<Rightarrow> 'w Endpoint \<Rightarrow> 'w Endpoint \<Rightarrow> u8 list \<Rightarrow> bool" where
  "in_order queue e e' lost \<longleftrightarrow>
     (\<exists>more. out e' @ lost @ queue (world (bridge e')) =
             out e @ queue (world (bridge e)) @ more)"

text \<open>Writing \<open>k\<close> of the bytes taken from the stream keeps the order, with the others lost.\<close>

lemma in_order_written:
  assumes "out e @ bs @ queue (world t) = out e0 @ queue (world (bridge e0)) @ fresh"
    and "grows queue t (bridge e')" and "out e' = out e @ take k bs"
  shows "in_order queue e0 e' (drop k bs)"
proof -
  obtain later where "queue (world (bridge e')) = queue (world t) @ later"
    using assms(2) unfolding grows_def by auto
  then have "out e' @ drop k bs @ queue (world (bridge e')) =
      out e @ bs @ queue (world t) @ later"
    using assms(3) append_take_drop_id [of k bs] by (metis append.assoc)
  also have "\<dots> = out e0 @ queue (world (bridge e0)) @ fresh @ later"
    using assms(1) by (metis append.assoc)
  finally show ?thesis unfolding in_order_def by blast
qed

lemma proxy_writer_round_order:
  assumes laws: "queue_laws P N queue" and "in_order queue e0 e []"
  shows "wp (proxy_writer_round P N fd True) (\<lambda>go e'.
     \<exists>lost. in_order queue e0 e' lost \<and> length lost \<le> BRIDGE_TCP_READ_BYTES \<and>
            (go = Some True \<longrightarrow> lost = [])) e"
proof -
  obtain bs t where rx: "stream_receive P 1024 100 (bridge e) = (bs, t)" by fastforce
  then obtain more where len: "length bs \<le> 1024"
    and q: "queue (world (bridge e)) @ more = bs @ queue (world t)"
    using laws unfolding queue_laws_def by blast
  obtain more0 where o0: "out e @ queue (world (bridge e)) =
      out e0 @ queue (world (bridge e0)) @ more0"
    using assms(2) unfolding in_order_def by auto
  have flow: "out e @ bs @ queue (world t) = out e0 @ queue (world (bridge e0)) @ more0 @ more"
    using q o0 by (metis append.assoc)
  show ?thesis
  proof (cases "bs = []")
    case True
    with flow have "in_order queue e0 (e\<lparr>bridge := t\<rparr>) []" unfolding in_order_def by auto
    with True rx show ?thesis
      by (auto simp: proxy_writer_round_def expansion_transport_receive_rpc_def)
  next
    case False
    have sent: "wp (send_all P N fd bs) (\<lambda>r e'. \<exists>lost. in_order queue e0 e' lost \<and>
        length lost \<le> 1024 \<and> (map_option (\<lambda>e. e = ESP_OK) r = Some True \<longrightarrow> lost = []))
        (e\<lparr>bridge := t\<lparr>led := l\<rparr>\<rparr>)" for l
    proof (rule wp_mono [OF send_all_grows [OF laws]], clarsimp)
      fix r and e' :: "'a Endpoint" and k
      assume "grows queue (t\<lparr>led := l\<rparr>) (bridge e')" and "out e' = out e @ take k bs"
        and "r = Some ESP_OK \<longrightarrow> k = length bs"
      with len flow in_order_written [of e bs queue "t\<lparr>led := l\<rparr>" e0 "more0 @ more" e' k]
      show "\<exists>lost. in_order queue e0 e' lost \<and> length lost \<le> 1024 \<and>
          (r = Some ESP_OK \<longrightarrow> lost = [])"
        by (intro exI [of _ "drop k bs"]) auto
    qed
    show ?thesis
      using False rx
      by (auto simp: proxy_writer_round_def expansion_transport_receive_rpc_def
          intro!: wp_mono [OF sent])
         (rule exI [of _ "[]"], simp)
  qed
qed

lemma proxy_writer_loop_order:
  assumes laws: "queue_laws P N queue" and "in_order queue e0 e []"
  shows "wp (proxy_writer_loop P N fd True fuel) (\<lambda>r e'.
     \<exists>lost. in_order queue e0 e' lost \<and> length lost \<le> BRIDGE_TCP_READ_BYTES) e"
  using assms(2)
proof (induction fuel arbitrary: e)
  case 0
  then show ?case by auto
next
  case (Suc fuel)
  then show ?case
    by (auto simp: proxy_bit_def intro!: wp_mono [OF proxy_writer_round_order [OF laws Suc.prems]]
        split: option.splits bool.splits)
       (rule exI [of _ "[]"], simp)+
qed


lemma sim_queue_laws: "queue_laws sim_platform sim_network sim_queue"
  by (auto simp: queue_laws_def sim_platform_def sim_network_def)


end
