(* ===== verification/Bridge_Server.thy ===== *)
theory Bridge_Server
  imports Rpc_Proxy "HOL-Library.Signed_Division"
begin

text \<open>
  \<open>bridge_server.h\<close> and \<open>bridge_server.c\<close>: one client at a time, its management requests,
  and the step into a proxy session. The variables of \<open>client_task\<close> that the handlers change
  (session, \<open>begin_proxy\<close>) are fields next to the shared state; no other task can see them.
\<close>

unbundle bit_operations_syntax

section \<open>State\<close>

record ClientContext =
  socket_fd :: int
  transport :: bool
  pairing_secret :: "u8 list"

record 'w Client = "'w Endpoint" +
  session :: BridgeSession
  begin_proxy :: bool

type_synonym ('w, 'a) client = "('w Client, 'a) state"

definition claim_client :: "('w, bool) task" where
  "claim_client = do {
     active \<leftarrow> gets client_active;
     modify (\<lambda>s. s\<lparr>client_active := True\<rparr>);
     ret (\<not> active)
   }"

definition release_client :: "('w, unit) task" where
  "release_client = modify (\<lambda>s. s\<lparr>client_active := False\<rparr>)"

definition on_session :: "(BridgeSession \<Rightarrow> bool \<times> BridgeSession) \<Rightarrow> ('w, bool) client" where
  "on_session f = State (\<lambda>c. case f (session c) of (ok, s) \<Rightarrow> (ok, c\<lparr>session := s\<rparr>))"

lemma wp_on_session [simp]:
  "wp (on_session f) Q c = (case f (session c) of (ok, s) \<Rightarrow> Q ok (c\<lparr>session := s\<rparr>))"
  by (simp add: wp_def on_session_def split: prod.splits)

section \<open>Responses\<close>

definition response_to :: "BridgeMessage option \<Rightarrow> BridgeStatus \<Rightarrow> u8 list \<Rightarrow> BridgeMessage" where
  "response_to request status payload =
     \<lparr>msg_version = FLIPFORGE_BRIDGE_PROTOCOL_VERSION,
      msg_command = (case request of Some r \<Rightarrow> msg_command r | None \<Rightarrow> BridgeCommandHello),
      msg_flags = BRIDGE_MANAGEMENT_RESPONSE_FLAG,
      msg_status = status,
      msg_request_id = (case request of Some r \<Rightarrow> msg_request_id r | None \<Rightarrow> 0),
      msg_payload_size = of_nat (length payload),
      msg_payload = payload_array payload\<rparr>"

definition send_response ::
    "'w platform \<Rightarrow> 'w network \<Rightarrow> int \<Rightarrow> BridgeMessage option \<Rightarrow> BridgeStatus \<Rightarrow> u8 list \<Rightarrow>
     (('w, 'x) Endpoint_scheme, esp_err option) state" where
  "send_response P N fd request status payload =
     (if length payload > BRIDGE_MANAGEMENT_MAX_PAYLOAD then ret (Some ESP_ERR_INVALID_SIZE)
      else
        case bridge_message_encode (response_to request status payload)
               (BRIDGE_MANAGEMENT_HEADER_SIZE + BRIDGE_MANAGEMENT_MAX_PAYLOAD) of
          None \<Rightarrow> ret (Some ESP_ERR_INVALID_ARG)
        | Some encoded \<Rightarrow> send_all P N fd encoded)"

text \<open>\<open>snprintf\<close> with the formats of the two reports; numbers are printed in decimal.\<close>

definition digit :: "nat \<Rightarrow> char" where
  "digit n = char_of (48 + n)"

fun decimal :: "nat \<Rightarrow> string" where
  "decimal n = (if n < 10 then [digit n] else decimal (n div 10) @ [digit (n mod 10)])"

declare decimal.simps [simp del]

definition quoted :: "string \<Rightarrow> string" where
  "quoted s = CHR 0x22 # s @ [CHR 0x22]"

definition bridge_info_json :: "u64 \<Rightarrow> bool \<Rightarrow> ExpansionState \<Rightarrow> u32 \<Rightarrow> string" where
  "bridge_info_json uptime_ms wifi link baud =
     ''{'' @ quoted ''product'' @ '':'' @ quoted FLIPFORGE_BRIDGE_PRODUCT @ '','' @
     quoted ''version'' @ '':'' @ quoted FLIPFORGE_BRIDGE_VERSION @ '','' @
     quoted ''protocol'' @ '':'' @ decimal (unat FLIPFORGE_BRIDGE_PROTOCOL_VERSION) @ '','' @
     quoted ''chip'' @ '':'' @ quoted ''ESP32-S2'' @ '','' @
     quoted ''uptime_ms'' @ '':'' @ decimal (unat uptime_ms) @ '','' @
     quoted ''wifi'' @ '':'' @ quoted (if wifi then ''softap'' else ''stopped'') @ '','' @
     quoted ''expansion'' @ '':'' @ quoted (expansion_transport_state_name link) @ '','' @
     quoted ''baud'' @ '':'' @ decimal (unat baud) @ '','' @
     quoted ''rpc_proxy'' @ '':false}''"

definition bridge_status_json ::
    "ExpansionState \<Rightarrow> u32 \<Rightarrow> BridgeMetricsSnapshot \<Rightarrow> string" where
  "bridge_status_json link baud m =
     ''{'' @ quoted ''expansion'' @ '':'' @ quoted (expansion_transport_state_name link) @ '','' @
     quoted ''baud'' @ '':'' @ decimal (unat baud) @ '','' @
     quoted ''tcp_rx'' @ '':'' @ decimal (unat (tcp_rx_bytes m)) @ '','' @
     quoted ''tcp_tx'' @ '':'' @ decimal (unat (tcp_tx_bytes m)) @ '','' @
     quoted ''rpc_rx'' @ '':'' @ decimal (unat (rpc_payload_rx_bytes m)) @ '','' @
     quoted ''rpc_tx'' @ '':'' @ decimal (unat (rpc_payload_tx_bytes m)) @ '','' @
     quoted ''retries'' @ '':'' @ decimal (unat (retries m)) @ '','' @
     quoted ''errors'' @ '':'' @ decimal (unat (protocol_errors m)) @ ''}''"

text \<open>The report is sent unless it does not fit the buffer with its terminator.\<close>

definition send_json ::
    "'w platform \<Rightarrow> 'w network \<Rightarrow> ClientContext \<Rightarrow> BridgeMessage \<Rightarrow> string \<Rightarrow>
     ('w, esp_err option) client" where
  "send_json P N context request json =
     (if length json \<ge> BRIDGE_MANAGEMENT_MAX_PAYLOAD then ret (Some ESP_ERR_INVALID_SIZE)
      else send_response P N (socket_fd context) (Some request) BridgeStatusOk (ascii json))"

definition set_socket_timeouts :: "'w network \<Rightarrow> int \<Rightarrow> 'w \<Rightarrow> 'w" where
  "set_socket_timeouts N fd w =
     (let sec = BRIDGE_TCP_IO_TIMEOUT_MS div 1000; usec = BRIDGE_TCP_IO_TIMEOUT_MS mod 1000 * 1000;
          w = setsockopt N fd (SO_RCVTIMEO sec usec) w;
          w = setsockopt N fd (SO_SNDTIMEO sec usec) w
      in setsockopt N fd (SO_KEEPALIVE 1) w)"

section \<open>Requests\<close>

definition reply ::
    "'w platform \<Rightarrow> 'w network \<Rightarrow> ClientContext \<Rightarrow> BridgeMessage \<Rightarrow> BridgeStatus \<Rightarrow>
     ('w, esp_err option) client" where
  "reply P N context request status = send_response P N (socket_fd context) (Some request) status []"

definition begin_rpc_proxy ::
    "'w platform \<Rightarrow> 'w network \<Rightarrow> ClientContext \<Rightarrow> BridgeMessage \<Rightarrow> ('w, esp_err option) client" where
  "begin_rpc_proxy P N context request = do {
     state \<leftarrow> if msg_payload_size request \<noteq> 0 then ret ExpansionStateDisconnected
             else on_bridge (expansion_transport_state (transport context));
     if msg_payload_size request \<noteq> 0 \<or> state \<noteq> ExpansionStateReady then do {
       on_bridge (expansion_transport_request_reconnect (transport context));
       reply P N context request BridgeStatusUnavailable
     } else do {
       error \<leftarrow> on_bridge (expansion_transport_begin_rpc P (transport context));
       if error \<noteq> ESP_OK then reply P N context request BridgeStatusUnavailable
       else do {
         began \<leftarrow> on_session bridge_session_begin_proxy;
         if \<not> began then do {
           on_bridge (expansion_transport_end_rpc P (transport context));
           ret (Some ESP_ERR_INVALID_STATE)
         } else do {
           modify (\<lambda>c. c\<lparr>begin_proxy := True\<rparr>);
           response_error \<leftarrow> reply P N context request BridgeStatusOk;
           case response_error of
             None \<Rightarrow> ret None
           | Some error \<Rightarrow> do {
               do_if (error \<noteq> ESP_OK) (do {
                 modify (\<lambda>c. c\<lparr>begin_proxy := False\<rparr>);
                 on_bridge (expansion_transport_end_rpc P (transport context));
                 ret ()
               });
               ret (Some error)
             }
         }
       }
     }
   }"

definition handle_authenticated_command ::
    "'w platform \<Rightarrow> 'w network \<Rightarrow> ClientContext \<Rightarrow> BridgeMessage \<Rightarrow> ('w, esp_err option) client" where
  "handle_authenticated_command P N context request = do {
     state \<leftarrow> gets (\<lambda>c. ss_state (session c));
     if state \<noteq> BridgeSessionAuthenticated then reply P N context request BridgeStatusUnauthorized
     else if msg_command request = BridgeCommandGetBridgeInfo then
       if msg_payload_size request \<noteq> 0 then reply P N context request BridgeStatusMalformed
       else do {
         now \<leftarrow> on_bridge (device (esp_timer_get_time P));
         wifi \<leftarrow> on_bridge (gets wifi_started);
         link \<leftarrow> on_bridge (expansion_transport_state (transport context));
         baud \<leftarrow> on_bridge (expansion_transport_negotiated_baud (transport context));
         send_json P N context request
           (bridge_info_json (of_int (now sdiv 1000)) wifi link baud)
       }
     else if msg_command request = BridgeCommandGetStatus then
       if msg_payload_size request \<noteq> 0 then reply P N context request BridgeStatusMalformed
       else do {
         snapshot \<leftarrow> on_bridge (gets (\<lambda>s. bridge_metrics_snapshot (debug_metrics P) (metrics s)));
         link \<leftarrow> on_bridge (expansion_transport_state (transport context));
         baud \<leftarrow> on_bridge (expansion_transport_negotiated_baud (transport context));
         send_json P N context request (bridge_status_json link baud snapshot)
       }
     else if msg_command request = BridgeCommandPing then
       send_response P N (socket_fd context) (Some request) BridgeStatusOk
         (take (unat (msg_payload_size request)) (msg_payload request))
     else if msg_command request = BridgeCommandBeginRpcProxy then
       begin_rpc_proxy P N context request
     else if msg_command request = BridgeCommandEndRpcProxy then
       if msg_payload_size request \<noteq> 0 then reply P N context request BridgeStatusMalformed
       else reply P N context request BridgeStatusOk
     else reply P N context request BridgeStatusInvalidState
   }"

definition handle_hello ::
    "'w platform \<Rightarrow> 'w network \<Rightarrow> ClientContext \<Rightarrow> BridgeMessage \<Rightarrow> ('w, esp_err option) client" where
  "handle_hello P N context request = do {
     accepted \<leftarrow> if unat (msg_payload_size request) \<noteq> BRIDGE_NONCE_BYTES then ret False
                else on_session (\<lambda>s. bridge_session_accept_hello s (msg_payload request));
     if \<not> accepted then reply P N context request BridgeStatusInvalidState
     else do {
       s \<leftarrow> gets session;
       send_response P N (socket_fd context) (Some request) BridgeStatusOk
         (ss_bridge_nonce s @ ss_session_id s)
     }
   }"

definition handle_authenticate ::
    "'w platform \<Rightarrow> 'w network \<Rightarrow> ClientContext \<Rightarrow> BridgeMessage \<Rightarrow> ('w, esp_err option) client" where
  "handle_authenticate P N context request = do {
     s \<leftarrow> gets session;
     if ss_state s \<noteq> BridgeSessionAwaitingAuthentication \<or>
        unat (msg_payload_size request) \<noteq> BRIDGE_HMAC_BYTES
     then reply P N context request BridgeStatusInvalidState
     else
       let material = (case bridge_session_auth_material s 128 of None \<Rightarrow> [] | Some m \<Rightarrow> m);
           (hmac_error, expected) =
             bridge_auth_hmac_sha256 (hmac_sha256 N) (pairing_secret context) material
       in do {
         valid \<leftarrow> if hmac_error \<noteq> ESP_OK then ret False
                 else on_session (\<lambda>s. bridge_session_authenticate s expected (msg_payload request));
         if \<not> valid then do {
           refused \<leftarrow> reply P N context request BridgeStatusUnauthorized;
           ret (map_option (\<lambda>_. ESP_ERR_INVALID_CRC) refused)
         } else reply P N context request BridgeStatusOk
       }
   }"

definition handle_management_message ::
    "'w platform \<Rightarrow> 'w network \<Rightarrow> ClientContext \<Rightarrow> BridgeMessage \<Rightarrow> ('w, esp_err option) client" where
  "handle_management_message P N context request =
     (if msg_flags request \<noteq> 0 \<or> msg_status request \<noteq> BridgeStatusOk
      then reply P N context request BridgeStatusMalformed
      else if \<not> bridge_protocol_version_supported (msg_version request)
      then reply P N context request BridgeStatusUnsupportedProtocol
      else if msg_command request = BridgeCommandHello then handle_hello P N context request
      else if msg_command request = BridgeCommandAuthenticate
      then handle_authenticate P N context request
      else handle_authenticated_command P N context request)"

section \<open>The client task\<close>

definition hello_request :: BridgeMessage where
  "hello_request =
     \<lparr>msg_version = FLIPFORGE_BRIDGE_PROTOCOL_VERSION, msg_command = BridgeCommandHello,
      msg_flags = 0, msg_status = BridgeStatusOk, msg_request_id = 0, msg_payload_size = 0,
      msg_payload = payload_array []\<rparr>"

lemma push_consumes:
  assumes "bridge_message_decoder_push d bytes = (v, consumed, d')" and "bytes \<noteq> []"
    and "v = BridgeDecodeNeedMore \<or> (\<exists>m. v = BridgeDecodeReady m)"
  shows "0 < consumed"
  using assms
  by (cases bytes) (auto split: if_splits prod.splits BridgeMessageDecodeResult.splits)

text \<open>
  The loop over one received segment. None: a call never returned; \<open>Some None\<close>: the client
  is done; \<open>Some (Some d)\<close>: the segment is used up and \<open>d\<close> waits for the next one.
\<close>

function client_input ::
    "'w platform \<Rightarrow> 'w network \<Rightarrow> nat \<Rightarrow> ClientContext \<Rightarrow> BridgeMessageDecoder \<Rightarrow> u8 list \<Rightarrow>
     ('w, BridgeMessageDecoder option option) client" where
  "client_input P N fuel context decoder input =
     (if input = [] then ret (Some (Some decoder))
      else
        case bridge_message_decoder_push decoder input of
          (BridgeDecodeReady request, consumed, decoder') \<Rightarrow> do {
            handled \<leftarrow> handle_management_message P N context request;
            case handled of
              None \<Rightarrow> ret None
            | Some error \<Rightarrow>
                if error \<noteq> ESP_OK then do {
                  modify (\<lambda>c. c\<lparr>begin_proxy := False\<rparr>);
                  ret (Some None)
                } else do {
                  proxying \<leftarrow> gets begin_proxy;
                  if proxying then do {
                    result \<leftarrow> rpc_proxy_run P N fuel (socket_fd context) (transport context)
                                (drop consumed input);
                    ret (map_option (\<lambda>_. None) result)
                  } else client_input P N fuel context decoder' (drop consumed input)
                }
          }
        | (BridgeDecodeNeedMore, consumed, decoder') \<Rightarrow>
            client_input P N fuel context decoder' (drop consumed input)
        | (BridgeDecodeMalformed, consumed, decoder') \<Rightarrow> do {
            sent \<leftarrow> reply P N context hello_request BridgeStatusMalformed;
            ret (map_option (\<lambda>_. None) sent)
          }
        | (BridgeDecodeTooLarge, consumed, decoder') \<Rightarrow> do {
            sent \<leftarrow> reply P N context hello_request BridgeStatusTooLarge;
            ret (map_option (\<lambda>_. None) sent)
          })"
  by pat_completeness auto
termination
  by (relation "measure (\<lambda>(P, N, fuel, context, decoder, input). length input)")
     (auto dest: push_consumes [OF sym])

declare client_input.simps [simp del]

text \<open>The loop over the segments; \<open>rounds\<close> bounds the calls of \<open>recv\<close>.\<close>

fun client_loop ::
    "'w platform \<Rightarrow> 'w network \<Rightarrow> nat \<Rightarrow> ClientContext \<Rightarrow> nat \<Rightarrow> BridgeMessageDecoder \<Rightarrow> int \<Rightarrow>
     ('w, unit option) client" where
  "client_loop P N fuel context 0 decoder last_activity_us = ret None"
| "client_loop P N fuel context (Suc rounds) decoder last_activity_us = do {
     received \<leftarrow> receive_from N (socket_fd context) BRIDGE_TCP_READ_BYTES;
     case received of
       Received bytes \<Rightarrow>
         if bytes = [] then ret (Some ())
         else do {
           on_bridge (count_metric P (\<lambda>e. bridge_metrics_add_tcp_rx e (length bytes)));
           now \<leftarrow> on_bridge (device (esp_timer_get_time P));
           used \<leftarrow> client_input P N fuel context decoder bytes;
           case used of
             None \<Rightarrow> ret None
           | Some None \<Rightarrow> ret (Some ())
           | Some (Some decoder) \<Rightarrow> client_loop P N fuel context rounds decoder now
         }
     | RecvInterrupted \<Rightarrow> client_loop P N fuel context rounds decoder last_activity_us
     | RecvTimeout \<Rightarrow> do {
         now \<leftarrow> on_bridge (device (esp_timer_get_time P));
         if now - last_activity_us < int BRIDGE_CLIENT_IDLE_TIMEOUT_MS * 1000
         then client_loop P N fuel context rounds decoder last_activity_us
         else ret (Some ())
       }
     | RecvFailed \<Rightarrow> ret (Some ())
   }"

text \<open>
  The task, from the connection to its end; the answer is the context, whose secret is wiped
  before it is freed.
\<close>

definition client_task ::
    "'w platform \<Rightarrow> 'w network \<Rightarrow> nat \<Rightarrow> nat \<Rightarrow> ClientContext \<Rightarrow> ('w, ClientContext option) client"
where
  "client_task P N fuel rounds context = do {
     on_bridge (device_do (set_socket_timeouts N (socket_fd context)));
     bridge_nonce \<leftarrow> on_bridge (device (esp_fill_random N BRIDGE_NONCE_BYTES));
     session_id \<leftarrow> on_bridge (device (esp_fill_random N BRIDGE_SESSION_ID_BYTES));
     modify (\<lambda>c. c\<lparr>session := bridge_session_init bridge_nonce session_id, begin_proxy := False\<rparr>);
     now \<leftarrow> on_bridge (device (esp_timer_get_time P));
     ended \<leftarrow> client_loop P N fuel context rounds bridge_message_decoder_reset now;
     case ended of
       None \<Rightarrow> ret None
     | Some _ \<Rightarrow> do {
         modify (\<lambda>c. c\<lparr>session := bridge_session_close (session c)\<rparr>);
         on_bridge (device_do (socket_shutdown N (socket_fd context)));
         on_bridge (device_do (socket_close N (socket_fd context)));
         on_bridge release_client;
         ret (Some (context\<lparr>pairing_secret := replicate BRIDGE_PAIRING_SECRET_BYTES 0\<rparr>))
       }
   }"

section \<open>The server task\<close>

definition reject_busy_client ::
    "'w platform \<Rightarrow> 'w network \<Rightarrow> int \<Rightarrow> ('w Endpoint, esp_err option) state" where
  "reject_busy_client P N fd = do {
     on_bridge (device_do (set_socket_timeouts N fd));
     sent \<leftarrow> send_response P N fd (Some hello_request) BridgeStatusBusy [];
     case sent of
       None \<Rightarrow> ret None
     | Some error \<Rightarrow> do {
         on_bridge (device_do (socket_shutdown N fd));
         on_bridge (device_do (socket_close N fd));
         ret (Some error)
       }
   }"

text \<open>
  What the server does with a connection it has accepted: the context of the client task it
  started, or none. \<open>Some None\<close>: the client was turned away or could not be served.
\<close>

definition accept_client ::
    "'w platform \<Rightarrow> 'w network \<Rightarrow> bool \<Rightarrow> u8 list \<Rightarrow> int \<Rightarrow>
     ('w Endpoint, ClientContext option option) state" where
  "accept_client P N tr secret client_fd = do {
     claimed \<leftarrow> on_bridge claim_client;
     if \<not> claimed then do {
       rejected \<leftarrow> reject_busy_client P N client_fd;
       ret (map_option (\<lambda>_. None) rejected)
     } else do {
       allocated \<leftarrow> on_bridge (device (calloc P));
       if \<not> allocated then do {
         on_bridge (device_do (socket_close N client_fd));
         on_bridge release_client;
         ret (Some None)
       } else do {
         created \<leftarrow> on_bridge (device (create_task P ''bridge_client''));
         if \<not> created then do {
           on_bridge (device_do (socket_close N client_fd));
           on_bridge release_client;
           ret (Some None)
         } else
           ret (Some (Some \<lparr>socket_fd = client_fd, transport = tr,
             pairing_secret = take BRIDGE_PAIRING_SECRET_BYTES secret\<rparr>))
       }
     }
   }"

text \<open>
  The loop over connections, for a number of them: the contexts of the client tasks that were
  started. None: a write to a client that is turned away never returned.
\<close>

definition await_client :: "'w network \<Rightarrow> int \<Rightarrow> ('w Endpoint, int \<times> bool) state" where
  "await_client N listen_fd = on_bridge (blocking (socket_accept N listen_fd))"

fun server_loop ::
    "'w platform \<Rightarrow> 'w network \<Rightarrow> bool \<Rightarrow> u8 list \<Rightarrow> int \<Rightarrow> nat \<Rightarrow>
     ('w Endpoint, ClientContext list option) state" where
  "server_loop P N tr secret listen_fd 0 = ret (Some [])"
| "server_loop P N tr secret listen_fd (Suc rounds) = do {
     (client_fd, interrupted) \<leftarrow> await_client N listen_fd;
     if client_fd < 0 then do {
       do_if (\<not> interrupted) (on_bridge (pause P 250));
       server_loop P N tr secret listen_fd rounds
     } else do {
       accepted \<leftarrow> accept_client P N tr secret client_fd;
       case accepted of
         None \<Rightarrow> ret None
       | Some started \<Rightarrow> do {
           others \<leftarrow> server_loop P N tr secret listen_fd rounds;
           ret (map_option (\<lambda>cs. (case started of None \<Rightarrow> cs | Some c \<Rightarrow> c # cs)) others)
         }
     }
   }"

text \<open>The task answers what it started and its copy of the secret, wiped if it had to end.\<close>

definition server_task ::
    "'w platform \<Rightarrow> 'w network \<Rightarrow> bool \<Rightarrow> u8 list \<Rightarrow> nat \<Rightarrow>
     ('w Endpoint, ClientContext list option \<times> u8 list) state" where
  "server_task P N tr secret rounds = (
     let wiped = replicate BRIDGE_PAIRING_SECRET_BYTES 0 in do {
       listen_fd \<leftarrow> on_bridge (device (socket_create N));
       if listen_fd < 0 then ret (Some [], wiped)
       else do {
         on_bridge (device_do (setsockopt N listen_fd (SO_REUSEADDR 1)));
         bound \<leftarrow> on_bridge (device (socket_bind N listen_fd BRIDGE_TCP_PORT));
         listening \<leftarrow> if bound \<noteq> 0 then ret bound
                     else on_bridge (device (socket_listen N listen_fd BRIDGE_TCP_BACKLOG));
         if listening \<noteq> 0 then do {
           on_bridge (device_do (socket_close N listen_fd));
           ret (Some [], wiped)
         } else do {
           started \<leftarrow> server_loop P N tr secret listen_fd rounds;
           ret (started, secret)
         }
       }
     })"

text \<open>The secret in the context is the first 32 bytes of the credentials.\<close>

definition bridge_server_start ::
    "'w platform \<Rightarrow> bool \<Rightarrow> u8 list option \<Rightarrow> ('w, esp_err \<times> (bool \<times> u8 list) option) task" where
  "bridge_server_start P tr secret =
     (case secret of
        None \<Rightarrow> ret (ESP_ERR_INVALID_ARG, None)
      | Some secret \<Rightarrow>
          if \<not> tr then ret (ESP_ERR_INVALID_ARG, None)
          else do {
            allocated \<leftarrow> device (calloc P);
            if \<not> allocated then ret (ESP_ERR_NO_MEM, None)
            else do {
              created \<leftarrow> device (create_task P ''bridge_server'');
              ret (if \<not> created then (ESP_ERR_NO_MEM, None)
                   else (ESP_OK, Some (tr, take BRIDGE_PAIRING_SECRET_BYTES secret)))
            }
          })"

end
