(* ===== verification/Server_Security.thy ===== *)
theory Server_Security
  imports Server_Correctness
begin

text \<open>
  Whole connections of \<open>bridge_server.c\<close>: what a client without the pairing secret can do,
  the end of a client task, and the one client slot.
\<close>

section \<open>The received stream\<close>

text \<open>The log of received bytes only grows.\<close>

abbreviation received_since :: "u8 list \<Rightarrow> ('w, 'x) Endpoint_scheme \<Rightarrow> bool" where
  "received_since g e \<equiv> (\<exists>more. got e = g @ more)"

lemma grows_on_bridge [preserves_rules]: "preserves (received_since g) (on_bridge m)"
  by (rule preservesI) (auto intro!: wp_mono [OF wp_trivial])

lemma grows_receive [preserves_rules]: "preserves (received_since g) (receive_from N fd n)"
  by (rule preservesI) (auto split: prod.splits)

lemma grows_send_all [preserves_rules]: "preserves (received_since g) (send_all P N fd bytes)"
  by (rule preservesI) (auto intro!: wp_mono [OF send_all_keeps [where I = "\<lambda>_. True"]])

lemma grows_send_response [preserves_rules]:
  "preserves (received_since g) (send_response P N fd request status payload)"
  by (rule preservesI) (auto intro!: wp_mono [OF send_response_keeps [where I = "\<lambda>_. True"]])

lemma grows_client_fields [preserves_rules]:
  "preserves (received_since g) (on_session f)"
  "preserves (received_since g) (modify (\<lambda>c. c\<lparr>begin_proxy := b\<rparr>))"
  by (auto simp: preserves_def split: prod.splits)

lemma preserves_case_recv [preserves_rules]:
  "(\<And>bs. preserves I (f bs)) \<Longrightarrow> preserves I a \<Longrightarrow> preserves I b \<Longrightarrow> preserves I c \<Longrightarrow>
     preserves I (case r of Received bs \<Rightarrow> f bs | RecvInterrupted \<Rightarrow> a | RecvTimeout \<Rightarrow> b | RecvFailed \<Rightarrow> c)"
  by (cases r) simp_all

lemma grows_proxy:
  "preserves (received_since g) (rpc_proxy_run P N fuel fd tr initial)"
proof -
  have forward: "preserves (received_since g) (proxy_forward P N fd tr fuel result)" for fuel result
    by (induction fuel arbitrary: result) (auto simp: proxy_bit_def intro!: preserves_rules)
  have finish: "preserves (received_since g) (proxy_finish P N fd tr result)" for result
    unfolding proxy_finish_def set_proxy_bit_def by (intro preserves_rules)
  show ?thesis
    unfolding rpc_proxy_run_def by (intro preserves_rules forward finish)
qed

lemma grows_handle:
  "preserves (received_since g) (handle_management_message P N context request)"
  unfolding handle_management_message_def handle_hello_def handle_authenticate_def
    handle_authenticated_command_def begin_rpc_proxy_def reply_def send_json_def Let_def
  by (intro preserves_rules)

lemma preserves_case_message [preserves_rules]:
  "(\<And>m. preserves I (f m)) \<Longrightarrow> preserves I a \<Longrightarrow> preserves I b \<Longrightarrow> preserves I c \<Longrightarrow>
     preserves I (case v of BridgeDecodeNeedMore \<Rightarrow> a | BridgeDecodeReady m \<Rightarrow> f m
       | BridgeDecodeMalformed \<Rightarrow> b | BridgeDecodeTooLarge \<Rightarrow> c)"
  by (cases v) simp_all

lemma grows_input:
  "preserves (received_since g) (client_input P N fuel context decoder input)"
proof (induction P N fuel "context" decoder input rule: client_input.induct)
  case (1 P N fuel "context" decoder input)
  obtain v n d where push: "bridge_message_decoder_push decoder input = (v, n, d)"
    by (metis prod_cases3)
  show ?case
    unfolding client_input.simps [of P N fuel "context" decoder input] push prod.case reply_def
    using 1 push
    by (cases "input = []"; cases v)
       (auto intro!: preserves_rules grows_handle grows_proxy)
qed

lemma grows_loop:
  "preserves (received_since g) (client_loop P N fuel context rounds decoder since)"
  by (induction rounds arbitrary: decoder since) (auto intro!: preserves_rules grows_input)

section \<open>A client without the secret\<close>

text \<open>The requests in a stream of bytes, however it is cut into segments.\<close>

abbreviation feed_messages ::
    "BridgeMessageDecoder \<Rightarrow> u8 list \<Rightarrow> BridgeMessageDecodeResult list \<times> BridgeMessageDecoder" where
  "feed_messages \<equiv> decoder_feed message_decoder_byte BridgeDecodeNeedMore"

definition requests_from :: "BridgeMessageDecoder \<Rightarrow> u8 list \<Rightarrow> BridgeMessage set" where
  "requests_from d bs = {m. BridgeDecodeReady m \<in> set (fst (feed_messages d bs))}"

lemma requests_from_append:
  "requests_from d (as @ bs) = requests_from d as \<union> requests_from (snd (feed_messages d as)) bs"
  by (auto simp: requests_from_def decoder_feed_append split: prod.splits)

text \<open>
  \<open>no_proof N secret s0 S\<close>: no two of the requests are a hello and a valid proof for the
  challenge of \<open>s0\<close> with the nonce of that hello. \<open>stranger s0 S\<close>: such a client has got no
  further than a hello.
\<close>

definition no_proof ::
    "'w network \<Rightarrow> u8 list \<Rightarrow> BridgeSession \<Rightarrow> BridgeMessage set \<Rightarrow> bool" where
  "no_proof N secret s0 S \<longleftrightarrow>
     (\<forall>hello \<in> S. \<forall>proof \<in> S. msg_command hello = BridgeCommandHello \<longrightarrow>
        \<not> proves N secret (s0\<lparr>ss_client_nonce := take BRIDGE_NONCE_BYTES (msg_payload hello)\<rparr>) proof)"

definition stranger :: "BridgeSession \<Rightarrow> BridgeMessage set \<Rightarrow> 'w Client \<Rightarrow> bool" where
  "stranger s0 S c \<longleftrightarrow> \<not> begin_proxy c \<and>
     (session c = s0 \<or>
      (\<exists>hello \<in> S. msg_command hello = BridgeCommandHello \<and>
         session c = s0\<lparr>ss_client_nonce := take BRIDGE_NONCE_BYTES (msg_payload hello),
                        ss_state := BridgeSessionAwaitingAuthentication\<rparr>))"

lemma stranger_mono: "stranger s0 S c \<Longrightarrow> S \<subseteq> T \<Longrightarrow> stranger s0 T c"
  by (auto simp: stranger_def)

lemma no_proof_antimono: "no_proof N secret s0 T \<Longrightarrow> S \<subseteq> T \<Longrightarrow> no_proof N secret s0 S"
  by (auto simp: no_proof_def)

lemma stranger_fields [simp]:
  "stranger s0 S (c\<lparr>bridge := b\<rparr>) = stranger s0 S c"
  "stranger s0 S (c\<lparr>got := g\<rparr>) = stranger s0 S c"
  "stranger s0 S (c\<lparr>out := g\<rparr>) = stranger s0 S c"
  by (simp_all add: stranger_def)

lemma stranger_idle: "stranger s0 S c \<Longrightarrow> \<not> begin_proxy c"
  by (simp add: stranger_def)

lemma stranger_reset [simp]: "stranger s0 S c \<Longrightarrow> stranger s0 S (c\<lparr>begin_proxy := False\<rparr>)"
  by (simp add: stranger_def)

lemma stranger_unauthenticated:
  "stranger s0 S c \<Longrightarrow> ss_state s0 = BridgeSessionAwaitingHello \<Longrightarrow>
     ss_state (session c) \<noteq> BridgeSessionAuthenticated \<and> \<not> begin_proxy c"
  by (auto simp: stranger_def)

lemma proves_state [simp]: "proves N secret (s\<lparr>ss_state := x\<rparr>) request = proves N secret s request"
  by (simp add: proves_def challenge_def)

lemma stranger_step:
  assumes "stranger s0 S c" and "request \<in> S" and "no_proof N secret s0 S"
    and "ss_state s0 = BridgeSessionAwaitingHello"
    and "session c' = session_after N secret (session c) request" and "\<not> begin_proxy c'"
  shows "stranger s0 S c'"
  using assms by (auto simp: stranger_def session_after_def no_proof_def)

text \<open>One call of the decoder splits the requests of the input, and what is left of it to feed.\<close>

lemma push_splits_input:
  assumes "bridge_message_decoder_push d input = (v, n, d1)" and "message_holds d p"
  shows "\<exists>p1. message_holds d1 p1"
    and "requests_from d1 (drop n input) \<subseteq> requests_from d input"
    and "snd (feed_messages d input) = snd (feed_messages d1 (drop n input))"
    and "v = BridgeDecodeReady m \<Longrightarrow> m \<in> requests_from d input"
proof -
  note fed = feed_of_push [OF assms]
  then show "\<exists>p1. message_holds d1 p1" by blast
  have requests: "requests_from d input =
      requests_from d (take n input) \<union> requests_from d1 (drop n input)"
    using fed requests_from_append [of d "take n input" "drop n input"] by simp
  then show "requests_from d1 (drop n input) \<subseteq> requests_from d input" by blast
  show "snd (feed_messages d input) = snd (feed_messages d1 (drop n input))"
    using fed decoder_feed_append [of message_decoder_byte BridgeDecodeNeedMore d "take n input" "drop n input"]
    by (simp split: prod.splits)
  show "m \<in> requests_from d input" if "v = BridgeDecodeReady m"
    using fed requests that by (auto simp: requests_from_def)
qed

lemma handle_stranger:
  assumes "socket_keeps N I" and "I (bridge c)" and "stranger s0 S c" and "m \<in> S"
    and "no_proof N (pairing_secret context) s0 S" and "ss_state s0 = BridgeSessionAwaitingHello"
  shows "wp (handle_management_message P N context m)
          (\<lambda>r c'. stranger s0 S c' \<and> I (bridge c') \<and> got c' = got c) c"
proof -
  have unauth: "ss_state (session c) \<noteq> BridgeSessionAuthenticated" and "\<not> begin_proxy c"
    using stranger_unauthenticated [OF assms(3,6)] by auto
  then show ?thesis
    by (intro wp_mono [OF handle_before_authentication [OF assms(1,2) unauth]])
       (use stranger_step [OF assms(3-6)] in auto)
qed

lemma reply_stranger:
  assumes "socket_keeps N I" and "I (bridge c)" and "stranger s0 S c"
  shows "wp (reply P N context m status)
          (\<lambda>r c'. stranger s0 S c' \<and> I (bridge c') \<and> got c' = got c) c"
  by (rule wp_mono [OF reply_keeps [OF assms(1,2)]]) (use assms(3) in auto)

lemma client_input_stranger:
  assumes "socket_keeps N I" and "ss_state s0 = BridgeSessionAwaitingHello"
    and "no_proof N (pairing_secret context) s0 S"
    and "message_holds d p" and "requests_from d input \<subseteq> S" and "stranger s0 S c" and "I (bridge c)"
  shows "wp (client_input P N fuel context d input) (\<lambda>r c'. stranger s0 S c' \<and> I (bridge c') \<and>
           got c' = got c \<and> (\<forall>d'. r = Some (Some d') \<longrightarrow>
             d' = snd (feed_messages d input) \<and> (\<exists>p. message_holds d' p))) c"
  using assms
proof (induction P N fuel "context" d input arbitrary: p c rule: client_input.induct)
  case (1 P N fuel "context" d input)
  show ?case
  proof (cases "input = []")
    case True
    with "1.prems" show ?thesis by (auto simp: client_input.simps [of P N fuel "context" d "[]"])
  next
    case False
    obtain v n d1 where push: "bridge_message_decoder_push d input = (v, n, d1)"
      by (metis prod_cases3)
    note fed = push_splits_input [OF push "1.prems"(4)]
    then obtain p1 where p1: "message_holds d1 p1" by blast
    note rest = fed(3) and input = client_input.simps [of P N fuel "context" d input]
    have sub: "requests_from d1 (drop n input) \<subseteq> S" using "1.prems"(5) fed(2) by blast
    note answer = reply_stranger [OF "1.prems"(1,7,6)]
    have next_input: "wp (client_input P N fuel context d1 (drop n input)) (\<lambda>r c'. stranger s0 S c' \<and>
        I (bridge c') \<and> got c' = got c0 \<and> (\<forall>d'. r = Some (Some d') \<longrightarrow>
          d' = snd (feed_messages d1 (drop n input)) \<and> (\<exists>p. message_holds d' p))) c0"
      if "stranger s0 S c0" and "I (bridge c0)" and "v = BridgeDecodeNeedMore \<or> v = BridgeDecodeReady m"
      for c0 m
      using that(3)
    proof
      assume v: "v = BridgeDecodeNeedMore"
      show ?thesis
        by (rule "1.IH"(1) [OF False push [symmetric] v refl "1.prems"(1-3) p1 sub that(1,2)])
    next
      assume v: "v = BridgeDecodeReady m"
      have ok: "\<not> ESP_OK \<noteq> ESP_OK" "\<not> False" by simp_all
      show ?thesis
        by (rule "1.IH"(2) [OF False push [symmetric] v refl ok "1.prems"(1-3) p1 sub that(1,2)])
    qed
    show ?thesis
    proof (cases v)
      case BridgeDecodeNeedMore
      with next_input "1.prems"(6,7) show ?thesis by (simp add: input False push rest)
    next
      case (BridgeDecodeReady m)
      then have "m \<in> S" using fed(4) "1.prems"(5) by blast
      note handled = handle_stranger [OF "1.prems"(1,7,6) this "1.prems"(3,2)]
      show ?thesis
        unfolding input push using False BridgeDecodeReady
        by (auto simp: rest split: option.splits dest: stranger_idle
            intro!: wp_mono [OF handled] wp_mono [OF next_input [where m = m]])
    next
      case BridgeDecodeMalformed
      then show ?thesis by (simp add: input False push) (rule wp_mono [OF answer], auto)
    next
      case BridgeDecodeTooLarge
      then show ?thesis by (simp add: input False push) (rule wp_mono [OF answer], auto)
    qed
  qed
qed

text \<open>What the calls of a client without the secret keep of the bridge.\<close>

definition network_keeps :: "'w platform \<Rightarrow> 'w network \<Rightarrow> ('w Bridge \<Rightarrow> bool) \<Rightarrow> bool" where
  "network_keeps P N I \<longleftrightarrow> socket_keeps N I \<and>
     (\<forall>fd n s. I s \<longrightarrow> I (snd (socket_recv N fd n s))) \<and>
     (\<forall>s. I s \<longrightarrow> I (s\<lparr>world := snd (esp_timer_get_time P (world s))\<rparr>))"

lemma network_keepsD:
  assumes "network_keeps P N I" and "I s"
  shows "socket_keeps N I" and "I (s\<lparr>metrics := m\<rparr>)"
    and "socket_recv N fd n s = (r, t) \<Longrightarrow> I t"
    and "esp_timer_get_time P (world s) = (now, w) \<Longrightarrow> I (s\<lparr>world := w\<rparr>)"
  using assms unfolding network_keeps_def socket_keeps_def by simp_all (metis snd_conv)+

abbreviation requests :: "u8 list \<Rightarrow> BridgeMessage set" where
  "requests \<equiv> requests_from bridge_message_decoder_reset"

definition kept_out ::
    "'w network \<Rightarrow> u8 list \<Rightarrow> BridgeSession \<Rightarrow> ('w Bridge \<Rightarrow> bool) \<Rightarrow> 'w Client \<Rightarrow> bool" where
  "kept_out N secret s0 I c \<longleftrightarrow> no_proof N secret s0 (requests (got c)) \<longrightarrow>
     stranger s0 (requests (got c)) c \<and> I (bridge c)"

lemma kept_out_vacuous:
  assumes "\<not> no_proof N secret s0 (requests (got c))" and "preserves (received_since (got c)) m"
  shows "wp m (\<lambda>_. kept_out N secret s0 I) c"
proof (rule wp_mono [OF preservesD [OF assms(2)]])
  fix c' :: "'a Client"
  assume "\<exists>more. got c' = got c @ more"
  then have "requests (got c) \<subseteq> requests (got c')" by (auto simp: requests_from_append)
  with assms(1) show "kept_out N secret s0 I c'"
    using no_proof_antimono unfolding kept_out_def by blast
qed simp

lemma client_loop_kept_out:
  assumes keeps: "network_keeps P N I" and s0: "ss_state s0 = BridgeSessionAwaitingHello"
    and "d = snd (feed_messages bridge_message_decoder_reset (got c))" and "\<exists>p. message_holds d p"
    and "stranger s0 (requests (got c)) c" and "I (bridge c)"
  shows "wp (client_loop P N fuel context rounds d since)
           (\<lambda>_. kept_out N (pairing_secret context) s0 I) c"
  using assms(3-)
proof (induction rounds arbitrary: d since c)
  case 0
  then show ?case by (simp add: kept_out_def)
next
  case (Suc rounds)
  note sock = network_keepsD(1) [OF keeps Suc.prems(4)]
  from Suc.prems(2) obtain p where p: "message_holds d p" ..
  have served: "wp (do {
        used \<leftarrow> client_input P N fuel context d bytes;
        case used of None \<Rightarrow> ret None | Some None \<Rightarrow> ret (Some ())
        | Some (Some d) \<Rightarrow> client_loop P N fuel context rounds d now })
      (\<lambda>_. kept_out N (pairing_secret context) s0 I) c1" (is "wp ?m _ _")
    if "stranger s0 (requests (got c)) c1" and "I (bridge c1)" and "got c1 = got c @ bytes"
    for c1 bytes now
  proof (cases "no_proof N (pairing_secret context) s0 (requests (got c1))")
    case True
    have "requests_from d bytes \<subseteq> requests (got c1)" and more: "requests (got c) \<subseteq> requests (got c1)"
      using that(3) Suc.prems(1) by (auto simp: requests_from_append)
    note input = client_input_stranger [OF sock s0 True p this(1)
        stranger_mono [OF that(1) more] that(2)]
    have next_decoder: "snd (feed_messages d bytes) =
        snd (feed_messages bridge_message_decoder_reset (got c1))"
      using that(3) Suc.prems(1) by (simp add: decoder_feed_append split: prod.splits)
    show ?thesis
      by (auto simp: kept_out_def next_decoder intro!: wp_mono [OF input] Suc.IH
          split: option.splits)
  next
    case False
    show ?thesis
      by (rule kept_out_vacuous [OF False]) (intro preserves_rules grows_input grows_loop)
  qed
  have again: "wp (client_loop P N fuel context rounds d now)
      (\<lambda>_. kept_out N (pairing_secret context) s0 I) (c\<lparr>bridge := s\<rparr>)" if "I s" for now s
    by (rule Suc.IH) (use Suc.prems that in auto)
  have ended: "kept_out N (pairing_secret context) s0 I (c\<lparr>bridge := s\<rparr>)" if "I s" for s
    using Suc.prems(3) that by (simp add: kept_out_def)
  show ?case
    using Suc.prems(3,4) network_keepsD(2-) [OF keeps]
    by (auto split: recv_result.splits prod.splits intro!: served [unfolded wp_bind] again ended)
qed

text \<open>
  The laws of the platform calls of a connection: apart from the frames of this client's own
  requests, only the status frames and heartbeats of the other tasks reach the UART.
\<close>

definition server_laws :: "'w platform \<Rightarrow> 'w network \<Rightarrow> ('w \<Rightarrow> u8 list) \<Rightarrow> bool" where
  "server_laws P N sent \<longleftrightarrow>
     (\<forall>fd bs s. traffic sent s (snd (socket_send N fd bs s)) []) \<and>
     (\<forall>fd n s. traffic sent s (snd (socket_recv N fd n s)) []) \<and>
     (\<forall>w. sent (snd (esp_timer_get_time P w)) = sent w) \<and>
     (\<forall>n w. sent (snd (esp_fill_random N n w)) = sent w) \<and>
     (\<forall>fd option w. sent (setsockopt N fd option w) = sent w) \<and>
     (\<forall>fd w. sent (socket_shutdown N fd w) = sent w) \<and>
     (\<forall>fd w. sent (socket_close N fd w) = sent w)"

lemma server_laws_timeouts: "server_laws P N sent \<Longrightarrow> sent (set_socket_timeouts N fd w) = sent w"
  by (simp add: server_laws_def set_socket_timeouts_def Let_def)

lemma server_laws_keep:
  assumes "server_laws P N sent"
  shows "network_keeps P N (\<lambda>s. traffic sent s0 s [])"
  using assms unfolding network_keeps_def socket_keeps_def server_laws_def
  by (auto simp: traffic_world intro: traffic_quiet)


lemma sim_server_laws: "server_laws sim_platform sim_network sim_sent"
  by (auto simp: server_laws_def sim_platform_def sim_network_def traffic_refl
      split: list.splits)

text \<open>A client that asks for a proxy session at once is refused.\<close>

definition sim_intruder :: "sim_world Client" where
  "sim_intruder = sim_client BridgeSessionAwaitingHello ExpansionStateReady
     (sim_start\<lparr>sim_socket := [encoded_message (sim_request BridgeCommandBeginRpcProxy [])]\<rparr>)"

lemma sim_intruder_requests:
  "requests (encoded_message (sim_request BridgeCommandBeginRpcProxy [])) =
     {sim_request BridgeCommandBeginRpcProxy []}"
proof -
  have "sendable_message (sim_request BridgeCommandBeginRpcProxy [])"
    by (simp add: sim_request_def sendable_message_def canonical_message_def reserved_flags_iff
        bridge_message_encode_def payload_array_def)
  then show ?thesis using management.decodes by (simp add: requests_from_def)
qed

lemma sim_intruder_no_proof:
  "no_proof sim_network secret s0 {sim_request BridgeCommandBeginRpcProxy []}"
  by (simp add: no_proof_def sim_request_def)

lemma sim_intruder_received:
  "wp (client_task sim_platform sim_network 3 (Suc (Suc 0)) sim_context)
     (\<lambda>_ c'. got c' = encoded_message (sim_request BridgeCommandBeginRpcProxy [])) sim_intruder"
proof -
  let ?bytes = "encoded_message (sim_request BridgeCommandBeginRpcProxy [])"
  have keeps: "socket_keeps sim_network (\<lambda>s. sim_socket (world s) = [])"
    by (simp add: socket_keeps_def sim_network_def)
  have input: "wp (client_input sim_platform sim_network 3 sim_context bridge_message_decoder_reset ?bytes)
      (\<lambda>_ c'. sim_socket (world (bridge c')) = [] \<and> got c' = got c) c"
    if "session c = bridge_session_init bn sid" and "\<not> begin_proxy c"
      and "sim_socket (world (bridge c)) = []" for c bn sid
    by (rule wp_mono [OF client_input_stranger [OF keeps _ sim_intruder_no_proof [of _ "session c"]
            holds_fresh]])
       (use that in \<open>auto simp: sim_intruder_requests [simplified] stranger_def bridge_session_init_def\<close>)
  have sim: "socket_recv sim_network fd n s = (case sim_socket (world s) of
        [] \<Rightarrow> (Received [], s)
      | segment # rest \<Rightarrow> (Received segment, s\<lparr>world := (world s)\<lparr>sim_socket := rest\<rparr>\<rparr>))"
    "esp_timer_get_time sim_platform w = (sim_clock w, w)"
    "esp_fill_random sim_network k w = (replicate k 7, w)"
    "set_socket_timeouts sim_network fd w = w" for fd n s w k
    by (simp_all add: sim_network_def sim_platform_def set_socket_timeouts_def Let_def)
  have intruder: "got sim_intruder = []" "sim_socket (world (bridge sim_intruder)) = [?bytes]"
    by (simp_all add: sim_intruder_def sim_client_def sim_bridge_def)
  have "?bytes \<noteq> []"
    by (simp add: encoded_message_def bridge_message_encode_def sim_request_def message_bytes_def
        magic_bytes)
  then show ?thesis
    by (auto simp: client_task_def sim intruder [simplified] release_client_def
        intro!: wp_mono [OF input [simplified]] split: option.splits)
qed


section \<open>The end of a connection\<close>

text \<open>
  C10. A connection leaves nothing behind: however it ends, when the client task is done the
  client slot is free again, the session is closed and its nonces and id are zero, and so is
  the task's copy of the pairing secret.
\<close>

theorem client_task_cleans_up:
  assumes "run_state (client_task P N fuel rounds context) c = (Some context', c')"
  shows "\<not> client_active (bridge c') \<and>
    session c' = \<lparr>ss_state = BridgeSessionClosed, ss_client_nonce = replicate 32 0,
      ss_bridge_nonce = replicate 32 0, ss_session_id = replicate 8 0\<rparr> \<and>
    pairing_secret context' = replicate 32 0"
proof -
  have "wp (client_task P N fuel rounds context) (\<lambda>r c'. \<forall>context'. r = Some context' \<longrightarrow>
      \<not> client_active (bridge c') \<and> session c' = bridge_session_close (session c') \<and>
      pairing_secret context' = replicate 32 0) c"
    unfolding client_task_def
    by (auto simp: release_client_def bridge_session_close_def split: prod.splits option.splits
        intro!: wp_mono [OF wp_trivial [where m = "client_loop P N fuel context rounds
          bridge_message_decoder_reset _"]])
  from wpD [OF this assms] show ?thesis
    by (cases "session c'") (simp add: bridge_session_close_def)
qed

text \<open>A client of the slot's owner that closes its connection at once.\<close>

definition sim_visitor :: "sim_world Client" where
  "sim_visitor = (sim_client BridgeSessionAwaitingHello ExpansionStateReady sim_start)
     \<lparr>bridge := (sim_bridge ExpansionStateReady sim_start)\<lparr>client_active := True\<rparr>\<rparr>"

lemma sim_visitor_ends:
  "wp (client_task sim_platform sim_network 1 (Suc 0) sim_context)
     (\<lambda>r _. r = Some (sim_context\<lparr>pairing_secret := replicate 32 0\<rparr>)) sim_visitor"
  by (simp add: client_task_def sim_visitor_def sim_client_def sim_bridge_def sim_start_def
      sim_network_def sim_platform_def set_socket_timeouts_def Let_def release_client_def)

theorem client_task_cleans_up_witness:
  "\<exists>c'. run_state (client_task sim_platform sim_network 1 (Suc 0) sim_context) sim_visitor =
       (Some (sim_context\<lparr>pairing_secret := replicate 32 0\<rparr>), c') \<and>
     client_active (bridge sim_visitor) \<and> \<not> client_active (bridge c')"
proof -
  obtain c' where run: "run_state (client_task sim_platform sim_network 1 (Suc 0) sim_context) sim_visitor =
      (Some (sim_context\<lparr>pairing_secret := replicate 32 0\<rparr>), c')"
    using sim_visitor_ends by (auto simp: wp_def split: prod.splits)
  from client_task_cleans_up [OF run] run show ?thesis by (simp add: sim_visitor_def)
qed

section \<open>The client slot\<close>



text \<open>Over the connections of the server task, as long as no client task ends.\<close>

definition slot_held :: "'w platform \<Rightarrow> 'w network \<Rightarrow> bool" where
  "slot_held P N \<longleftrightarrow> socket_keeps N client_active \<and>
     (\<forall>fd s. client_active (snd (socket_accept N fd s)) = client_active s) \<and>
     (\<forall>n s. client_active (vTaskDelay P n s) = client_active s)"

definition given :: "bool \<Rightarrow> u8 list \<Rightarrow> ClientContext \<Rightarrow> bool" where
  "given tr secret c \<longleftrightarrow> transport c = tr \<and> pairing_secret c = take 32 secret"

lemma server_loop_single:
  assumes held: "slot_held P N"
  shows "wp (server_loop P N tr secret fd n) (\<lambda>r _. \<forall>cs. r = Some cs \<longrightarrow>
     length cs \<le> (if client_active (bridge e) then 0 else 1) \<and>
     list_all (given tr secret) cs) e"
proof (induction n arbitrary: e)
  case (Suc n)
  have accepted: "wp (accept_client P N tr secret cfd) (\<lambda>r e'.
      (r = None \<or> r = Some None \<and> client_active (bridge e') = client_active (bridge e0)) \<or>
      \<not> client_active (bridge e0) \<and> client_active (bridge e') \<and>
      (\<exists>c. r = Some (Some c) \<and> given tr secret c)) e0" for cfd e0
  proof -
    have busy: "wp (reject_busy_client P N cfd) (\<lambda>_ e'. client_active (bridge e')) e1"
      if "client_active (bridge e1)" for e1
      unfolding reject_busy_client_def using that held
      by (auto simp: slot_held_def split: option.splits
          intro!: wp_mono [OF send_response_keeps [where I = client_active]])
    show ?thesis
      unfolding accept_client_def claim_client_def release_client_def
      by (auto simp: given_def split: option.splits prod.splits intro!: wp_mono [OF busy])
  qed
  obtain cfd intr s where accept: "socket_accept N fd (bridge e) = ((cfd, intr), s)"
    by (metis surj_pair)
  with held have s: "client_active s = client_active (bridge e)"
    unfolding slot_held_def by (metis snd_conv)
  have rest: "wp (accept_client P N tr secret cfd) (\<lambda>a. wp (case a of None \<Rightarrow> ret None
       | Some started \<Rightarrow> do {
           others \<leftarrow> server_loop P N tr secret fd n;
           ret (map_option (\<lambda>cs. (case started of None \<Rightarrow> cs | Some c \<Rightarrow> c # cs)) others) })
      (\<lambda>r _. \<forall>cs. r = Some cs \<longrightarrow> length cs \<le> (if client_active (bridge e) then 0 else 1) \<and>
        list_all (given tr secret) cs)) (e\<lparr>bridge := s\<rparr>)"
    by (rule wp_mono [OF accepted])
       (auto simp: s split: option.splits intro!: wp_mono [OF Suc.IH])
  have "client_active (vTaskDelay P 250 s) = client_active (bridge e)"
    using held s by (simp add: slot_held_def)
  then show ?case
    using accept s rest by (auto simp: await_client_def intro!: wp_mono [OF Suc.IH])
qed simp

text \<open>
  C18. The server never serves two clients: over any number of connections, as long as no
  client task ends, the server task starts at most one client task, none if one was running
  already, and it gives the one it starts the transport and the pairing secret it was started
  with.
\<close>

theorem no_second_client:
  assumes "slot_held P N" and "run_state (server_loop P N tr secret fd n) e = (Some cs, e')"
  shows "length cs \<le> (if client_active (bridge e) then 0 else 1) \<and>
    list_all (\<lambda>c. transport c = tr \<and> pairing_secret c = take 32 secret) cs"
  using wpD [OF server_loop_single [OF assms(1)] assms(2)] by (simp add: given_def [abs_def])

lemma sim_server_serves:
  "\<exists>cs e'. run_state (server_loop sim_platform sim_network True (replicate 32 9) 1 1)
     (sim_endpoint ExpansionStateReady sim_start) = (Some cs, e')"
  by (simp add: await_client_def blocking_def on_bridge_def accept_client_def claim_client_def
      sim_network_def sim_platform_def sim_endpoint_def sim_bridge_def device_def)

theorem no_second_client_witness:
  "\<exists>cs e'. run_state (server_loop sim_platform sim_network True (replicate 32 9) 1 1)
       (sim_endpoint ExpansionStateReady sim_start) = (Some cs, e') \<and> length cs \<le> 1"
proof -
  obtain cs e' where run: "run_state (server_loop sim_platform sim_network True (replicate 32 9) 1 1)
      (sim_endpoint ExpansionStateReady sim_start) = (Some cs, e')"
    using sim_server_serves by blast
  have "slot_held sim_platform sim_network"
    by (simp add: slot_held_def socket_keeps_def sim_network_def sim_platform_def sim_wait_def)
  from no_second_client [OF this run] run show ?thesis by (auto split: if_splits)
qed

section \<open>Unknown commands\<close>



end
