(* ===== verification/Transport_Supervision.thy ===== *)
theory Transport_Supervision
  imports Transport_Receiving
begin

text \<open>
  The supervisor of \<open>expansion_transport.c\<close>: establishing the link, giving it up, and the
  number of attempts, while clients begin and end sessions at any time.
\<close>

unbundle bit_operations_syntax

section \<open>The wait for a frame ends\<close>

text \<open>
  \<open>clock\<close> reads the time off the outside: reading it takes no time back, and a read of the
  UART, which waits for a byte or for ten milliseconds, takes at least a microsecond.
\<close>

definition clock_laws :: "'w platform \<Rightarrow> ('w \<Rightarrow> int) \<Rightarrow> bool" where
  "clock_laws P clock \<longleftrightarrow>
     (\<forall>w. fst (esp_timer_get_time P w) = clock w \<and> clock w \<le> clock (snd (esp_timer_get_time P w))) \<and>
     (\<forall>n s. 0 < n \<longrightarrow> clock (world s) < clock (world (snd (uart_read_byte P n s))))"

definition returned :: "'a option \<Rightarrow> bool" where
  "returned r \<longleftrightarrow> r \<noteq> None"

lemma returned_simps [simp]: "returned (Some x)" "\<not> returned None"
  by (simp_all add: returned_def)

lemma returned_pair [intro]: "returned r \<Longrightarrow> \<exists>a b. r = Some (a, b)"
  by (auto simp: returned_def)

lemma clock_lawsD:
  assumes "clock_laws P clock"
  shows "esp_timer_get_time P w = (now, w') \<Longrightarrow> now = clock w \<and> clock w \<le> clock w'"
    and "uart_read_byte P n s = (r, t) \<Longrightarrow> 0 < n \<Longrightarrow> clock (world s) < clock (world t)"
  using assms unfolding clock_laws_def by (metis fst_conv snd_conv)+

lemma receive_frame_loop_returns:
  assumes laws: "clock_laws P clock" and "nat (deadline - clock (world s)) < fuel"
  shows "wp (receive_frame_loop P fuel d deadline) (\<lambda>r t. returned r) s"
  using assms(2)
proof (induction fuel arbitrary: d s)
  case (Suc fuel)
  obtain now w where timer: "esp_timer_get_time P (world s) = (now, w)" by fastforce
  obtain c b t where read: "uart_read_byte P 10 (s\<lparr>world := w\<rparr>) = ((c, b), t)"
    by (metis prod.exhaust)
  have later: "now = clock (world s)" "clock (world s) < clock (world t)"
    using clock_lawsD(1) [OF laws timer] clock_lawsD(2) [OF laws read] by simp_all
  have rest: "wp (receive_frame_loop P fuel d' deadline) (\<lambda>r t. returned r) u"
    if "now < deadline" and "world u = world t" for u d'
    using Suc.IH [of u d'] Suc.prems later that by simp
  have status: "wp (send_status P e) (\<lambda>_ _. True) u" for e u
    by (simp add: wp_def split: prod.splits)
  show ?case
    using timer read rest
    by (auto split: prod.splits ExpansionDecodeResult.splits simp: mark_rx_activity_def
        intro!: wp_mono [OF status])
qed simp

lemma receive_frame_sync_bounded:
  assumes laws: "clock_laws P clock" and "timeout_ms * 1000 < fuel"
  shows "wp (receive_frame_sync P fuel timeout_ms) (\<lambda>r t. returned r) s"
proof -
  obtain now w where timer: "esp_timer_get_time P (world s) = (now, w)" by fastforce
  from clock_lawsD(1) [OF laws this]
  have "nat (now + int timeout_ms * 1000 - clock w) \<le> timeout_ms * 1000" by (simp add: nat_le_iff)
  with assms(2) have "wp (receive_frame_loop P fuel d (now + int timeout_ms * 1000)) (\<lambda>r t. returned r)
          (s\<lparr>world := w\<rparr>)" for d
    by (intro receive_frame_loop_returns [OF laws]) simp
  with timer show ?thesis by (simp add: receive_frame_sync_def)
qed

lemma negotiate_baud_returns:
  assumes laws: "clock_laws P clock" and fuel: "BRIDGE_EXPANSION_TIMEOUT_MS * 1000 < fuel"
  shows "wp (negotiate_baud P fuel rates) (\<lambda>r t. returned r) s"
proof (induction rates arbitrary: s)
  case (Cons baud rates)
  show ?case
    by (auto intro!: 
        wp_mono [OF wp_trivial [where m = "send_frame P (BaudRateFrame baud)"]] wp_mono [OF receive_frame_sync_bounded [OF laws fuel]]
        split: option.splits prod.splits esp_err.splits ExpansionFrame.splits
        simp: Cons.IH simp del: BRIDGE_EXPANSION_TIMEOUT_MS_def)
       (rule returned_pair, assumption)+
qed simp

lemma establish_returns:
  assumes laws: "clock_laws P clock" and fuel: "BRIDGE_EXPANSION_TIMEOUT_MS * 1000 < fuel"
  shows "wp (establish_expansion P fuel) (\<lambda>r t. returned r) s"
  by (auto simp: establish_expansion_def uart_configure_def pulse_flipper_rx_def
      intro!: wp_mono [OF receive_frame_sync_bounded [OF laws fuel]]
        negotiate_baud_returns [OF laws fuel] split: option.splits prod.splits
      simp del: BRIDGE_EXPANSION_TIMEOUT_MS_def)

text \<open>
  C21. Establishing the link ends, in success or in an error, whatever the Flipper sends and
  however long it stays silent: with time passing on every read of the UART, the deadline of
  250 ms per frame bounds every wait, and 250001 polls per wait are always enough.
\<close>

theorem establish_terminates:
  assumes "clock_laws P clock"
  shows "\<exists>error. fst (run_state (establish_expansion P 250001) s) = Some error"
  using establish_returns [OF assms, of 250001 s]
  by (auto simp: wp_def returned_def split: prod.splits)

lemma sim_clock_laws: "clock_laws sim_platform sim_clock"
  by (auto simp: clock_laws_def sim_platform_def sim_wait_def split: list.splits)

theorem establish_terminates_witness:
  "\<exists>error. fst (run_state (establish_expansion sim_platform 250001)
     (sim_bridge ExpansionStateBackoff sim_start)) = Some error"
  by (rule establish_terminates [OF sim_clock_laws])

section \<open>Who may change the machine\<close>

text \<open>
  \<open>J\<close> is a predicate of the link's state machine. The operations below apply no event to
  it: they keep \<open>J\<close> when the tasks that run while they block keep it.
\<close>

named_theorems machine_rules

abbreviation keeps :: "'w platform \<Rightarrow> (ExpansionStateMachine \<Rightarrow> bool) \<Rightarrow> bool" where
  "keeps P J \<equiv> blocking_calls P (\<lambda>s. J (machine s))"

abbreviation machine_safe :: "(ExpansionStateMachine \<Rightarrow> bool) \<Rightarrow> ('w, 'a) task \<Rightarrow> bool" where
  "machine_safe J \<equiv> preserves (\<lambda>s. J (machine s))"

lemma machine_safe_simple [machine_rules]:
  "machine_safe J (device f)"
  "machine_safe J (device_do g)"
  "machine_safe J (count_metric P h)"
  "machine_safe J (set_events b)"
  "machine_safe J (clear_events b)"
  "machine_safe J (expansion_transport_state p)"
  "machine_safe J (note_transfer n)"
  "machine_safe J (expansion_transport_request_reconnect p)"
  "machine_safe J (mark_rx_activity P)"
  "machine_safe J (mark_tx_activity P)"
  "machine_safe J (signal_link_lost P)"
  by (auto simp: preserves_def expansion_transport_state_def mark_rx_activity_def
      mark_tx_activity_def signal_link_lost_def expansion_transport_request_reconnect_def
      split: prod.splits)

lemma machine_safe_modify [machine_rules]:
  "(\<And>s. machine (f s) = machine s) \<Longrightarrow> machine_safe J (modify f)"
  by (simp add: preserves_def)

lemma machine_safe_blocking:
  assumes "keeps P J"
  shows "machine_safe J (blocking (uart_wait_tx_done P n))"
    and "machine_safe J (blocking (uart_read_byte P n))"
    and "machine_safe J (blocking (tx_mutex_take P n))"
    and "machine_safe J (blocking (request_mutex_take P n))"
    and "machine_safe J (blocking (stream_send P bs n))"
    and "machine_safe J (blocking (stream_receive P c n))"
    and "machine_safe J (modify (status_semaphore_wait P n))"
    and "machine_safe J (modify (event_wait P b))"
    and "machine_safe J (pause P n)"
  using blocking_callsD [OF assms]
  by (auto simp: preserves_def split: prod.splits) (metis snd_conv)+

lemma machine_safe_frames:
  assumes "keeps P J"
  shows "machine_safe J (send_frame P f)" and "machine_safe J (send_status P e)"
    and "machine_safe J (send_wait_status P f)"
proof -
  note blocks = machine_safe_blocking [OF assms]
  show frame: "machine_safe J (send_frame P f)" for f
    unfolding send_frame_def
    by (intro preserves_rules machine_rules blocks)
  show "machine_safe J (send_status P e)"
    unfolding send_status_def by (rule frame)
  show "machine_safe J (send_wait_status P f)"
    unfolding send_wait_status_def
    by (intro preserves_rules blocks frame machine_rules) simp_all
qed

lemma machine_safe_receive:
  assumes "keeps P J"
  shows "machine_safe J (receive_frame_loop P fuel d deadline)"
    and "machine_safe J (receive_frame_sync P fuel timeout)"
proof -
  note rules = machine_safe_blocking [OF assms] machine_safe_frames [OF assms]
  show loop: "machine_safe J (receive_frame_loop P fuel d deadline)" for fuel d deadline
  proof (induction fuel arbitrary: d)
    case (Suc fuel)
    then show ?case
      by (auto intro!: preserves_rules machine_rules rules split: ExpansionDecodeResult.split)
  qed (simp add: preserves_return)
  show "machine_safe J (receive_frame_sync P fuel timeout)"
    unfolding receive_frame_sync_def by (intro preserves_rules machine_rules loop)
qed

section \<open>What the supervisor relies on\<close>

text \<open>
  While the supervisor waits, other tasks run: the receiver, the heartbeat, and clients that
  begin and end sessions. It relies on three things: they never touch the retry counter,
  they leave the machine alone outside a session, and inside one they keep it among the four
  session states. \<open>rely_predicate\<close> are the predicates of the machine that express this.
\<close>

definition session_states :: "ExpansionState set" where
  "session_states = {ExpansionStateReady, ExpansionStateStartingRpc, ExpansionStateRpcReady,
     ExpansionStateStoppingRpc}"

definition rely_predicate :: "(ExpansionStateMachine \<Rightarrow> bool) \<Rightarrow> bool" where
  "rely_predicate J \<longleftrightarrow>
     (\<exists>c. J = (\<lambda>m. reconnect_attempts m = c)) \<or>
     (\<exists>x. x \<notin> session_states \<and> J = (\<lambda>m. sm_state m = x)) \<or>
     J = (\<lambda>m. sm_state m \<in> session_states)"

definition supervisor_rely :: "'w platform \<Rightarrow> bool" where
  "supervisor_rely P \<longleftrightarrow> (\<forall>J. rely_predicate J \<longrightarrow> keeps P J)"

lemma supervisor_relyD:
  assumes "supervisor_rely P"
  shows "keeps P (\<lambda>m. reconnect_attempts m = c)"
    and "x \<notin> session_states \<Longrightarrow> keeps P (\<lambda>m. sm_state m = x)"
    and "keeps P (\<lambda>m. sm_state m \<in> session_states)"
  using assms unfolding supervisor_rely_def rely_predicate_def by blast+

definition client_events :: "ExpansionEvent set" where
  "client_events = {ExpansionEventBeginRpc, ExpansionEventRpcStarted, ExpansionEventEndRpc,
     ExpansionEventRpcStopped}"

lemma client_event_respects:
  assumes "rely_predicate J" and "e \<in> client_events" and "J m"
    and "expansion_state_machine_apply m e = (ok, a, m')"
  shows "J m'"
  using assms
  by (auto simp: rely_predicate_def client_events_def apply_simps session_states_def
      split: if_splits)

lemma machine_safe_client_event:
  "rely_predicate J \<Longrightarrow> e \<in> client_events \<Longrightarrow> machine_safe J (transport_apply e)"
  by (auto simp: preserves_def split: prod.splits intro: client_event_respects)

lemma machine_safe_rx_loop:
  assumes "keeps P J"
  shows "machine_safe J (rx_loop P fuel d)"
proof -
  note rules = preserves_rules machine_rules machine_safe_blocking [OF assms]
    machine_safe_frames [OF assms]
  have frame: "machine_safe J (rx_frame P f)" for f
    unfolding rx_frame_def rx_data_def rx_status_def
    by (cases f) (auto intro!: rules)
  have round: "machine_safe J (rx_round P d)" for d
    unfolding rx_round_def
    by (auto intro!: rules frame split: ExpansionDecodeResult.split)
  show ?thesis
    by (induction fuel arbitrary: d)
       (auto simp: rx_loop.simps(2) stop_or_lost_def intro!: rules round)
qed

lemma machine_safe_heartbeat_loop:
  assumes "keeps P J"
  shows "machine_safe J (heartbeat_loop P fuel)"
proof -
  note rules = preserves_rules machine_rules machine_safe_blocking [OF assms]
    machine_safe_frames [OF assms]
  have round: "machine_safe J (heartbeat_round P)"
    unfolding heartbeat_round_def by (intro rules)
  show ?thesis
    by (induction fuel) (auto simp: stop_or_lost_def intro!: rules round)
qed

lemma machine_safe_send_chunks:
  assumes "keeps P J"
  shows "machine_safe J (send_chunks P bytes offset)"
proof (induction "length bytes - offset" arbitrary: offset rule: less_induct)
  case less
  show ?case
  proof (cases "offset < length bytes")
    case True
    let ?chunk = "if length bytes - offset < BRIDGE_EXPANSION_MAX_DATA
      then length bytes - offset else BRIDGE_EXPANSION_MAX_DATA"
    have "length bytes - (offset + ?chunk) < length bytes - offset" using True by auto
    note rest = less [OF this]
    show ?thesis
      unfolding send_chunks.simps [of P bytes offset] Let_def
      by (intro preserves_rules machine_rules machine_safe_frames [OF assms] rest)
  qed (simp add: send_chunks.simps [of P bytes offset] preserves_return)
qed

lemma machine_safe_control_request:
  assumes "keeps P J" and "rely_predicate J" and "e \<in> client_events"
  shows "machine_safe J (control_request P c e)"
  unfolding control_request_def
  by (intro preserves_rules machine_rules machine_safe_frames [OF assms(1)]
      machine_safe_client_event assms)

text \<open>
  C27. The tasks keep out of each other's way: whatever the supervisor relies on about the
  link's state machine (the retry counter, the states outside a session, the set of session
  states) is kept by the receiver task, the heartbeat task and every operation a client can
  call, provided the tasks that run while these block keep it too.
\<close>

theorem tasks_respect_supervisor:
  assumes "supervisor_rely P" and "rely_predicate J"
  shows "preserves (\<lambda>s. J (machine s)) (expansion_rx_task P n) \<and>
         preserves (\<lambda>s. J (machine s)) (expansion_heartbeat_task P n) \<and>
         preserves (\<lambda>s. J (machine s)) (expansion_transport_begin_rpc P transport) \<and>
         preserves (\<lambda>s. J (machine s)) (expansion_transport_end_rpc P transport) \<and>
         preserves (\<lambda>s. J (machine s)) (expansion_transport_send_rpc P transport bytes) \<and>
         preserves (\<lambda>s. J (machine s)) (expansion_transport_receive_rpc P transport capacity ms)"
proof -
  have keeps: "keeps P J" using assms by (simp add: supervisor_rely_def)
  have events: "ExpansionEventBeginRpc \<in> client_events" "ExpansionEventRpcStarted \<in> client_events"
    "ExpansionEventEndRpc \<in> client_events" "ExpansionEventRpcStopped \<in> client_events"
    by (simp_all add: client_events_def)
  note rules = preserves_rules machine_rules machine_safe_blocking [OF keeps]
    machine_safe_rx_loop [OF keeps] machine_safe_heartbeat_loop [OF keeps]
    machine_safe_send_chunks [OF keeps] machine_safe_control_request [OF keeps assms(2)]
    machine_safe_client_event [OF assms(2)] events
  show ?thesis
    unfolding expansion_rx_task_def expansion_heartbeat_task_def
      expansion_transport_begin_rpc_def expansion_transport_end_rpc_def
      expansion_transport_send_rpc_def expansion_transport_receive_rpc_def
    by (intro conjI rules) simp_all
qed

lemma sim_supervisor_rely: "supervisor_rely sim_platform"
  unfolding supervisor_rely_def blocking_calls_def
  by (auto simp: sim_platform_def sim_wait_def split: list.splits)

theorem tasks_respect_supervisor_witness:
  "preserves (\<lambda>s. sm_state (machine s) = ExpansionStateBackoff)
     (expansion_transport_begin_rpc sim_platform True)"
proof -
  have "rely_predicate (\<lambda>m. sm_state m = ExpansionStateBackoff)"
    unfolding rely_predicate_def session_states_def
    by (intro disjI2 disjI1 exI [of _ ExpansionStateBackoff]) simp
  from tasks_respect_supervisor [OF sim_supervisor_rely this] show ?thesis by blast
qed

section \<open>Establishing the link\<close>

text \<open>
  The outcome of a negotiation: the rate, and the requests that were made for it. The
  laws of the pins and of the rate are those of \<^verbatim>\<open>uart_laws\<close>: they send nothing.
\<close>

definition line_laws :: "'w platform \<Rightarrow> ('w \<Rightarrow> u8 list) \<Rightarrow> bool" where
  "line_laws P sent \<longleftrightarrow> uart_laws P sent \<and>
     (\<forall>rate w. sent (snd (uart_param_config P rate w)) = sent w) \<and>
     (\<forall>w. sent (snd (uart_set_pin P w)) = sent w) \<and>
     (\<forall>w. sent (snd (uart_flush_input P w)) = sent w) \<and>
     (\<forall>rate w. sent (snd (uart_set_baudrate P rate w)) = sent w) \<and>
     (\<forall>w. sent (snd (gpio_reset_tx_pin P w)) = sent w) \<and>
     (\<forall>w. sent (snd (gpio_set_tx_open_drain P w)) = sent w) \<and>
     (\<forall>high w. sent (snd (gpio_set_tx_level P high w)) = sent w) \<and>
     (\<forall>us w. sent (esp_rom_delay_us P us w) = sent w) \<and>
     (\<forall>n s. traffic sent s (vTaskDelay P n s) []) \<and>
     (\<forall>n s. traffic sent s (snd (uart_read_byte P n s)) [])"

lemma line_lawsD:
  assumes "line_laws P sent"
  shows "uart_laws P sent"
    and "uart_param_config P rate w = (e, w') \<Longrightarrow> sent w' = sent w"
    and "uart_set_pin P w = (e, w') \<Longrightarrow> sent w' = sent w"
    and "uart_flush_input P w = (e, w') \<Longrightarrow> sent w' = sent w"
    and "uart_set_baudrate P rate w = (e, w') \<Longrightarrow> sent w' = sent w"
    and "gpio_reset_tx_pin P w = (e, w') \<Longrightarrow> sent w' = sent w"
    and "gpio_set_tx_open_drain P w = (e, w') \<Longrightarrow> sent w' = sent w"
    and "gpio_set_tx_level P high w = (e, w') \<Longrightarrow> sent w' = sent w"
    and "sent (esp_rom_delay_us P us w) = sent w"
    and "traffic sent s (vTaskDelay P n s) []"
    and "uart_read_byte P n s = (r, t) \<Longrightarrow> traffic sent s t []"
  using assms unfolding line_laws_def by simp_all (metis snd_conv)+

lemma receive_frame_loop_traffic:
  assumes laws: "line_laws P sent" and "traffic sent s0 s fs"
  shows "wp (receive_frame_loop P fuel d deadline)
           (\<lambda>r t. \<forall>f. r = Some (ESP_OK, f) \<longrightarrow> traffic sent s0 t fs) s"
  using assms(2)
proof (induction fuel arbitrary: d s)
  case (Suc fuel)
  obtain now w where timer: "esp_timer_get_time P (world s) = (now, w)" by fastforce
  obtain c b t where read: "uart_read_byte P 10 (s\<lparr>world := w\<rparr>) = ((c, b), t)"
    by (metis prod.exhaust)
  note timed = uart_lawsD(2) [OF line_lawsD(1) [OF laws]]
  have t: "traffic sent s0 t fs"
    using traffic_quiet [OF _ line_lawsD(11) [OF laws read]] timed [OF timer] Suc.prems
    by (simp add: traffic_world)
  obtain later w' where timer': "esp_timer_get_time P (world t) = (later, w')" by fastforce
  show ?case
    using timer read timer' timed [OF timer'] Suc.IH t
    by (auto split: prod.splits ExpansionDecodeResult.splits simp: mark_rx_activity_def traffic_world
        intro!: wp_mono [OF wp_trivial [where m = "send_status P ExpansionFrameErrorUnknown"]]
        elim: traffic_same)
qed simp

lemma receive_frame_sync_traffic:
  assumes laws: "line_laws P sent" and "traffic sent s0 s fs"
  shows "wp (receive_frame_sync P fuel ms)
           (\<lambda>r t. \<forall>f. r = Some (ESP_OK, f) \<longrightarrow> traffic sent s0 t fs) s"
proof -
  obtain now w where timer: "esp_timer_get_time P (world s) = (now, w)" by fastforce
  then have "traffic sent s0 (s\<lparr>world := w\<rparr>) fs"
    using uart_lawsD(2) [OF line_lawsD(1) [OF laws]] assms(2) by (simp add: traffic_world)
  from receive_frame_loop_traffic [OF laws this] timer show ?thesis
    by (simp add: receive_frame_sync_def)
qed

lemma length_baud_rates: "length bridge_preferred_baud_rates = 6"
  by (simp add: bridge_preferred_baud_rates_def)

definition negotiated :: "('w \<Rightarrow> u8 list) \<Rightarrow> 'w Bridge \<Rightarrow> u32 list \<Rightarrow> ExpansionFrame list \<Rightarrow>
    'w Bridge \<Rightarrow> bool" where
  "negotiated sent s0 rates fs t \<longleftrightarrow>
     sm_state (machine t) \<in> session_states \<and>
     (\<exists>k < length rates. negotiated_baud t = rates ! k \<and>
        traffic sent s0 t (fs @ map BaudRateFrame (take (Suc k) rates)))"

lemma negotiated_later:
  assumes "negotiated sent s0 rates (fs @ [BaudRateFrame baud]) t"
  shows "negotiated sent s0 (baud # rates) fs t"
proof -
  from assms obtain k where "k < length rates" "negotiated_baud t = rates ! k"
    "traffic sent s0 t ((fs @ [BaudRateFrame baud]) @ map BaudRateFrame (take (Suc k) rates))"
    "sm_state (machine t) \<in> session_states"
    unfolding negotiated_def by blast
  then show ?thesis
    unfolding negotiated_def by (intro conjI exI [of _ "Suc k"]) auto
qed

text \<open>A rate that the Flipper accepts is the one that is left as negotiated.\<close>

lemma negotiated_first:
  assumes laws: "line_laws P sent" and rely: "supervisor_rely P"
    and "traffic sent s0 u (fs @ [BaudRateFrame baud])" and "sm_state m = ExpansionStateReady"
    and "sent w' = sent (world (vTaskDelay P ms (u\<lparr>machine := m\<rparr>)))"
  shows "negotiated sent s0 (baud # rates) fs
       (vTaskDelay P ms (u\<lparr>machine := m\<rparr>)\<lparr>negotiated_baud := baud, world := w',
          last_rx_us := now, last_tx_us := now\<rparr>)"
proof -
  let ?u = "vTaskDelay P ms (u\<lparr>machine := m\<rparr>)"
  have "traffic sent s0 (u\<lparr>machine := m\<rparr>) (fs @ [BaudRateFrame baud])" using assms(3) by simp
  from traffic_quiet [OF this line_lawsD(10) [OF laws, where n = ms]] assms(5)
  have "traffic sent s0 (?u\<lparr>negotiated_baud := baud, world := w', last_rx_us := now,
      last_tx_us := now\<rparr>) (fs @ [BaudRateFrame baud])"
    by (simp add: traffic_def)
  moreover have "sm_state (machine ?u) \<in> session_states"
    using blocking_callsD(3) [OF supervisor_relyD(3) [OF rely], of "u\<lparr>machine := m\<rparr>"] assms(4)
    by (simp add: session_states_def)
  ultimately show ?thesis unfolding negotiated_def by (intro conjI exI [of _ 0]) auto
qed

lemma negotiate_baud_spec:
  assumes laws: "line_laws P sent" and rely: "supervisor_rely P"
    and "sm_state (machine s) = ExpansionStateNegotiatingBaud" and "traffic sent s0 s fs"
  shows "wp (negotiate_baud P fuel rates)
           (\<lambda>r t. r = Some ESP_OK \<longrightarrow> negotiated sent s0 rates fs t) s"
  using assms(3,4)
proof (induction rates arbitrary: s fs)
  case (Cons baud rates)
  let ?N = "\<lambda>s. sm_state (machine s) = ExpansionStateNegotiatingBaud"
  have keep: "keeps P (\<lambda>m. sm_state m = ExpansionStateNegotiatingBaud)"
    using supervisor_relyD(2) [OF rely] by (simp add: session_states_def)
  have sending: "wp (send_frame P (BaudRateFrame baud)) (\<lambda>e t.
      ?N t \<and> (e = ESP_OK \<longrightarrow> traffic sent s0 t (fs @ [BaudRateFrame baud]))) s"
    using send_frame_traffic [OF line_lawsD(1) [OF laws] sendable_baud_frame Cons.prems(2), of baud]
      preservesD [OF machine_safe_frames(1) [OF keep] Cons.prems(1)]
    by (auto intro: wp_both)
  have receiving: "wp (receive_frame_sync P fuel BRIDGE_EXPANSION_TIMEOUT_MS) (\<lambda>r t.
      ?N t \<and> (\<forall>f. r = Some (ESP_OK, f) \<longrightarrow> traffic sent s0 t (fs @ [BaudRateFrame baud]))) u"
    if "?N u" and "traffic sent s0 u (fs @ [BaudRateFrame baud])" for u
    by (rule wp_both [OF receive_frame_sync_traffic [OF laws that(2)]
          preservesD [OF machine_safe_receive(2) [OF keep] that(1)]]) blast
  note accepted = negotiated_first [OF laws rely]
  have rejected: "wp (negotiate_baud P fuel rates) (\<lambda>r t. r = Some ESP_OK \<longrightarrow>
      negotiated sent s0 (baud # rates) fs t) u"
    if "?N u" and "traffic sent s0 u (fs @ [BaudRateFrame baud])" for u
    using Cons.IH [OF that] by (rule wp_mono) (blast intro: negotiated_later)
  have timed: "sent w' = sent w" if "uart_set_baudrate P baud w = (e, w1)"
      and "esp_timer_get_time P w1 = (now, w')" for w w1 w' e now
    using line_lawsD(5) [OF laws that(1)] uart_lawsD(2) [OF line_lawsD(1) [OF laws] that(2)] by simp
  show ?case
    apply (simp del: BRIDGE_EXPANSION_TIMEOUT_MS_def BRIDGE_EXPANSION_BAUD_DEAD_TIME_MS_def)
    apply (rule wp_mono [OF sending])
    apply (clarsimp simp del: BRIDGE_EXPANSION_TIMEOUT_MS_def BRIDGE_EXPANSION_BAUD_DEAD_TIME_MS_def)
    apply (rule wp_mono [OF receiving], assumption, assumption)
    apply (auto split: option.splits prod.splits esp_err.splits ExpansionFrame.splits
        simp: apply_simps simp del: BRIDGE_EXPANSION_BAUD_DEAD_TIME_MS_def
        intro!: rejected accepted timed)
    done
qed simp

lemma machine_init [simp]:
  "sm_state expansion_state_machine_init = ExpansionStateDisconnected"
  "reconnect_attempts expansion_state_machine_init = 0"
  by (simp_all add: expansion_state_machine_init_def)

lemma wp_pulse_flipper_rx:
  assumes laws: "line_laws P sent" and rely: "supervisor_rely P"
    and "traffic sent s0 s fs" and "sm_state (machine s) = ExpansionStateInitialUart"
  shows "wp (pulse_flipper_rx P)
           (\<lambda>e t. traffic sent s0 t fs \<and> sm_state (machine t) = ExpansionStateInitialUart) s"
proof -
  have paused: "traffic sent s0 (vTaskDelay P n (u\<lparr>world := w\<rparr>)) fs \<and>
      sm_state (machine (vTaskDelay P n (u\<lparr>world := w\<rparr>))) = ExpansionStateInitialUart"
    if "traffic sent s0 u fs" and "sm_state (machine u) = ExpansionStateInitialUart"
      and "sent w = sent (world u)" for u w n
  proof
    show "traffic sent s0 (vTaskDelay P n (u\<lparr>world := w\<rparr>)) fs"
      using that by (intro traffic_quiet [OF _ line_lawsD(10) [OF laws]]) (simp add: traffic_world)
    show "sm_state (machine (vTaskDelay P n (u\<lparr>world := w\<rparr>))) = ExpansionStateInitialUart"
      using blocking_callsD(3) [OF supervisor_relyD(2) [OF rely, of ExpansionStateInitialUart],
          of "u\<lparr>world := w\<rparr>"] that
      by (simp add: session_states_def)
  qed
  show ?thesis
    using assms(3,4) paused
    by (auto simp: pulse_flipper_rx_def traffic_world line_lawsD(9) [OF laws]
        line_lawsD(6) [OF laws] line_lawsD(7) [OF laws] line_lawsD(8) [OF laws] split: prod.splits)
qed

lemma wp_uart_configure:
  assumes laws: "line_laws P sent" and "traffic sent s0 s fs"
  shows "wp (uart_configure P rate) (\<lambda>e t. traffic sent s0 t fs \<and> machine t = machine s) s"
  using assms(2)
  by (auto simp: uart_configure_def traffic_world line_lawsD(2) [OF laws] line_lawsD(3) [OF laws]
      line_lawsD(4) [OF laws] split: prod.splits)


lemma sim_line_laws: "line_laws sim_platform sim_sent"
  unfolding line_laws_def
  by (auto simp: sim_uart_laws) (auto simp: sim_platform_def sim_wait_def intro!: traffic_refl split: list.splits)

text \<open>A Flipper that sends its heartbeat, rejects the first rate and accepts the second.\<close>

definition sim_flipper :: "sim_world Bridge" where
  "sim_flipper = sim_bridge ExpansionStateBackoff
     (sim_start\<lparr>sim_incoming := [1, 1, 2, 2, 0, 2, 0, 2]\<rparr>)"

lemma sim_establishes:
  "fst (run_state (establish_expansion sim_platform 20) sim_flipper) = Some ESP_OK"
  by code_simp


section \<open>Attempts\<close>

abbreviation no_retries :: "ExpansionStateMachine \<Rightarrow> bool" where
  "no_retries \<equiv> \<lambda>m. reconnect_attempts m = 0"

lemma no_retries_event:
  assumes "e \<notin> {ExpansionEventTimeout, ExpansionEventFrameError}"
  shows "machine_safe no_retries (transport_apply e)"
  using assms by (cases e) (auto simp: preserves_def apply_simps)

lemma establish_no_retries:
  assumes "supervisor_rely P"
  shows "wp (establish_expansion P fuel) (\<lambda>r t. no_retries (machine t)) s"
proof -
  have keep: "keeps P no_retries" using supervisor_relyD(1) [OF assms] .
  note rules = preserves_rules machine_rules machine_safe_blocking [OF keep]
    machine_safe_frames [OF keep] machine_safe_receive [OF keep]
  have baud: "machine_safe no_retries (negotiate_baud P fuel rates)" for rates
    by (induction rates)
       (auto intro!: rules no_retries_event split: esp_err.split ExpansionFrame.split)
  have pulse: "machine_safe no_retries (pulse_flipper_rx P)"
    unfolding pulse_flipper_rx_def by (intro rules)
  have configure: "machine_safe no_retries (uart_configure P rate)" for rate
    unfolding uart_configure_def by (intro rules)
  show ?thesis
    unfolding establish_expansion_def wp_bind [of "modify _"] wp_modify
    by (rule preservesD) (auto intro!: rules no_retries_event baud pulse configure)
qed

lemma pause_backs_off:
  assumes "supervisor_rely P"
    and "sm_state (machine s) = ExpansionStateBackoff" and "reconnect_attempts (machine s) = 1"
  shows "sm_state (machine (vTaskDelay P n s)) = ExpansionStateBackoff \<and>
         reconnect_attempts (machine (vTaskDelay P n s)) = 1"
  using blocking_callsD(3) [OF supervisor_relyD(1) [OF assms(1)] assms(3)]
    blocking_callsD(3) [OF supervisor_relyD(2) [OF assms(1)] assms(2)]
  by (simp add: session_states_def)

text \<open>What a round of the supervisor leaves: the number of attempts and the back-off.\<close>

definition backing_off :: "nat \<Rightarrow> 'w Bridge \<Rightarrow> bool" where
  "backing_off n t \<longleftrightarrow> 1 \<le> n \<and> n \<le> BRIDGE_EXPANSION_MAX_RETRIES \<and>
     sm_state (machine t) = ExpansionStateBackoff \<and> reconnect_attempts (machine t) = 1"

lemma connection_failed_backs_off:
  assumes "supervisor_rely P" and "no_retries (machine s)" and "attempts < 3"
  shows "wp (connection_failed P attempts) (\<lambda>n t. backing_off n t) s"
  using assms(2,3)
  by (auto simp: connection_failed_def release_expansion_pins_def backing_off_def apply_simps
      fail_connection_def pause_backs_off [OF assms(1)] split: prod.splits)

lemma serve_connection_backs_off:
  assumes "supervisor_rely P" and "no_retries (machine s)"
  shows "wp (serve_connection P) (\<lambda>r t. \<forall>n. r = Some n \<longrightarrow> backing_off n t) s"
proof -
  have keep: "keeps P no_retries" using supervisor_relyD(1) [OF assms(1)] .
  note rules = preserves_rules machine_rules machine_safe_blocking [OF keep]
  have start: "machine_safe no_retries (start_io_tasks P)"
    unfolding start_io_tasks_def by (intro rules) simp_all
  have await: "machine_safe no_retries (await_io_tasks P n)" for n
    by (induction n) (auto intro!: rules)
  have stop: "machine_safe no_retries (stop_io_tasks P)"
    unfolding stop_io_tasks_def by (intro rules await) simp_all
  note waited = blocking_callsD(7) [OF keep]
  show ?thesis
    unfolding serve_connection_def
    apply simp
    apply (rule wp_mono [OF preservesD [OF start assms(2)]])
    apply simp
    apply (rule wp_mono [OF preservesD [OF stop]])
     apply (simp add: waited)
    apply (auto simp: release_expansion_pins_def backing_off_def apply_simps
        fail_connection_def pause_backs_off [OF assms(1)] split: prod.splits)
    done
qed

text \<open>
  C26. Retries are bounded by the supervisor, not by the machine: from at most three attempts,
  a round of the supervisor either ends the task or leaves one to three attempts on its
  counter, and then the machine is backing off with exactly one retry on its own counter. So
  the machine's own limit of three is never reached in the running firmware, and the state it
  reports when the supervisor has given up is still "backoff".
\<close>

theorem supervisor_attempts_bounded:
  assumes "supervisor_rely P" and "attempts \<le> BRIDGE_EXPANSION_MAX_RETRIES"
    and "run_state (supervisor_round P fuel attempts) s = (Some (Some n), t)"
  shows "1 \<le> n \<and> n \<le> BRIDGE_EXPANSION_MAX_RETRIES \<and>
         sm_state (machine t) = ExpansionStateBackoff \<and> reconnect_attempts (machine t) = 1"
proof -
  have retry: "wp (wait_for_retry P attempts) (\<lambda>r t. \<forall>a. r = Some a \<longrightarrow> a < 3) s"
    using assms(2) by (auto simp: wait_for_retry_def release_expansion_pins_def split: prod.splits)
  have "wp (supervisor_round P fuel attempts)
      (\<lambda>r t. \<forall>n. r = Some (Some n) \<longrightarrow> backing_off n t) s"
    unfolding supervisor_round_def
    by (auto intro!: wp_mono [OF retry] wp_mono [OF establish_no_retries [OF assms(1)]]
        wp_mono [OF connection_failed_backs_off [OF assms(1)]]
        wp_mono [OF serve_connection_backs_off [OF assms(1)]] split: option.splits)
  from wpD [OF this assms(3)] show ?thesis by (simp add: backing_off_def)
qed

text \<open>A silent Flipper: the wait for its heartbeat times out and the attempt fails.\<close>

lemma sim_silent_round:
  "fst (run_state (supervisor_round sim_platform 30 2)
     (sim_bridge ExpansionStateBackoff sim_start)) = Some (Some 3)"
  by code_simp

theorem supervisor_attempts_bounded_witness:
  "\<exists>t. run_state (supervisor_round sim_platform 30 2)
         (sim_bridge ExpansionStateBackoff sim_start) = (Some (Some 3), t) \<and>
       sm_state (machine t) = ExpansionStateBackoff \<and> reconnect_attempts (machine t) = 1"
proof -
  obtain t where run: "run_state (supervisor_round sim_platform 30 2)
      (sim_bridge ExpansionStateBackoff sim_start) = (Some (Some 3), t)"
    using sim_silent_round by (metis prod.collapse)
  from supervisor_attempts_bounded [OF sim_supervisor_rely _ run] run show ?thesis by simp
qed

end
