(* ===== verification/Bridge_Credentials.thy ===== *)
theory Bridge_Credentials
  imports Simulated_Network
begin

text \<open>
  \<open>bridge_credentials.h\<close> and \<open>bridge_credentials.c\<close>: the WPA2 password and the pairing
  secret, made on the first boot and kept in flash. The NVS library is a parameter: a read
  answers its error, the bytes it wrote to the head of the buffer and the size it stored.
  Strings are their bytes, with the terminator where the C array holds it.
\<close>

section \<open>State and platform\<close>

record 'w storage =
  nvs_flash_init :: "'w \<Rightarrow> esp_err \<times> 'w"
  nvs_flash_erase :: "'w \<Rightarrow> esp_err \<times> 'w"
  nvs_open :: "'w \<Rightarrow> esp_err \<times> 'w"
  nvs_get_str :: "string \<Rightarrow> nat \<Rightarrow> 'w \<Rightarrow> (esp_err \<times> u8 list \<times> nat) \<times> 'w"
  nvs_get_blob :: "string \<Rightarrow> nat \<Rightarrow> 'w \<Rightarrow> (esp_err \<times> u8 list \<times> nat) \<times> 'w"
  nvs_set_str :: "string \<Rightarrow> u8 list \<Rightarrow> 'w \<Rightarrow> esp_err \<times> 'w"
  nvs_set_blob :: "string \<Rightarrow> u8 list \<Rightarrow> 'w \<Rightarrow> esp_err \<times> 'w"
  nvs_commit :: "'w \<Rightarrow> esp_err \<times> 'w"
  nvs_close :: "'w \<Rightarrow> 'w"

record BridgeCredentials =
  cr_ap_password :: "u8 list"
  cr_pairing_secret :: "u8 list"
  cr_newly_created :: bool

definition NVS_AP_PASSWORD_KEY :: string where "NVS_AP_PASSWORD_KEY = ''ap_password''"
definition NVS_PAIR_SECRET_KEY :: string where "NVS_PAIR_SECRET_KEY = ''pair_secret''"

definition credential_alphabet :: "u8 list" where
  "credential_alphabet = ascii ''ABCDEFGHJKLMNPQRSTUVWXYZabcdefghijkmnopqrstuvwxyz23456789''"

text \<open>The C string in an array: the bytes before the first terminator.\<close>

definition c_string :: "u8 list \<Rightarrow> u8 list" where
  "c_string array = takeWhile (\<lambda>b. b \<noteq> 0) array"

text \<open>An array after bytes were written to its head.\<close>

definition overwrite :: "u8 list \<Rightarrow> u8 list \<Rightarrow> u8 list" where
  "overwrite array bytes = bytes @ drop (length bytes) array"

section \<open>Operations\<close>

definition bridge_credentials_clear :: "BridgeCredentials option \<Rightarrow> BridgeCredentials option" where
  "bridge_credentials_clear credentials =
     map_option (\<lambda>c. \<lparr>cr_ap_password = replicate (BRIDGE_AP_PASSWORD_BYTES + 1) 0,
       cr_pairing_secret = replicate BRIDGE_PAIRING_SECRET_BYTES 0, cr_newly_created = False\<rparr>)
     credentials"

definition draw_character :: "u8 \<Rightarrow> u8" where
  "draw_character random = credential_alphabet ! (unat random mod length credential_alphabet)"

definition generate_password :: "'w network \<Rightarrow> ('w, u8 list) task" where
  "generate_password N = do {
     random \<leftarrow> device (esp_fill_random N BRIDGE_AP_PASSWORD_BYTES);
     ret (map draw_character random @ [0])
   }"

text \<open>The write-back of freshly made credentials: the first error, or ESP_OK.\<close>

definition store_credentials :: "'w storage \<Rightarrow> BridgeCredentials \<Rightarrow> ('w, esp_err) task" where
  "store_credentials S c = do {
     error \<leftarrow> device (nvs_set_str S NVS_AP_PASSWORD_KEY (c_string (cr_ap_password c) @ [0]));
     error \<leftarrow> if error = ESP_OK
             then device (nvs_set_blob S NVS_PAIR_SECRET_KEY (cr_pairing_secret c))
             else ret error;
     if error = ESP_OK then device (nvs_commit S) else ret error
   }"

definition create_credentials ::
    "'w storage \<Rightarrow> 'w network \<Rightarrow> BridgeCredentials \<Rightarrow> ('w, esp_err \<times> BridgeCredentials option) task"
where
  "create_credentials S N c = do {
     password \<leftarrow> generate_password N;
     secret \<leftarrow> device (esp_fill_random N BRIDGE_PAIRING_SECRET_BYTES);
     let made = c\<lparr>cr_ap_password := password, cr_pairing_secret := secret\<rparr> in do {
       error \<leftarrow> store_credentials S made;
       device_do (nvs_close S);
       if error \<noteq> ESP_OK then ret (error, bridge_credentials_clear (Some made))
       else ret (ESP_OK, Some (made\<lparr>cr_newly_created := True\<rparr>))
     }
   }"

definition bridge_credentials_load_or_create ::
    "'w storage \<Rightarrow> 'w network \<Rightarrow> BridgeCredentials option \<Rightarrow>
     ('w, esp_err \<times> BridgeCredentials option) task" where
  "bridge_credentials_load_or_create S N credentials =
     (case bridge_credentials_clear credentials of
        None \<Rightarrow> ret (ESP_ERR_INVALID_ARG, None)
      | Some blank \<Rightarrow> do {
          error \<leftarrow> device (nvs_open S);
          if error \<noteq> ESP_OK then ret (error, Some blank)
          else do {
            (password_error, password, password_size) \<leftarrow>
              device (nvs_get_str S NVS_AP_PASSWORD_KEY (BRIDGE_AP_PASSWORD_BYTES + 1));
            (secret_error, secret, secret_size) \<leftarrow>
              device (nvs_get_blob S NVS_PAIR_SECRET_KEY BRIDGE_PAIRING_SECRET_BYTES);
            let loaded = blank\<lparr>cr_ap_password := overwrite (cr_ap_password blank) password,
                               cr_pairing_secret := overwrite (cr_pairing_secret blank) secret\<rparr> in
            if password_error = ESP_OK \<and> secret_error = ESP_OK \<and>
               password_size = BRIDGE_AP_PASSWORD_BYTES + 1 \<and>
               secret_size = BRIDGE_PAIRING_SECRET_BYTES
            then do {
              device_do (nvs_close S);
              ret (ESP_OK, Some loaded)
            } else if password_error \<noteq> ESP_ERR_NVS_NOT_FOUND \<and> password_error \<noteq> ESP_OK \<or>
                      secret_error \<noteq> ESP_ERR_NVS_NOT_FOUND \<and> secret_error \<noteq> ESP_OK
            then do {
              device_do (nvs_close S);
              ret (if password_error \<noteq> ESP_OK \<and> password_error \<noteq> ESP_ERR_NVS_NOT_FOUND
                   then password_error else secret_error,
                   bridge_credentials_clear (Some loaded))
            } else create_credentials S N loaded
          }
        })"

section \<open>The password\<close>

lemma alphabet_length [simp]: "length credential_alphabet = 57"
  by (simp add: credential_alphabet_def)

lemma alphabet_distinct: "distinct credential_alphabet"
  by code_simp

lemma card_residue:
  assumes "k < 57"
  shows "card {r :: u8. unat r mod 57 = k} = (if k < 28 then 5 else 4)"
proof -
  have "unat ` {r :: u8. unat r mod 57 = k} = {n. n < 256 \<and> n mod 57 = k}"
  proof (intro equalityI subsetI)
    fix n assume "n \<in> {n. n < 256 \<and> n mod 57 = k}"
    then have "unat (of_nat n :: u8) = n" and "n mod 57 = k"
      by (simp_all add: unsigned_of_nat take_bit_nat_eq_self)
    then show "n \<in> unat ` {r :: u8. unat r mod 57 = k}"
      by (intro image_eqI [of _ _ "of_nat n"]) auto
  next
    fix n assume "n \<in> unat ` {r :: u8. unat r mod 57 = k}"
    then obtain r :: u8 where "n = unat r" and "unat r mod 57 = k" by auto
    then show "n \<in> {n. n < 256 \<and> n mod 57 = k}"
      using unsigned_less [of r, where ?'a = nat] by simp
  qed
  moreover have "{n. n < 256 \<and> n mod 57 = k} = (\<lambda>j. k + 57 * j) ` {..<(if k < 28 then 5 else 4)}"
  proof (intro equalityI subsetI)
    fix n assume "n \<in> {n. n < 256 \<and> n mod 57 = k}"
    then have "n = k + 57 * (n div 57)" and "n < 256" by auto
    then show "n \<in> (\<lambda>j. k + 57 * j) ` {..<(if k < 28 then 5 else 4)}"
      by (intro image_eqI [of _ _ "n div 57"]) auto
  qed (use assms in \<open>auto split: if_splits\<close>)
  moreover have "inj_on unat {r :: u8. unat r mod 57 = k}"
    by (rule inj_onI) (simp add: word_unat_eq_iff)
  ultimately have "card {r :: u8. unat r mod 57 = k} =
      card ((\<lambda>j. k + 57 * j) ` {..<(if k < 28 then 5 else 4 :: nat)})"
    using card_image [of unat "{r :: u8. unat r mod 57 = k}"] by simp
  then show ?thesis by (simp add: card_image inj_on_def)
qed

text \<open>
  C40. A generated password is close to uniform: each of the 57 characters of the alphabet is
  drawn by four or by five of the 256 values of a random byte, and nothing else is drawn.
\<close>

theorem password_nearly_uniform:
  "if ch \<in> set credential_alphabet
   then card {random. draw_character random = ch} \<in> {4, 5}
   else {random. draw_character random = ch} = {}"
proof -
  have index: "{r. draw_character r = ch} = {r. unat r mod 57 = k}"
    if "k < 57" and "ch = credential_alphabet ! k" for k
    using that by (simp add: draw_character_def nth_eq_iff_index_eq [OF alphabet_distinct])
  show ?thesis
  proof (cases "ch \<in> set credential_alphabet")
    case True
    then obtain k where "k < 57" and "ch = credential_alphabet ! k"
      by (auto simp: in_set_conv_nth)
    then show ?thesis using index card_residue by (simp add: True)
  qed (auto simp: draw_character_def)
qed

section \<open>Persistence\<close>

text \<open>
  \<open>stored\<close> reads off the outside what the namespace holds. The laws are the documented
  behaviour of NVS: a read finds what was stored, or reports that it is missing or does not
  fit; a successful write stores; the other calls change nothing.
\<close>

definition nvs_reads ::
    "(string \<Rightarrow> nat \<Rightarrow> 'w \<Rightarrow> (esp_err \<times> u8 list \<times> nat) \<times> 'w) \<Rightarrow> ('w \<Rightarrow> string \<rightharpoonup> u8 list) \<Rightarrow> bool" where
  "nvs_reads get stored \<longleftrightarrow>
     (\<forall>key capacity w e bs n w'. get key capacity w = ((e, bs, n), w') \<longrightarrow> stored w' = stored w \<and>
        (case stored w key of
           None \<Rightarrow> e = ESP_ERR_NVS_NOT_FOUND \<and> bs = []
         | Some v \<Rightarrow> if length v \<le> capacity then e = ESP_OK \<and> bs = v \<and> n = length v
                     else e \<noteq> ESP_OK \<and> e \<noteq> ESP_ERR_NVS_NOT_FOUND))"

definition nvs_laws :: "'w storage \<Rightarrow> 'w network \<Rightarrow> ('w \<Rightarrow> string \<rightharpoonup> u8 list) \<Rightarrow> bool" where
  "nvs_laws S N stored \<longleftrightarrow> nvs_reads (nvs_get_str S) stored \<and> nvs_reads (nvs_get_blob S) stored \<and>
     (\<forall>key v w w'. nvs_set_str S key v w = (ESP_OK, w') \<longrightarrow> stored w' = (stored w)(key \<mapsto> v)) \<and>
     (\<forall>key v w w'. nvs_set_blob S key v w = (ESP_OK, w') \<longrightarrow> stored w' = (stored w)(key \<mapsto> v)) \<and>
     (\<forall>w. stored (snd (nvs_open S w)) = stored w) \<and>
     (\<forall>w. stored (snd (nvs_commit S w)) = stored w) \<and>
     (\<forall>w. stored (nvs_close S w) = stored w) \<and>
     (\<forall>n w. stored (snd (esp_fill_random N n w)) = stored w \<and>
        length (fst (esp_fill_random N n w)) = n)"

lemma nvs_readsD:
  assumes "nvs_reads get stored" and "get key k w = ((e, bs, n), w')"
  shows "stored w' = stored w"
    and "e = ESP_OK \<Longrightarrow> stored w key = Some bs \<and> n = length bs"
    and "stored w key = Some v \<Longrightarrow> length v \<le> k \<Longrightarrow> e = ESP_OK \<and> bs = v \<and> n = length v"
proof -
  have found: "stored w' = stored w \<and>
      (case stored w key of
         None \<Rightarrow> e = ESP_ERR_NVS_NOT_FOUND \<and> bs = []
       | Some v \<Rightarrow> if length v \<le> k then e = ESP_OK \<and> bs = v \<and> n = length v
                   else e \<noteq> ESP_OK \<and> e \<noteq> ESP_ERR_NVS_NOT_FOUND)"
    using assms unfolding nvs_reads_def by blast
  then show "stored w' = stored w" by blast
  show "e = ESP_OK \<Longrightarrow> stored w key = Some bs \<and> n = length bs"
    using found by (auto split: option.splits if_splits)
  show "stored w key = Some v \<Longrightarrow> length v \<le> k \<Longrightarrow> e = ESP_OK \<and> bs = v \<and> n = length v"
    using found by simp
qed

lemma nvs_lawsD:
  assumes "nvs_laws S N stored"
  shows "nvs_reads (nvs_get_str S) stored" and "nvs_reads (nvs_get_blob S) stored"
    and "nvs_set_str S key v w = (ESP_OK, w') \<Longrightarrow> stored w' = (stored w)(key \<mapsto> v)"
    and "nvs_set_blob S key v w = (ESP_OK, w') \<Longrightarrow> stored w' = (stored w)(key \<mapsto> v)"
    and "nvs_open S w = (e, w') \<Longrightarrow> stored w' = stored w"
    and "nvs_commit S w = (e, w') \<Longrightarrow> stored w' = stored w"
    and "stored (nvs_close S w) = stored w"
    and "esp_fill_random N n w = (bs, w') \<Longrightarrow> stored w' = stored w \<and> length bs = n"
  using assms unfolding nvs_laws_def by simp_all (metis fst_conv snd_conv)+

lemma alphabet_nonzero: "ch \<in> set credential_alphabet \<Longrightarrow> ch \<noteq> 0"
  by (auto simp: credential_alphabet_def ascii_def)

lemma drawn_character: "draw_character r \<in> set credential_alphabet"
  unfolding draw_character_def by (rule nth_mem) simp

lemma c_string_drawn:
  "c_string (map draw_character rs @ [0]) = map draw_character rs"
  by (induction rs) (simp_all add: c_string_def alphabet_nonzero [OF drawn_character])

text \<open>Credentials that are in flash are loaded as they are.\<close>

lemma load_stored:
  assumes laws: "nvs_laws S N stored" and opened: "nvs_open S (world s) = (ESP_OK, w)"
    and password: "stored (world s) NVS_AP_PASSWORD_KEY = Some p" and "length p = 21"
    and secret: "stored (world s) NVS_PAIR_SECRET_KEY = Some q" and "length q = 32"
  shows "wp (bridge_credentials_load_or_create S N (Some c))
     (\<lambda>r t. r = (ESP_OK, Some \<lparr>cr_ap_password = p, cr_pairing_secret = q, cr_newly_created = False\<rparr>) \<and>
        stored (world t) = stored (world s)) s"
proof -
  obtain e1 bs1 n1 w1 where get1: "nvs_get_str S NVS_AP_PASSWORD_KEY 21 w = ((e1, bs1, n1), w1)"
    by (metis prod_cases3 surj_pair)
  obtain e2 bs2 n2 w2 where get2: "nvs_get_blob S NVS_PAIR_SECRET_KEY 32 w1 = ((e2, bs2, n2), w2)"
    by (metis prod_cases3 surj_pair)
  have w: "stored w = stored (world s)" using nvs_lawsD(5) [OF laws opened] .
  note read1 = nvs_readsD [OF nvs_lawsD(1) [OF laws] get1]
  note read2 = nvs_readsD [OF nvs_lawsD(2) [OF laws] get2]
  have "e1 = ESP_OK \<and> bs1 = p \<and> n1 = 21" using read1(3) [of p] w assms(3,4) by simp
  moreover have "e2 = ESP_OK \<and> bs2 = q \<and> n2 = 32"
    using read2(3) [of q] read1(1) w assms(5,6) by simp
  ultimately show ?thesis
    using opened get1 get2 read1(1) read2(1) w assms(4,6)
    by (simp add: bridge_credentials_load_or_create_def bridge_credentials_clear_def overwrite_def
        nvs_lawsD(7) [OF laws])
qed

definition in_flash :: "('w \<Rightarrow> string \<rightharpoonup> u8 list) \<Rightarrow> 'w Bridge \<Rightarrow> BridgeCredentials \<Rightarrow> bool" where
  "in_flash stored s c \<longleftrightarrow>
     stored (world s) NVS_AP_PASSWORD_KEY = Some (cr_ap_password c) \<and>
     stored (world s) NVS_PAIR_SECRET_KEY = Some (cr_pairing_secret c) \<and>
     length (cr_ap_password c) = 21 \<and> length (cr_pairing_secret c) = 32"

lemma store_credentials_stores:
  assumes laws: "nvs_laws S N stored"
  shows "wp (store_credentials S c) (\<lambda>e t. e = ESP_OK \<longrightarrow> stored (world t) =
     (stored (world s))(NVS_AP_PASSWORD_KEY \<mapsto> c_string (cr_ap_password c) @ [0],
        NVS_PAIR_SECRET_KEY \<mapsto> cr_pairing_secret c)) s"
  unfolding store_credentials_def
  by (auto split: prod.splits) (metis nvs_lawsD(3,4,6) [OF laws])

lemma keys_differ: "NVS_AP_PASSWORD_KEY \<noteq> NVS_PAIR_SECRET_KEY"
  by (simp add: NVS_AP_PASSWORD_KEY_def NVS_PAIR_SECRET_KEY_def)

definition credentials_result ::
    "('w \<Rightarrow> string \<rightharpoonup> u8 list) \<Rightarrow> esp_err \<times> BridgeCredentials option \<Rightarrow> 'w Bridge \<Rightarrow> bool" where
  "credentials_result stored r t \<longleftrightarrow>
     (\<exists>e c. r = (e, Some c) \<and>
        (if e = ESP_OK
         then in_flash stored t c \<and> (cr_newly_created c \<longrightarrow>
           (\<exists>chars. length chars = 20 \<and> set chars \<subseteq> set credential_alphabet \<and>
              cr_ap_password c = chars @ [0]))
         else c = \<lparr>cr_ap_password = replicate 21 0, cr_pairing_secret = replicate 32 0,
                   cr_newly_created = False\<rparr>))"

lemma create_credentials_result:
  assumes laws: "nvs_laws S N stored"
  shows "wp (create_credentials S N c) (credentials_result stored) s"
proof -
  obtain rs w1 where fill1: "esp_fill_random N 20 (world s) = (rs, w1)" by fastforce
  obtain q w2 where fill2: "esp_fill_random N 32 w1 = (q, w2)" by fastforce
  let ?chars = "map draw_character rs"
  have "length rs = 20" "length q = 32" using nvs_lawsD(8) [OF laws] fill1 fill2 by auto
  moreover have "set ?chars \<subseteq> set credential_alphabet" using drawn_character by auto
  ultimately show ?thesis
    using fill1 fill2
    by (auto simp: create_credentials_def generate_password_def credentials_result_def in_flash_def
        bridge_credentials_clear_def c_string_drawn keys_differ nvs_lawsD(7) [OF laws] Let_def
        intro!: wp_mono [OF store_credentials_stores [OF laws]])
qed

lemma load_or_create_result:
  assumes laws: "nvs_laws S N stored"
  shows "wp (bridge_credentials_load_or_create S N (Some c)) (credentials_result stored) s"
proof -
  have loaded: "credentials_result stored (ESP_OK, Some \<lparr>cr_ap_password = overwrite z p,
      cr_pairing_secret = overwrite z' q, cr_newly_created = False\<rparr>) (s\<lparr>world := nvs_close S w2\<rparr>)"
    if "nvs_get_str S NVS_AP_PASSWORD_KEY k w = ((ESP_OK, p, 21), w1)"
      and "nvs_get_blob S NVS_PAIR_SECRET_KEY k' w1 = ((ESP_OK, q, 32), w2)"
      and "length z = 21" and "length z' = 32" for z z' p q k k' w w1 w2
    using nvs_readsD(1,2) [OF nvs_lawsD(1) [OF laws] that(1)]
      nvs_readsD(1,2) [OF nvs_lawsD(2) [OF laws] that(2)] that(3,4)
    by (auto simp: credentials_result_def in_flash_def overwrite_def nvs_lawsD(7) [OF laws])
  show ?thesis
    by (auto simp: bridge_credentials_load_or_create_def bridge_credentials_clear_def Let_def
        split: prod.splits intro!: create_credentials_result [OF laws] loaded)
       (auto simp: credentials_result_def)
qed



text \<open>Flash on the simulated platform.\<close>

definition sim_store :: "string \<Rightarrow> u8 list \<Rightarrow> sim_world \<Rightarrow> esp_err \<times> sim_world" where
  "sim_store key v w = (ESP_OK, w\<lparr>sim_flash := (key, v) # sim_flash w\<rparr>)"

definition sim_load :: "string \<Rightarrow> nat \<Rightarrow> sim_world \<Rightarrow> (esp_err \<times> u8 list \<times> nat) \<times> sim_world" where
  "sim_load key n w =
     ((case map_of (sim_flash w) key of
         None \<Rightarrow> (ESP_ERR_NVS_NOT_FOUND, [], 0)
       | Some v \<Rightarrow> if length v \<le> n then (ESP_OK, v, length v) else (ESP_ERR_OTHER 4364, [], length v)), w)"

definition sim_storage :: "sim_world storage" where
  "sim_storage =
     \<lparr>nvs_flash_init = (\<lambda>w. (ESP_OK, w)), nvs_flash_erase = (\<lambda>w. (ESP_OK, w\<lparr>sim_flash := []\<rparr>)),
      nvs_open = (\<lambda>w. (ESP_OK, w)), nvs_get_str = sim_load, nvs_get_blob = sim_load,
      nvs_set_str = sim_store, nvs_set_blob = sim_store, nvs_commit = (\<lambda>w. (ESP_OK, w)),
      nvs_close = (\<lambda>w. w)\<rparr>"

lemma sim_nvs_laws: "nvs_laws sim_storage sim_network (\<lambda>w. map_of (sim_flash w))"
  by (auto simp: nvs_laws_def nvs_reads_def sim_storage_def sim_network_def sim_load_def sim_store_def
      split: option.splits if_splits)

definition blank_credentials :: BridgeCredentials where
  "blank_credentials = the (bridge_credentials_clear
     (Some \<lparr>cr_ap_password = [], cr_pairing_secret = [], cr_newly_created = False\<rparr>))"

lemma sim_first_boot:
  "\<exists>c t. run_state (bridge_credentials_load_or_create sim_storage sim_network (Some blank_credentials))
       (sim_bridge ExpansionStateDisconnected sim_start) = ((ESP_OK, Some c), t) \<and> cr_newly_created c"
proof -
  have "wp (bridge_credentials_load_or_create sim_storage sim_network (Some blank_credentials))
      (\<lambda>r t. \<exists>c. r = (ESP_OK, Some c) \<and> cr_newly_created c)
      (sim_bridge ExpansionStateDisconnected sim_start)"
    by (simp add: bridge_credentials_load_or_create_def bridge_credentials_clear_def Let_def
        sim_storage_def sim_load_def sim_store_def sim_bridge_def sim_start_def sim_network_def
        create_credentials_def store_credentials_def generate_password_def)
  then show ?thesis by (auto simp: wp_def split: prod.splits)
qed



end
