(* ===== verification/Pairing_Service.thy ===== *)
theory Pairing_Service
  imports Bridge_Credentials
begin

text \<open>
  \<open>pairing_service.h\<close> and \<open>pairing_service.c\<close>: the USB console that hands out the
  credentials to whoever holds the board's button. The console and the pins are parameters.
  The state of the task holds its context, its local variables and three logs: what it
  printed, what it read, and the button as it was sampled in each round.
\<close>

unbundle bit_operations_syntax

section \<open>State and platform\<close>

record 'w board =
  gpio_get_level :: "'w \<Rightarrow> int \<times> 'w"
  gpio_config :: "'w \<Rightarrow> esp_err \<times> 'w"
  console_set_nonblocking :: "'w \<Rightarrow> 'w"
  console_read :: "'w \<Rightarrow> (int \<times> u8) \<times> 'w"

record PairingContext =
  pc_credentials :: BridgeCredentials
  pc_ssid :: "u8 list"
  pc_deadline_us :: u64

record 'w Pairing = "'w Endpoint" +
  pairing :: PairingContext
  command :: "u8 list"
  command_size :: nat
  held_ms :: u32
  sampled :: "bool list"

definition set_deadline :: "u64 \<Rightarrow> ('w Pairing, unit) state" where
  "set_deadline t = modify (\<lambda>p. p\<lparr>pairing := (pairing p)\<lparr>pc_deadline_us := t\<rparr>\<rparr>)"

section \<open>Operations\<close>

definition hex_digits :: "u8 list" where
  "hex_digits = ascii ''0123456789abcdef''"

definition encode_hex :: "u8 list \<Rightarrow> u8 list" where
  "encode_hex bytes =
     concat (map (\<lambda>b. [hex_digits ! unat (drop_bit 4 b), hex_digits ! unat (b AND 0x0F)]) bytes) @ [0]"

definition pairing_line :: "PairingContext \<Rightarrow> u8 list" where
  "pairing_line c =
     ascii ''FFPAIR1 '' @ c_string (pc_ssid c) @ ascii '' '' @
     c_string (cr_ap_password (pc_credentials c)) @ ascii '' '' @
     c_string (encode_hex (cr_pairing_secret (pc_credentials c))) @ [10]"

definition window_length_us :: u64 where
  "window_length_us = of_nat BRIDGE_PAIRING_WINDOW_MS * 1000"

definition pairing_enter :: "'w platform \<Rightarrow> bool \<Rightarrow> ('w Pairing, unit) state" where
  "pairing_enter P button_held = do {
     modify (\<lambda>p. p\<lparr>command := (command p)[command_size p := 0]\<rparr>);
     now \<leftarrow> on_bridge (device (esp_timer_get_time P));
     p \<leftarrow> gets (\<lambda>p. p);
     do_if (c_string (command p) = ascii ''PAIR'' \<and>
            of_int now < pc_deadline_us (pairing p) \<and> button_held) (do {
       modify (\<lambda>p. p\<lparr>out := out p @ pairing_line (pairing p)\<rparr>);
       set_deadline 0
     });
     modify (\<lambda>p. p\<lparr>command_size := 0\<rparr>)
   }"

definition pairing_byte :: "'w platform \<Rightarrow> bool \<Rightarrow> u8 \<Rightarrow> ('w Pairing, unit) state" where
  "pairing_byte P button_held byte = do {
     size \<leftarrow> gets command_size;
     if byte = 10 \<or> byte = 13 then pairing_enter P button_held
     else if size + 1 < 16
     then modify (\<lambda>p. p\<lparr>command := (command p)[size := byte], command_size := size + 1\<rparr>)
     else modify (\<lambda>p. p\<lparr>command_size := 0\<rparr>)
   }"

text \<open>The reads of one round; None when the console never runs dry within the fuel.\<close>

fun pairing_input :: "'w platform \<Rightarrow> 'w board \<Rightarrow> nat \<Rightarrow> bool \<Rightarrow> ('w Pairing, unit option) state" where
  "pairing_input P B 0 button_held = ret None"
| "pairing_input P B (Suc fuel) button_held = do {
     (count, byte) \<leftarrow> on_bridge (device (console_read B));
     if count \<noteq> 1 then ret (Some ())
     else do {
       modify (\<lambda>p. p\<lparr>got := got p @ [byte]\<rparr>);
       pairing_byte P button_held byte;
       pairing_input P B fuel button_held
     }
   }"

definition pairing_button :: "'w platform \<Rightarrow> 'w board \<Rightarrow> ('w Pairing, bool) state" where
  "pairing_button P B = do {
     level \<leftarrow> on_bridge (device (gpio_get_level B));
     let button_held = (level = 0) in do {
       modify (\<lambda>p. p\<lparr>held_ms := (if button_held then held_ms p + 50 else 0),
                     sampled := sampled p @ [button_held]\<rparr>);
       held \<leftarrow> gets held_ms;
       do_if (held = 2000) (do {
         now \<leftarrow> on_bridge (device (esp_timer_get_time P));
         set_deadline (of_int now + window_length_us)
       });
       ret button_held
     }
   }"

definition pairing_round :: "'w platform \<Rightarrow> 'w board \<Rightarrow> nat \<Rightarrow> ('w Pairing, unit option) state" where
  "pairing_round P B fuel = do {
     button_held \<leftarrow> pairing_button P B;
     ended \<leftarrow> pairing_input P B fuel button_held;
     case ended of
       None \<Rightarrow> ret None
     | Some _ \<Rightarrow> do { on_bridge (pause P 50); ret (Some ()) }
   }"

text \<open>The task, for a number of rounds of its endless loop.\<close>

fun pairing_rounds :: "'w platform \<Rightarrow> 'w board \<Rightarrow> nat \<Rightarrow> nat \<Rightarrow> ('w Pairing, unit option) state" where
  "pairing_rounds P B fuel 0 = ret (Some ())"
| "pairing_rounds P B fuel (Suc n) = do {
     ended \<leftarrow> pairing_round P B fuel;
     case ended of None \<Rightarrow> ret None | Some _ \<Rightarrow> pairing_rounds P B fuel n
   }"

definition pairing_task :: "'w platform \<Rightarrow> 'w board \<Rightarrow> nat \<Rightarrow> nat \<Rightarrow> ('w Pairing, unit option) state" where
  "pairing_task P B fuel n = do {
     on_bridge (device_do (console_set_nonblocking B));
     modify (\<lambda>p. p\<lparr>command := replicate 16 0, command_size := 0, held_ms := 0\<rparr>);
     pairing_rounds P B fuel n
   }"

text \<open>The start answers the context of the task it created, or none.\<close>

definition pairing_service_start ::
    "'w platform \<Rightarrow> 'w board \<Rightarrow> BridgeCredentials option \<Rightarrow> u8 list option \<Rightarrow>
     ('w, esp_err \<times> PairingContext option) task" where
  "pairing_service_start P B credentials ssid =
     (case (credentials, ssid) of
        (Some credentials, Some ssid) \<Rightarrow> do {
          allocated \<leftarrow> device (calloc P);
          if \<not> allocated then ret (ESP_ERR_NO_MEM, None)
          else do {
            deadline \<leftarrow> if cr_newly_created credentials then do {
                          now \<leftarrow> device (esp_timer_get_time P);
                          ret (of_int now + window_length_us)
                        } else ret 0;
            error \<leftarrow> device (gpio_config B);
            if error \<noteq> ESP_OK then ret (error, None)
            else do {
              created \<leftarrow> device (create_task P ''pairing'');
              ret (if \<not> created then (ESP_ERR_NO_MEM, None)
                   else (ESP_OK, Some \<lparr>pc_credentials = credentials,
                     pc_ssid = overwrite (replicate 20 0) (take 19 (c_string ssid)),
                     pc_deadline_us = deadline\<rparr>))
            }
          }
        }
      | _ \<Rightarrow> ret (ESP_ERR_INVALID_ARG, None))"

section \<open>Disclosure\<close>

text \<open>
  \<open>discloses k p p'\<close>: from \<open>p\<close> to \<open>p'\<close> the task printed the pairing line \<open>k\<close> times and
  nothing else, and its credentials did not change.
\<close>

definition discloses :: "nat \<Rightarrow> 'w Pairing \<Rightarrow> 'w Pairing \<Rightarrow> bool" where
  "discloses k p p' \<longleftrightarrow>
     out p' = out p @ concat (replicate k (pairing_line (pairing p))) \<and>
     (\<exists>t. pairing p' = (pairing p)\<lparr>pc_deadline_us := t\<rparr>)"

definition windows_open :: "'w Pairing \<Rightarrow> nat" where
  "windows_open p = (if pc_deadline_us (pairing p) = 0 then 0 else 1)"

text \<open>The windows that a series of button samples opens, after \<open>held\<close> milliseconds.\<close>

fun windows_opened :: "u32 \<Rightarrow> bool list \<Rightarrow> nat" where
  "windows_opened held [] = 0"
| "windows_opened held (b # bs) =
     (let held = (if b then held + 50 else 0)
      in (if held = 2000 then 1 else 0) + windows_opened held bs)"

lemma pairing_line_deadline [simp]: "pairing_line (c\<lparr>pc_deadline_us := t\<rparr>) = pairing_line c"
  by (simp add: pairing_line_def)

lemma own_deadline [simp]: "\<exists>t. c = c\<lparr>pc_deadline_us := t\<rparr>"
  by (rule exI [of _ "pc_deadline_us c"]) simp

lemma discloses_refl [simp]: "discloses 0 p p"
  by (simp add: discloses_def)

lemma discloses_trans: "discloses j p q \<Longrightarrow> discloses k q r \<Longrightarrow> discloses (j + k) p r"
  by (auto simp: discloses_def replicate_add)

lemma discloses_fields [simp]:
  "discloses k p (q\<lparr>bridge := b\<rparr>) = discloses k p q"
  "discloses k p (q\<lparr>got := g\<rparr>) = discloses k p q"
  "discloses k p (q\<lparr>command := c\<rparr>) = discloses k p q"
  "discloses k p (q\<lparr>command_size := n\<rparr>) = discloses k p q"
  "discloses k p (q\<lparr>held_ms := h\<rparr>) = discloses k p q"
  "discloses k p (q\<lparr>sampled := l\<rparr>) = discloses k p q"
  "windows_open (q\<lparr>bridge := b\<rparr>) = windows_open q"
  "windows_open (q\<lparr>got := g\<rparr>) = windows_open q"
  "windows_open (q\<lparr>command := c\<rparr>) = windows_open q"
  "windows_open (q\<lparr>command_size := n\<rparr>) = windows_open q"
  by (simp_all add: discloses_def windows_open_def)

text \<open>Between button samples: a disclosure needs the button and uses up an open window.\<close>

definition serves :: "bool \<Rightarrow> 'w Pairing \<Rightarrow> 'w Pairing \<Rightarrow> bool" where
  "serves button p q \<longleftrightarrow>
     (\<exists>k. discloses k p q \<and> k + windows_open q \<le> windows_open p \<and> (button \<or> k = 0)) \<and>
     held_ms q = held_ms p \<and> sampled q = sampled p"

lemma serves_trans: "serves b p q \<Longrightarrow> serves b q r \<Longrightarrow> serves b p r"
  unfolding serves_def
  by (elim conjE exE, rename_tac j k, intro conjI, rule_tac x = "j + k" in exI)
     (auto intro: discloses_trans)

lemma serves_quiet [simp]:
  "serves b p (p\<lparr>bridge := s\<rparr>)" "serves b p (p\<lparr>got := g\<rparr>)"
  "serves b p (p\<lparr>command := c, command_size := n\<rparr>)" "serves b p (p\<lparr>command_size := n\<rparr>)"
  by (auto simp: serves_def intro: exI [of _ 0])

lemma serves_line:
  assumes "t < pc_deadline_us (pairing p)"
  shows "serves True p (p\<lparr>command := c, bridge := s, out := out p @ pairing_line (pairing p),
           pairing := (pairing p)\<lparr>pc_deadline_us := 0\<rparr>, command_size := n\<rparr>)"
  using assms
  by (auto simp: serves_def windows_open_def discloses_def intro!: exI [of _ "Suc 0"])

lemma pairing_byte_serves: "wp (pairing_byte P button b) (\<lambda>_ q. serves button p q) p"
proof -
  have quiet: "serves button p (p\<lparr>command := c, bridge := s, command_size := n\<rparr>)" for c s n
    by (auto simp: serves_def intro: exI [of _ 0])
  show ?thesis
    using serves_line [of _ p]
    by (auto simp: pairing_byte_def pairing_enter_def set_deadline_def quiet split: prod.splits)
qed

lemma pairing_input_serves: "wp (pairing_input P B fuel button) (\<lambda>_ q. serves button p q) p"
proof (induction fuel arbitrary: p)
  case 0
  show ?case using serves_quiet(1) [of button p "bridge p"] by simp
next
  case (Suc fuel)
  have byte: "wp (pairing_byte P button b) (\<lambda>_ r. wp (pairing_input P B fuel button)
      (\<lambda>_ q. serves button p q) r) (p\<lparr>bridge := s, got := g\<rparr>)" for b s g
  proof (rule wp_mono [OF pairing_byte_serves])
    fix r assume "serves button (p\<lparr>bridge := s, got := g\<rparr>) r"
    then have "serves button p r"
      using serves_quiet(1) [of button p s] serves_quiet(2) [of button "p\<lparr>bridge := s\<rparr>" g]
      by (blast intro: serves_trans)
    then show "wp (pairing_input P B fuel button) (\<lambda>_ q. serves button p q) r"
      by (intro wp_mono [OF Suc.IH]) (rule serves_trans)
  qed
  show ?case by (auto intro: byte split: prod.splits)
qed

text \<open>A round: it samples the button once, and may open a window before it reads.\<close>

definition round_spec :: "'w Pairing \<Rightarrow> 'w Pairing \<Rightarrow> bool list \<Rightarrow> bool" where
  "round_spec p q levels \<longleftrightarrow>
     (\<exists>k. discloses k p q \<and> k + windows_open q \<le> windows_open p + windows_opened (held_ms p) levels \<and>
        (k = 0 \<or> True \<in> set levels)) \<and>
     sampled q = sampled p @ levels \<and>
     held_ms q = foldl (\<lambda>h b. if b then h + 50 else 0) (held_ms p) levels"

lemma windows_opened_append:
  "windows_opened h (as @ bs) =
     windows_opened h as + windows_opened (foldl (\<lambda>h b. if b then h + 50 else 0) h as) bs"
  by (induction as arbitrary: h) (auto simp: Let_def)

lemma round_spec_trans:
  assumes "round_spec p q ls" and "round_spec q r ms"
  shows "round_spec p r (ls @ ms)"
proof -
  from assms obtain j k where "discloses j p q" "discloses k q r"
    "j + windows_open q \<le> windows_open p + windows_opened (held_ms p) ls"
    "k + windows_open r \<le> windows_open q + windows_opened (held_ms q) ms"
    "j = 0 \<or> True \<in> set ls" "k = 0 \<or> True \<in> set ms"
    unfolding round_spec_def by blast
  with assms show ?thesis
    unfolding round_spec_def
    by (intro conjI exI [of _ "j + k"]) (auto simp: windows_opened_append intro: discloses_trans)
qed

lemma pairing_button_opens:
  "wp (pairing_button P B) (\<lambda>held q. round_spec p q [held]) p"
  by (auto simp: pairing_button_def round_spec_def set_deadline_def discloses_def windows_open_def
      Let_def split: prod.splits)

lemma serves_round: "serves b q r \<Longrightarrow> round_spec p q [b] \<Longrightarrow> round_spec p r [b]"
  unfolding serves_def round_spec_def
  by (elim conjE exE, rename_tac j k, intro conjI, rule_tac x = "k + j" in exI)
     (auto intro: discloses_trans)

lemma pairing_round_spec: "wp (pairing_round P B fuel) (\<lambda>_ q. \<exists>held. round_spec p q [held]) p"
proof -
  have paused: "round_spec p (q\<lparr>bridge := s\<rparr>) ls = round_spec p q ls" for q s ls
    by (simp add: round_spec_def)
  show ?thesis
    unfolding pairing_round_def
    by (auto intro!: wp_mono [OF pairing_button_opens] wp_mono [OF pairing_input_serves]
        simp: paused split: option.splits) (blast intro: serves_round)+
qed

lemma pairing_rounds_spec:
  "wp (pairing_rounds P B fuel n) (\<lambda>_ q. \<exists>levels. length levels \<le> n \<and> round_spec p q levels) p"
proof (induction n arbitrary: p)
  case 0
  have "round_spec p p []" by (auto simp: round_spec_def intro: exI [of _ 0])
  then show ?case by auto
next
  case (Suc n)
  have more: "wp (pairing_rounds P B fuel n)
      (\<lambda>_ r. \<exists>levels. length levels \<le> Suc n \<and> round_spec p r levels) q" if "round_spec p q [held]" for q held
    by (rule wp_mono [OF Suc.IH])
       (use round_spec_trans [OF that] in \<open>fastforce intro: exI [of _ "held # _"]\<close>)
  have "wp (pairing_round P B fuel) (\<lambda>r q. wp (case r of None \<Rightarrow> ret None
      | Some _ \<Rightarrow> pairing_rounds P B fuel n)
      (\<lambda>_ r. \<exists>levels. length levels \<le> Suc n \<and> round_spec p r levels) q) p"
    by (rule wp_mono [OF pairing_round_spec])
       (auto split: option.splits intro: more exI [of _ "[_]"])
  then show ?case by simp
qed

text \<open>
  C14. The credentials leave the board only into the hands of someone at the board. Over any
  number of rounds, whatever is typed on the console, the task prints nothing but whole
  pairing lines, at most one for each pairing window (the one open at the start, and one for
  every time the button has been held for two seconds), and none at all unless the button was
  held in one of the rounds.
\<close>

theorem pairing_needs_presence:
  assumes "run_state (pairing_rounds P B fuel n) p = (r, q)"
  shows "\<exists>k levels. sampled q = sampled p @ levels \<and> length levels \<le> n \<and>
    out q = out p @ concat (replicate k (pairing_line (pairing p))) \<and>
    k \<le> (if pc_deadline_us (pairing p) = 0 then 0 else 1) + windows_opened (held_ms p) levels \<and>
    (k = 0 \<or> True \<in> set levels)"
proof -
  from wpD [OF pairing_rounds_spec assms] obtain levels k where "length levels \<le> n"
    and "sampled q = sampled p @ levels" and "discloses k p q"
    and "k + windows_open q \<le> windows_open p + windows_opened (held_ms p) levels"
    and "k = 0 \<or> True \<in> set levels"
    unfolding round_spec_def by blast
  then show ?thesis
    by (intro exI [of _ k] exI [of _ levels]) (auto simp: discloses_def windows_open_def split: if_splits)
qed

text \<open>The console and the button of the simulated platform.\<close>

definition sim_board :: "sim_world board" where
  "sim_board =
     \<lparr>gpio_get_level = (\<lambda>w. (if sim_button w then 0 else 1, w)),
      gpio_config = (\<lambda>w. (ESP_OK, w)),
      console_set_nonblocking = (\<lambda>w. w),
      console_read = (\<lambda>w. case sim_console w of
         [] \<Rightarrow> ((-1, 0), w) | b # rest \<Rightarrow> ((1, b), w\<lparr>sim_console := rest\<rparr>))\<rparr>"

definition sim_pairing :: "u64 \<Rightarrow> sim_world \<Rightarrow> sim_world Pairing" where
  "sim_pairing deadline w =
     \<lparr>bridge = sim_bridge ExpansionStateReady w, out = [], got = [],
      pairing = \<lparr>pc_credentials = \<lparr>cr_ap_password = ascii ''abc'' @ [0],
        cr_pairing_secret = [0xAB, 0x01], cr_newly_created = True\<rparr>,
        pc_ssid = ascii ''Flipforge-0102'' @ [0], pc_deadline_us = deadline\<rparr>,
      command = replicate 16 0, command_size = 0, held_ms = 0, sampled = []\<rparr>"

theorem pairing_needs_presence_witness:
  "\<exists>r q k levels. run_state (pairing_rounds sim_platform sim_board 9 2)
       (sim_pairing 5 (sim_start\<lparr>sim_console := ascii ''PAIR'' @ [10], sim_button := True\<rparr>)) = (r, q) \<and>
     sampled q = levels \<and> k \<le> 1 + windows_opened 0 levels \<and>
     out q = concat (replicate k (ascii ''FFPAIR1 Flipforge-0102 abc ab01'' @ [10]))"
proof -
  obtain r q where run: "run_state (pairing_rounds sim_platform sim_board 9 2)
      (sim_pairing 5 (sim_start\<lparr>sim_console := ascii ''PAIR'' @ [10], sim_button := True\<rparr>)) = (r, q)"
    by fastforce
  have line: "pairing_line (pairing (sim_pairing 5 w)) = ascii ''FFPAIR1 Flipforge-0102 abc ab01'' @ [10]"
    for w by (simp add: pairing_line_def sim_pairing_def c_string_def encode_hex_def hex_digits_def ascii_def)
  from pairing_needs_presence [OF run] run show ?thesis
    by (auto simp: line) (auto simp: sim_pairing_def)
qed

section \<open>The secret in print\<close>

text \<open>What a client does with the last field of the line: two digits make a byte.\<close>

definition digit_value :: "u8 \<Rightarrow> u8" where
  "digit_value c = (if c < 58 then c - 48 else c - 87)"

fun decode_hex :: "u8 list \<Rightarrow> u8 list" where
  "decode_hex (a # b # rest) = (push_bit 4 (digit_value a) OR digit_value b) # decode_hex rest"
| "decode_hex _ = []"

lemma hex_digit:
  "n < 16 \<Longrightarrow> hex_digits ! n \<notin> {0, 32} \<and> digit_value (hex_digits ! n) = of_nat n"
proof -
  assume "n < 16"
  then have "n \<in> set [0..<16]" by simp
  moreover have "list_all (\<lambda>n. hex_digits ! n \<notin> {0, 32} \<and> digit_value (hex_digits ! n) = of_nat n) [0..<16]"
    by code_simp
  ultimately show ?thesis by (simp add: list_all_iff)
qed

lemma nibbles:
  fixes b :: u8
  shows "unat (drop_bit 4 b) < 16" and "unat (b AND 0x0F) < 16"
    and "push_bit 4 (drop_bit 4 b) OR (b AND 0x0F) = b"
proof -
  show "unat (drop_bit 4 b) < 16"
    using unsigned_less [of b, where ?'a = nat]
    by (simp add: drop_bit_eq_div unat_div)
  have "b AND 0x0F = take_bit 4 b" by (simp add: take_bit_eq_mask mask_eq_exp_minus_1)
  then show "unat (b AND 0x0F) < 16"
    using take_bit_nat_less_exp [of 4 "unat b"] by (simp add: unsigned_take_bit_eq)
  show "push_bit 4 (drop_bit 4 b) OR (b AND 0x0F) = b"
    by (rule bit_word_eqI) (auto simp: bit_simps \<open>b AND 0x0F = take_bit 4 b\<close>)
qed

lemma decode_encode_hex:
  "decode_hex (c_string (encode_hex bytes)) = bytes \<and> 32 \<notin> set (c_string (encode_hex bytes))"
  using nibbles hex_digit
  by (induction bytes) (simp_all add: encode_hex_def c_string_def)

text \<open>The last field of a line, up to its newline.\<close>

definition line_secret :: "u8 list \<Rightarrow> u8 list" where
  "line_secret line = decode_hex (rev (takeWhile (\<lambda>b. b \<noteq> 32) (rev (butlast line))))"

lemma line_secret_field:
  "32 \<notin> set field \<Longrightarrow> line_secret (line @ [32] @ field @ [10]) = decode_hex field"
proof -
  assume "32 \<notin> set field"
  then have "takeWhile (\<lambda>b. b \<noteq> 32) (rev field @ 32 # rev line) = rev field"
    by (subst takeWhile_append2) auto
  then show ?thesis by (simp add: line_secret_def butlast_append)
qed

lemma line_secret_of: "line_secret (pairing_line c) = cr_pairing_secret (pc_credentials c)"
  using line_secret_field [of "c_string (encode_hex (cr_pairing_secret (pc_credentials c)))"
      "ascii ''FFPAIR1 '' @ c_string (pc_ssid c) @ ascii '' '' @
       c_string (cr_ap_password (pc_credentials c))"] decode_encode_hex
  by (simp add: pairing_line_def ascii_def)

section \<open>The command buffer\<close>

text \<open>
  C39. The command buffer is never overrun: whatever is typed, after any number of rounds of
  the task the buffer has its 16 bytes and the next write, of a character or of the
  terminator, is inside it.
\<close>

theorem pairing_in_bounds:
  "case run_state (pairing_task P B fuel n) p of (r, q) \<Rightarrow>
     length (command q) = 16 \<and> command_size q < 16"
proof -
  let ?I = "\<lambda>p. length (command p) = 16 \<and> command_size p < 16"
  have bridge: "preserves ?I (on_bridge m)" for m
    by (rule preservesI) (auto intro!: wp_mono [OF wp_trivial])
  have byte: "preserves ?I (pairing_byte P button b)" for button b
    by (auto simp: preserves_def pairing_byte_def pairing_enter_def set_deadline_def split: prod.splits)
  have input: "preserves ?I (pairing_input P B fuel button)" for button fuel
    by (induction fuel) (auto intro!: preserves_rules preserves_modify bridge byte)
  have button: "preserves ?I (pairing_button P B)"
    by (auto simp: preserves_def pairing_button_def set_deadline_def Let_def split: prod.splits)
  have round: "preserves ?I (pairing_round P B fuel)"
    unfolding pairing_round_def by (intro preserves_rules bridge input button)
  have rounds: "preserves ?I (pairing_rounds P B fuel n)"
    by (induction n) (auto intro!: preserves_rules round)
  have "wp (pairing_task P B fuel n) (\<lambda>_. ?I) p"
    unfolding pairing_task_def by (simp add: preservesD [OF rounds])
  then show ?thesis by (simp add: wp_def)
qed

end
