(* ===== verification/Wifi_Manager.thy ===== *)
theory Wifi_Manager
  imports Bridge_Credentials
begin

text \<open>
  \<open>wifi_manager.h\<close> and \<open>wifi_manager.c\<close>: the access point. The Wi-Fi driver is a parameter;
  the configuration it is given is a type of the platform.
\<close>

section \<open>State and platform\<close>

record 'w radio =
  esp_read_mac :: "'w \<Rightarrow> (esp_err \<times> u8 list) \<times> 'w"
  esp_netif_init :: "'w \<Rightarrow> esp_err \<times> 'w"
  esp_event_loop_create_default :: "'w \<Rightarrow> esp_err \<times> 'w"
  esp_netif_create_default_wifi_ap :: "'w \<Rightarrow> bool \<times> 'w"
  esp_wifi_init :: "'w \<Rightarrow> esp_err \<times> 'w"
  esp_wifi_set_mode_ap :: "'w \<Rightarrow> esp_err \<times> 'w"
  esp_wifi_set_config :: "wifi_ap_config \<Rightarrow> 'w \<Rightarrow> esp_err \<times> 'w"
  esp_wifi_start :: "'w \<Rightarrow> esp_err \<times> 'w"

section \<open>Operations\<close>

text \<open>\<open>snprintf\<close> with the format of the network name; \<open>%02X\<close> prints two capital digits.\<close>

definition upper_hex :: "u8 \<Rightarrow> u8 list" where
  "upper_hex b = (let digits = ascii ''0123456789ABCDEF''
     in [digits ! (unat b div 16), digits ! (unat b mod 16)])"

definition ssid_text :: "u8 list \<Rightarrow> u8 list" where
  "ssid_text mac = ascii ''Flipforge-'' @ upper_hex (mac ! 4) @ upper_hex (mac ! 5)"

definition access_point :: "u8 list \<Rightarrow> BridgeCredentials \<Rightarrow> wifi_ap_config" where
  "access_point ssid credentials =
     \<lparr>ap_ssid = overwrite (replicate 32 0) (c_string ssid), ap_ssid_len = length (c_string ssid),
      ap_password = overwrite (replicate 64 0) (c_string (cr_ap_password credentials)),
      ap_channel = 6, ap_authmode = WIFI_AUTH_WPA2_PSK, ap_max_connection = 2,
      ap_pmf_capable = True, ap_pmf_required = False\<rparr>"

text \<open>The three calls that bring the configured access point up, until the first error.\<close>

definition bring_up :: "'w radio \<Rightarrow> wifi_ap_config \<Rightarrow> ('w, esp_err) task" where
  "bring_up R config = do {
     error \<leftarrow> device (esp_wifi_set_mode_ap R);
     error \<leftarrow> if error = ESP_OK then device (esp_wifi_set_config R config) else ret error;
     if error = ESP_OK then device (esp_wifi_start R) else ret error
   }"

definition wifi_manager_start :: "'w radio \<Rightarrow> BridgeCredentials option \<Rightarrow> ('w, esp_err) task" where
  "wifi_manager_start R credentials =
     (case credentials of
        None \<Rightarrow> ret ESP_ERR_INVALID_ARG
      | Some credentials \<Rightarrow> do {
          started \<leftarrow> gets wifi_started;
          if started then ret ESP_ERR_INVALID_STATE
          else do {
            (error, mac) \<leftarrow> device (esp_read_mac R);
            if error \<noteq> ESP_OK then ret error
            else do {
              modify (\<lambda>s. s\<lparr>bridge_ssid := overwrite (bridge_ssid s) (ssid_text mac @ [0])\<rparr>);
              error \<leftarrow> device (esp_netif_init R);
              if error \<noteq> ESP_OK \<and> error \<noteq> ESP_ERR_INVALID_STATE then ret error
              else do {
                error \<leftarrow> device (esp_event_loop_create_default R);
                if error \<noteq> ESP_OK \<and> error \<noteq> ESP_ERR_INVALID_STATE then ret error
                else do {
                  created \<leftarrow> device (esp_netif_create_default_wifi_ap R);
                  if \<not> created then ret ESP_FAIL
                  else do {
                    error \<leftarrow> device (esp_wifi_init R);
                    if error \<noteq> ESP_OK then ret error
                    else do {
                      ssid \<leftarrow> gets bridge_ssid;
                      error \<leftarrow> bring_up R (access_point ssid credentials);
                      do_if (error = ESP_OK) (modify (\<lambda>s. s\<lparr>wifi_started := True\<rparr>));
                      ret error
                    }
                  }
                }
              }
            }
          }
        })"

definition wifi_manager_ssid :: "('w, u8 list) task" where
  "wifi_manager_ssid = gets bridge_ssid"

definition wifi_manager_is_started :: "('w, bool) task" where
  "wifi_manager_is_started = gets wifi_started"

section \<open>The network is protected\<close>

text \<open>
  \<open>ap\<close> reads off the outside the configuration the driver runs with: the one it accepted
  last.
\<close>

definition radio_laws :: "'w radio \<Rightarrow> ('w \<Rightarrow> wifi_ap_config option) \<Rightarrow> bool" where
  "radio_laws R ap \<longleftrightarrow>
     (\<forall>config w w'. esp_wifi_set_config R config w = (ESP_OK, w') \<longrightarrow> ap w' = Some config) \<and>
     (\<forall>w. ap (snd (esp_wifi_start R w)) = ap w)"

lemma radio_lawsD:
  assumes "radio_laws R ap"
  shows "esp_wifi_set_config R config w = (ESP_OK, w') \<Longrightarrow> ap w' = Some config"
    and "esp_wifi_start R w = (e, w') \<Longrightarrow> ap w' = ap w"
  using assms unfolding radio_laws_def by (simp, metis snd_conv)

lemma upper_hex_nonzero: "0 \<notin> set (upper_hex b)" and length_upper_hex: "length (upper_hex b) = 2"
proof -
  have "list_all (\<lambda>c. c \<noteq> 0) (ascii ''0123456789ABCDEF'')" by code_simp
  then have "ascii ''0123456789ABCDEF'' ! n \<noteq> 0" if "n < 16" for n
    using that by (simp add: list_all_length)
  moreover have "unat b div 16 < 16" "unat b mod 16 < 16"
    using unsigned_less [of b, where ?'a = nat] by auto
  ultimately show "0 \<notin> set (upper_hex b)" by (auto simp: upper_hex_def Let_def)
  show "length (upper_hex b) = 2" by (simp add: upper_hex_def Let_def)
qed

lemma c_string_terminated: "0 \<notin> set bytes \<Longrightarrow> c_string (bytes @ 0 # rest) = bytes"
  by (induction bytes) (auto simp: c_string_def)

lemma c_string_padded: "0 \<notin> set bytes \<Longrightarrow> c_string (bytes @ replicate n 0) = bytes"
  using c_string_terminated [of bytes] by (cases n) (auto simp: c_string_def takeWhile_eq_all_conv)

lemma c_string_ssid: "c_string (overwrite array (ssid_text mac @ [0])) = ssid_text mac"
proof -
  have "0 \<notin> set (ssid_text mac)" using upper_hex_nonzero by (auto simp: ssid_text_def ascii_def)
  then show ?thesis using c_string_terminated by (simp add: overwrite_def)
qed

text \<open>What a successful start has done.\<close>

lemma wifi_manager_start_protects:
  assumes laws: "radio_laws R ap"
  shows "wp (wifi_manager_start R (Some c)) (\<lambda>e t.
     if e = ESP_OK
     then \<not> wifi_started s \<and> wifi_started t \<and>
       (\<exists>mac. c_string (bridge_ssid t) = ssid_text mac \<and>
         ap (world t) = Some (access_point (bridge_ssid t) c))
     else wifi_started t = wifi_started s) s"
  unfolding wifi_manager_start_def bring_up_def
  by (auto split: prod.splits simp: c_string_ssid radio_lawsD(2) [OF laws] intro: radio_lawsD(1) [OF laws])

text \<open>
  C19. The network is never open: when \<open>wifi_manager_start\<close> succeeds, the access point that was
  down before runs with WPA2, the password of the credentials, at most two stations, and the
  name "Flipforge-" followed by two bytes of the MAC address; when it fails, the manager does
  not count as started.
\<close>

theorem network_is_protected:
  assumes laws: "radio_laws R ap"
    and "run_state (wifi_manager_start R (Some c)) s = (e, t)"
  shows "if e = ESP_OK
    then \<not> wifi_started s \<and> wifi_started t \<and>
      (\<exists>config mac. ap (world t) = Some config \<and> ap_authmode config = WIFI_AUTH_WPA2_PSK \<and>
         take (ap_ssid_len config) (ap_ssid config) = ssid_text mac \<and>
         c_string (ap_password config) = c_string (cr_ap_password c) \<and>
         ap_max_connection config = 2)
    else wifi_started t = wifi_started s"
proof -
  have password: "c_string (c_string p @ replicate n 0) = c_string p" for p n
    by (rule c_string_padded) (auto simp: c_string_def dest: set_takeWhileD)
  from wpD [OF wifi_manager_start_protects [OF laws] assms(2)] show ?thesis
    by (auto simp: access_point_def password overwrite_def)
qed

text \<open>The radio of the simulated platform.\<close>

definition sim_radio :: "sim_world radio" where
  "sim_radio =
     \<lparr>esp_read_mac = (\<lambda>w. ((ESP_OK, [0, 1, 2, 3, 0xA4, 0x5]), w)),
      esp_netif_init = (\<lambda>w. (ESP_OK, w)),
      esp_event_loop_create_default = (\<lambda>w. (ESP_OK, w)),
      esp_netif_create_default_wifi_ap = (\<lambda>w. (True, w)),
      esp_wifi_init = (\<lambda>w. (ESP_OK, w)),
      esp_wifi_set_mode_ap = (\<lambda>w. (ESP_OK, w)),
      esp_wifi_set_config = (\<lambda>config w. (ESP_OK, w\<lparr>sim_ap := Some config\<rparr>)),
      esp_wifi_start = (\<lambda>w. (ESP_OK, w))\<rparr>"

lemma sim_radio_laws: "radio_laws sim_radio sim_ap"
  by (auto simp: radio_laws_def sim_radio_def)

theorem network_is_protected_witness:
  "\<exists>t config. run_state (wifi_manager_start sim_radio (Some blank_credentials))
       ((sim_bridge ExpansionStateDisconnected sim_start)\<lparr>wifi_started := False\<rparr>) = (ESP_OK, t) \<and>
     sim_ap (world t) = Some config \<and> ap_authmode config = WIFI_AUTH_WPA2_PSK"
proof -
  obtain t where run: "run_state (wifi_manager_start sim_radio (Some blank_credentials))
      ((sim_bridge ExpansionStateDisconnected sim_start)\<lparr>wifi_started := False\<rparr>) = (ESP_OK, t)"
    by (simp add: wifi_manager_start_def bring_up_def sim_radio_def sim_bridge_def device_def do_if_def)
  from network_is_protected [OF sim_radio_laws run] run show ?thesis by auto
qed

end
