(* ===== verification/Usb_Console.thy ===== *)
theory Usb_Console
  imports Simulated_Network
begin

text \<open>
  \<open>usb_console.h\<close> and \<open>usb_console.c\<close>: the three layers of the TinyUSB console, and what is
  taken down again when one of them fails. TinyUSB is a parameter.
\<close>

record 'w usb =
  tinyusb_driver_install :: "'w \<Rightarrow> esp_err \<times> 'w"
  tinyusb_driver_uninstall :: "'w \<Rightarrow> 'w"
  tinyusb_cdcacm_init :: "'w \<Rightarrow> esp_err \<times> 'w"
  tinyusb_cdcacm_deinit :: "'w \<Rightarrow> 'w"
  tinyusb_console_init :: "'w \<Rightarrow> esp_err \<times> 'w"
  set_unbuffered :: "'w \<Rightarrow> 'w"

definition usb_console_start :: "'w usb \<Rightarrow> ('w, esp_err) task" where
  "usb_console_start U = do {
     error \<leftarrow> device (tinyusb_driver_install U);
     if error \<noteq> ESP_OK then ret error
     else do {
       error \<leftarrow> device (tinyusb_cdcacm_init U);
       if error \<noteq> ESP_OK then do {
         device_do (tinyusb_driver_uninstall U);
         ret error
       } else do {
         error \<leftarrow> device (tinyusb_console_init U);
         if error \<noteq> ESP_OK then do {
           device_do (tinyusb_cdcacm_deinit U);
           device_do (tinyusb_driver_uninstall U);
           ret error
         } else do {
           device_do (set_unbuffered U);
           ret ESP_OK
         }
       }
     }
   }"

text \<open>
  \<open>layers\<close> reads off the outside whether the driver and the CDC device are up. A layer that
  fails to start stays down.
\<close>

definition usb_laws :: "'w usb \<Rightarrow> ('w \<Rightarrow> bool \<times> bool) \<Rightarrow> bool" where
  "usb_laws U layers \<longleftrightarrow>
     (\<forall>w e w'. tinyusb_driver_install U w = (e, w') \<longrightarrow>
        layers w' = (if e = ESP_OK then (True, snd (layers w)) else layers w)) \<and>
     (\<forall>w e w'. tinyusb_cdcacm_init U w = (e, w') \<longrightarrow>
        layers w' = (if e = ESP_OK then (fst (layers w), True) else layers w)) \<and>
     (\<forall>w e w'. tinyusb_console_init U w = (e, w') \<longrightarrow> layers w' = layers w) \<and>
     (\<forall>w. layers (tinyusb_driver_uninstall U w) = (False, snd (layers w))) \<and>
     (\<forall>w. layers (tinyusb_cdcacm_deinit U w) = (fst (layers w), False)) \<and>
     (\<forall>w. layers (set_unbuffered U w) = layers w)"

text \<open>
  The console starts completely or not at all: from a board with no USB layer up, a
  successful start leaves both up, and a failed one, whichever layer failed, leaves neither.
\<close>

theorem usb_all_or_nothing:
  assumes "usb_laws U layers" and "layers (world s) = (False, False)"
    and "run_state (usb_console_start U) s = (e, t)"
  shows "layers (world t) = (e = ESP_OK, e = ESP_OK)"
proof -
  note laws = assms(1) [unfolded usb_laws_def]
  have "wp (usb_console_start U) (\<lambda>e t. layers (world t) = (e = ESP_OK, e = ESP_OK)) s"
    unfolding usb_console_start_def using laws assms(2)
    by (auto split: prod.splits)
  from wpD [OF this assms(3)] show ?thesis .
qed

definition sim_usb_stack :: "sim_world usb" where
  "sim_usb_stack =
     \<lparr>tinyusb_driver_install = (\<lambda>w. (ESP_OK, w\<lparr>sim_usb := (True, snd (sim_usb w))\<rparr>)),
      tinyusb_driver_uninstall = (\<lambda>w. w\<lparr>sim_usb := (False, snd (sim_usb w))\<rparr>),
      tinyusb_cdcacm_init = (\<lambda>w. (ESP_OK, w\<lparr>sim_usb := (fst (sim_usb w), True)\<rparr>)),
      tinyusb_cdcacm_deinit = (\<lambda>w. w\<lparr>sim_usb := (fst (sim_usb w), False)\<rparr>),
      tinyusb_console_init = (\<lambda>w. (ESP_OK, w)),
      set_unbuffered = (\<lambda>w. w)\<rparr>"

lemma sim_usb_laws: "usb_laws sim_usb_stack sim_usb"
  by (auto simp: usb_laws_def sim_usb_stack_def)

theorem usb_all_or_nothing_witness:
  "\<exists>e t. run_state (usb_console_start sim_usb_stack) (sim_bridge ExpansionStateDisconnected sim_start) =
       (e, t) \<and> sim_usb (world t) = (e = ESP_OK, e = ESP_OK)"
proof -
  obtain e t where run: "run_state (usb_console_start sim_usb_stack)
      (sim_bridge ExpansionStateDisconnected sim_start) = (e, t)" by fastforce
  have "sim_usb (world (sim_bridge ExpansionStateDisconnected sim_start)) = (False, False)"
    by (simp add: sim_bridge_def sim_start_def)
  from usb_all_or_nothing [OF sim_usb_laws this run] run show ?thesis by blast
qed

end
