(* ===== verification/Bridge_Main.thy ===== *)
theory Bridge_Main
  imports Pairing_Service Wifi_Manager Usb_Console Bridge_Server
begin

text \<open>
  \<open>bridge_main.c\<close>: the start of the firmware, which composes all components, and the report
  of the metrics task. \<open>ESP_ERROR_CHECK\<close> restarts the chip on an error; here it ends the
  start with that error. Log output is left out.
\<close>

section \<open>The platform as a whole\<close>

record 'w hardware =
  hw_platform :: "'w platform"
  hw_network :: "'w network"
  hw_storage :: "'w storage"
  hw_board :: "'w board"
  hw_radio :: "'w radio"
  hw_usb :: "'w usb"
  hw_leds :: "'w ledc_driver"
  hw_activity_led :: bool

text \<open>What the start leaves: its own copy of the credentials, and the contexts of the tasks.\<close>

record System =
  sys_credentials :: BridgeCredentials
  sys_pairing :: PairingContext
  sys_server :: "bool \<times> u8 list"
  sys_metrics_task :: bool

definition ESP_ERROR_CHECK :: "esp_err \<Rightarrow> ('s, esp_err + 'a) state \<Rightarrow> ('s, esp_err + 'a) state" where
  "ESP_ERROR_CHECK error k = (if error \<noteq> ESP_OK then ret (Inl error) else k)"

section \<open>The metrics task\<close>

record MetricsReport =
  mr_uptime_ms :: u64
  mr_rpc_Bps :: u64
  mr_ack_avg_us :: u64
  mr_counters :: BridgeMetricsSnapshot
  mr_baud :: u32

definition metrics_round ::
    "'w platform \<Rightarrow> bool \<Rightarrow> BridgeMetricsSnapshot \<Rightarrow> ('w, MetricsReport \<times> BridgeMetricsSnapshot) task"
where
  "metrics_round P tr previous = do {
     pause P 5000;
     current \<leftarrow> gets (\<lambda>s. bridge_metrics_snapshot (debug_metrics P) (metrics s));
     elapsed_us \<leftarrow> if started_us current > 0 then do {
                     now \<leftarrow> device (esp_timer_get_time P);
                     ret (of_int now - started_us current)
                   } else ret 0;
     let window_rpc = rpc_payload_rx_bytes current + rpc_payload_tx_bytes current -
           rpc_payload_rx_bytes previous - rpc_payload_tx_bytes previous in do {
       baud \<leftarrow> expansion_transport_negotiated_baud tr;
       ret (\<lparr>mr_uptime_ms = elapsed_us div 1000, mr_rpc_Bps = window_rpc div 5,
             mr_ack_avg_us = (if ack_count current > 0
                              then ack_wait_us current div ucast (ack_count current) else 0),
             mr_counters = current, mr_baud = baud\<rparr>, current)
     }
   }"

text \<open>The reports of a number of rounds of the task.\<close>

fun metrics_rounds ::
    "'w platform \<Rightarrow> bool \<Rightarrow> nat \<Rightarrow> BridgeMetricsSnapshot \<Rightarrow> ('w, MetricsReport list) task" where
  "metrics_rounds P tr 0 previous = ret []"
| "metrics_rounds P tr (Suc n) previous = do {
     (report, current) \<leftarrow> metrics_round P tr previous;
     reports \<leftarrow> metrics_rounds P tr n current;
     ret (report # reports)
   }"

definition metrics_task :: "'w platform \<Rightarrow> bool \<Rightarrow> nat \<Rightarrow> ('w, MetricsReport list) task" where
  "metrics_task P tr n = do {
     previous \<leftarrow> gets (\<lambda>s. bridge_metrics_snapshot (debug_metrics P) (metrics s));
     metrics_rounds P tr n previous
   }"

section \<open>The start\<close>

definition init_storage :: "'w storage \<Rightarrow> ('w, esp_err) task" where
  "init_storage S = do {
     error \<leftarrow> device (nvs_flash_init S);
     if error = ESP_ERR_NVS_NO_FREE_PAGES \<or> error = ESP_ERR_NVS_NEW_VERSION_FOUND then do {
       erased \<leftarrow> device (nvs_flash_erase S);
       if erased \<noteq> ESP_OK then ret erased else device (nvs_flash_init S)
     } else ret error
   }"

definition init_metrics :: "'w platform \<Rightarrow> ('w, unit) task" where
  "init_metrics P = do_if (debug_metrics P) (do {
     now \<leftarrow> device (esp_timer_get_time P);
     count_metric P (\<lambda>e. bridge_metrics_init e now)
   })"

definition start_activity_led :: "'w hardware \<Rightarrow> ('w, unit) task" where
  "start_activity_led H = do_if (hw_activity_led H) (modify (\<lambda>s.
     case activity_led_start (hw_leds H) (led s, world s) of
       (error, l, w) \<Rightarrow> s\<lparr>led := l, world := w\<rparr>))"

definition start_metrics_task :: "'w platform \<Rightarrow> ('w, esp_err) task" where
  "start_metrics_task P =
     (if debug_metrics P then do {
        created \<leftarrow> device (create_task P ''bridge_metrics'');
        ret (if created then ESP_OK else ESP_ERR_NO_MEM)
      } else ret ESP_OK)"

text \<open>The last steps, once the transport runs.\<close>

definition start_services ::
    "'w hardware \<Rightarrow> bool \<Rightarrow> BridgeCredentials option \<Rightarrow> ('w, esp_err + System) task" where
  "start_services H tr credentials =
     (let P = hw_platform H in do {
        error \<leftarrow> wifi_manager_start (hw_radio H) credentials;
        ESP_ERROR_CHECK error (do {
          ssid \<leftarrow> wifi_manager_ssid;
          (error, pairing) \<leftarrow> pairing_service_start P (hw_board H) credentials (Some ssid);
          ESP_ERROR_CHECK error (do {
            (error, server) \<leftarrow> bridge_server_start P tr (map_option cr_pairing_secret credentials);
            ESP_ERROR_CHECK error (do {
              error \<leftarrow> start_metrics_task P;
              ESP_ERROR_CHECK error
                (ret (Inr \<lparr>sys_credentials = the (bridge_credentials_clear credentials),
                           sys_pairing = the pairing, sys_server = the server,
                           sys_metrics_task = debug_metrics P\<rparr>))
            })
          })
        })
      })"

definition app_main :: "'w hardware \<Rightarrow> BridgeCredentials \<Rightarrow> ('w, esp_err + System) task" where
  "app_main H credentials =
     (let P = hw_platform H in do {
        error \<leftarrow> usb_console_start (hw_usb H);
        ESP_ERROR_CHECK error (do {
          error \<leftarrow> init_storage (hw_storage H);
          ESP_ERROR_CHECK error (do {
            init_metrics P;
            start_activity_led H;
            (error, credentials) \<leftarrow> bridge_credentials_load_or_create (hw_storage H) (hw_network H)
                                     (Some credentials);
            ESP_ERROR_CHECK error (do {
              (error, transport) \<leftarrow> expansion_transport_create P;
              ESP_ERROR_CHECK error (do {
                error \<leftarrow> expansion_transport_start P transport;
                ESP_ERROR_CHECK error (start_services H transport credentials)
              })
            })
          })
        })
      })"

lemma wp_ESP_ERROR_CHECK [simp]:
  "wp (ESP_ERROR_CHECK e k) Q s = (if e = ESP_OK then wp k Q s else Q (Inl e) s)"
  by (simp add: ESP_ERROR_CHECK_def)

section \<open>One secret, one password\<close>

text \<open>After the radio is up, the calls of the start leave its configuration alone.\<close>

definition boot_laws ::
    "'w hardware \<Rightarrow> ('w \<Rightarrow> string \<rightharpoonup> u8 list) \<Rightarrow> ('w \<Rightarrow> wifi_ap_config option) \<Rightarrow> bool" where
  "boot_laws H stored ap \<longleftrightarrow>
     nvs_laws (hw_storage H) (hw_network H) stored \<and> radio_laws (hw_radio H) ap \<and>
     (\<forall>w. ap (snd (calloc (hw_platform H) w)) = ap w) \<and>
     (\<forall>w. ap (snd (esp_timer_get_time (hw_platform H) w)) = ap w) \<and>
     (\<forall>w. ap (snd (gpio_config (hw_board H) w)) = ap w) \<and>
     (\<forall>name w. ap (snd (create_task (hw_platform H) name w)) = ap w)"

lemma preserves_view:
  assumes "\<And>w. v (snd (f w)) = v w"
  shows "preserves (\<lambda>t. v (world t) = a) (device f)"
  by (rule preservesI) (use assms in \<open>auto split: prod.splits; metis snd_conv\<close>)

lemma boot_lawsD:
  assumes "boot_laws H stored ap"
  shows "nvs_laws (hw_storage H) (hw_network H) stored" and "radio_laws (hw_radio H) ap"
    and "preserves (\<lambda>t. ap (world t) = a) (device (calloc (hw_platform H)))"
    and "preserves (\<lambda>t. ap (world t) = a) (device (esp_timer_get_time (hw_platform H)))"
    and "preserves (\<lambda>t. ap (world t) = a) (device (gpio_config (hw_board H)))"
    and "preserves (\<lambda>t. ap (world t) = a) (device (create_task (hw_platform H) name))"
  using assms unfolding boot_laws_def by (auto intro: preserves_view)

text \<open>The fields the later steps of the start leave alone.\<close>

definition same_radio :: "('w \<Rightarrow> wifi_ap_config option) \<Rightarrow> 'w Bridge \<Rightarrow> 'w Bridge \<Rightarrow> bool" where
  "same_radio ap s t \<longleftrightarrow> ap (world t) = ap (world s) \<and> wifi_started t = wifi_started s \<and>
     bridge_ssid t = bridge_ssid s \<and> running t = running s \<and> supervisor_task t = supervisor_task s"

lemma transport_create_result:
  "wp (expansion_transport_create P) (\<lambda>(e, tr) t. e = ESP_OK \<longrightarrow> tr) s"
  unfolding expansion_transport_create_def
  by (auto split: prod.splits intro!: wp_mono [OF wp_trivial [where m = "expansion_transport_destroy P True"]])

lemma transport_start_result:
  "wp (expansion_transport_start P tr) (\<lambda>e t. e = ESP_OK \<longrightarrow> running t \<and> supervisor_task t) s"
  unfolding expansion_transport_start_def by (auto split: prod.splits)

lemma wifi_start_result:
  assumes "radio_laws R ap" and "running s \<and> supervisor_task s"
  shows "wp (wifi_manager_start R (Some c)) (\<lambda>e t. e = ESP_OK \<longrightarrow>
     running t \<and> supervisor_task t \<and> wifi_started t \<and>
     ap (world t) = Some (access_point (bridge_ssid t) c)) s"
proof (rule wp_both [OF wifi_manager_start_protects [OF assms(1)]])
  show "wp (wifi_manager_start R (Some c)) (\<lambda>e t. running t \<and> supervisor_task t) s"
    unfolding wifi_manager_start_def bring_up_def using assms(2) by (auto split: prod.splits)
qed auto

lemma pairing_start_result:
  assumes laws: "boot_laws H stored ap"
  shows "wp (pairing_service_start (hw_platform H) (hw_board H) (Some c) (Some ssid))
     (\<lambda>(e, r) t. same_radio ap s t \<and> (e = ESP_OK \<longrightarrow> (\<exists>d. r = Some \<lparr>pc_credentials = c,
        pc_ssid = overwrite (replicate 20 0) (take 19 (c_string ssid)), pc_deadline_us = d\<rparr>))) s"
proof (rule wp_both)
  show "wp (pairing_service_start (hw_platform H) (hw_board H) (Some c) (Some ssid))
      (\<lambda>_ t. ap (world t) = ap (world s)) s"
    unfolding pairing_service_start_def option.case prod.case
    by (rule preservesD) (intro preserves_rules boot_lawsD(3-) [OF laws], simp)
  show "wp (pairing_service_start (hw_platform H) (hw_board H) (Some c) (Some ssid))
      (\<lambda>(e, r) t. (\<exists>w. t = s\<lparr>world := w\<rparr>) \<and> (e = ESP_OK \<longrightarrow> (\<exists>d. r = Some \<lparr>pc_credentials = c,
        pc_ssid = overwrite (replicate 20 0) (take 19 (c_string ssid)), pc_deadline_us = d\<rparr>))) s"
    unfolding pairing_service_start_def by (auto split: prod.splits)
qed (auto simp: same_radio_def)

lemma server_start_result:
  assumes laws: "boot_laws H stored ap"
  shows "wp (bridge_server_start (hw_platform H) tr (Some secret))
     (\<lambda>(e, r) t. same_radio ap s t \<and> (e = ESP_OK \<longrightarrow> r = Some (True, take 32 secret))) s"
proof (rule wp_both)
  show "wp (bridge_server_start (hw_platform H) tr (Some secret)) (\<lambda>_ t. ap (world t) = ap (world s)) s"
    unfolding bridge_server_start_def option.case
    by (rule preservesD) (intro preserves_rules boot_lawsD(3-) [OF laws], simp)
  show "wp (bridge_server_start (hw_platform H) tr (Some secret))
      (\<lambda>(e, r) t. (\<exists>w. t = s\<lparr>world := w\<rparr>) \<and> (e = ESP_OK \<longrightarrow> r = Some (True, take 32 secret))) s"
    unfolding bridge_server_start_def by (auto split: prod.splits intro: exI [of _ "world s"])
qed (auto simp: same_radio_def)

text \<open>The state of a system that has started.\<close>

definition booted ::
    "('w \<Rightarrow> wifi_ap_config option) \<Rightarrow> System \<Rightarrow> 'w Bridge \<Rightarrow> bool" where
  "booted ap sys t \<longleftrightarrow> (\<exists>c. length (cr_pairing_secret c) = 32 \<and>
     pc_credentials (sys_pairing sys) = c \<and> sys_server sys = (True, cr_pairing_secret c) \<and>
     running t \<and> supervisor_task t \<and> wifi_started t \<and>
     ap (world t) = Some (access_point (bridge_ssid t) c) \<and>
     pc_ssid (sys_pairing sys) = overwrite (replicate 20 0) (take 19 (c_string (bridge_ssid t))) \<and>
     sys_credentials sys = \<lparr>cr_ap_password = replicate 21 0, cr_pairing_secret = replicate 32 0,
       cr_newly_created = False\<rparr>)"

lemma start_services_boots:
  assumes laws: "boot_laws H stored ap" and "running s \<and> supervisor_task s"
    and "length (cr_pairing_secret c) = 32"
  shows "wp (start_services H tr (Some c)) (\<lambda>r t. \<forall>sys. r = Inr sys \<longrightarrow> booted ap sys t) s"
  (is "wp _ ?Q s")
proof -
  have finish: "wp (start_metrics_task (hw_platform H)) (\<lambda>_ t. same_radio ap u t) u" for u
  proof -
    have "ap (world u) = ap (world u)" ..
    from preservesD [OF boot_lawsD(6) [OF laws, of "ap (world u)" "''bridge_metrics''"] this]
    show ?thesis by (auto simp: start_metrics_task_def same_radio_def split: prod.splits)
  qed
  note wifi = wifi_start_result [OF boot_lawsD(2) [OF laws] assms(2)]
  have ready: "booted ap \<lparr>sys_credentials = the (bridge_credentials_clear (Some c)),
      sys_pairing = \<lparr>pc_credentials = c, pc_ssid = overwrite (replicate 20 0) (take 19 (c_string (bridge_ssid u))),
        pc_deadline_us = d\<rparr>, sys_server = (True, take 32 (cr_pairing_secret c)),
      sys_metrics_task = m\<rparr> v"
    if "running u" "supervisor_task u" "wifi_started u"
      "ap (world u) = Some (access_point (bridge_ssid u) c)" "same_radio ap u t" "same_radio ap t t'"
      "same_radio ap t' v" for u t t' v d m
    using that assms(3) by (auto simp: booted_def same_radio_def bridge_credentials_clear_def)
  show ?thesis
    unfolding start_services_def Let_def
    by (auto simp: wifi_manager_ssid_def intro!: wp_mono [OF wifi] wp_mono [OF pairing_start_result [OF laws]]
        wp_mono [OF server_start_result [OF laws]] wp_mono [OF finish] ready)
qed

lemma app_main_boots:
  assumes laws: "boot_laws H stored ap"
  shows "wp (app_main H c0) (\<lambda>r t. \<forall>sys. r = Inr sys \<longrightarrow> booted ap sys t) s"
  unfolding app_main_def Let_def
  by (auto simp: credentials_result_def in_flash_def
      intro!: wp_mono [OF wp_trivial [where m = "usb_console_start (hw_usb H)"]]
        wp_mono [OF wp_trivial [where m = "init_storage (hw_storage H)"]]
        wp_mono [OF wp_trivial [where m = "init_metrics (hw_platform H)"]]
        wp_mono [OF wp_trivial [where m = "start_activity_led H"]]
        wp_mono [OF load_or_create_result [OF boot_lawsD(1) [OF laws]]]
        wp_mono [OF wp_trivial [where m = "expansion_transport_create (hw_platform H)"]]
        wp_mono [OF transport_start_result] start_services_boots [OF laws])

text \<open>
  C15. The start gives every part the same credentials and keeps none: when \<open>app_main\<close> comes to
  its end, the supervisor runs, the access point is up and protected by the password that the
  pairing task would print, the server checks clients against the very secret that the pairing
  task would print, the printed network name is that of the access point, and the copy of the
  credentials on the start's own stack is zero.
\<close>

theorem boot_hands_out_one_secret:
  assumes "boot_laws H stored ap" and "run_state (app_main H c0) s = (Inr sys, t)"
  shows "running t \<and> supervisor_task t \<and> wifi_started t \<and>
    (let c = pc_credentials (sys_pairing sys) in
       length (cr_pairing_secret c) = 32 \<and> sys_server sys = (True, cr_pairing_secret c) \<and>
       ap (world t) = Some (access_point (bridge_ssid t) c) \<and>
       pc_ssid (sys_pairing sys) = overwrite (replicate 20 0) (take 19 (c_string (bridge_ssid t)))) \<and>
    sys_credentials sys = \<lparr>cr_ap_password = replicate 21 0, cr_pairing_secret = replicate 32 0,
      cr_newly_created = False\<rparr>"
  using wpD [OF app_main_boots [OF assms(1)] assms(2)] by (auto simp: booted_def Let_def)

text \<open>The simulated board as a whole.\<close>

definition sim_leds :: "sim_world ledc_driver" where
  "sim_leds =
     \<lparr>ledc_timer_config = (\<lambda>w. (ESP_OK, w)), ledc_channel_config = (\<lambda>n d w. (ESP_OK, w)),
      ledc_set_duty = (\<lambda>n d w. (ESP_OK, w)), ledc_update_duty = (\<lambda>n w. (ESP_OK, w)),
      led_task_create = (\<lambda>w. (True, w)), led_task_delay = (\<lambda>n w. w)\<rparr>"

definition sim_hardware :: "sim_world hardware" where
  "sim_hardware =
     \<lparr>hw_platform = sim_platform, hw_network = sim_network, hw_storage = sim_storage,
      hw_board = sim_board, hw_radio = sim_radio, hw_usb = sim_usb_stack, hw_leds = sim_leds,
      hw_activity_led = True\<rparr>"

definition sim_off :: "sim_world Bridge" where
  "sim_off = (sim_bridge ExpansionStateDisconnected sim_start)\<lparr>wifi_started := False, running := False\<rparr>"

lemma sim_boot_laws: "boot_laws sim_hardware (\<lambda>w. map_of (sim_flash w)) sim_ap"
  using sim_nvs_laws sim_radio_laws
  by (auto simp: boot_laws_def sim_hardware_def sim_platform_def sim_board_def)

lemma sim_boot_steps:
  "wp (usb_console_start sim_usb_stack) Q s =
     Q ESP_OK (s\<lparr>world := (world s)\<lparr>sim_usb := (True, True)\<rparr>\<rparr>)"
  "wp (init_storage sim_storage) Q s = Q ESP_OK s"
  "wp (init_metrics sim_platform) R s =
     R () (s\<lparr>metrics := bridge_metrics_init True (sim_clock (world s)) (metrics s)\<rparr>)"
  "wp (start_activity_led sim_hardware) R s = R () (s\<lparr>led := (led s)\<lparr>s_activity_task := True\<rparr>\<rparr>)"
  "wp (expansion_transport_create sim_platform) T s =
     T (ESP_OK, True) ((fresh_transport s)\<lparr>uart_installed := True\<rparr>)"
  "running s = False \<Longrightarrow> wp (expansion_transport_start sim_platform True) Q s =
     Q ESP_OK (s\<lparr>running := True, supervisor_task := True\<rparr>)"
  by (simp_all add: usb_console_start_def sim_usb_stack_def init_storage_def sim_storage_def
      init_metrics_def sim_platform_def start_activity_led_def sim_hardware_def activity_led_start_def
      sim_leds_def and_then_def set_rgb_def set_channel_def expansion_transport_create_def
      expansion_transport_start_def fresh_transport_def)

lemma sim_boots: "\<exists>sys t. run_state (app_main sim_hardware blank_credentials) sim_off = (Inr sys, t)"
proof -
  have credentials: "wp (bridge_credentials_load_or_create sim_storage sim_network (Some c))
      (\<lambda>r t. \<exists>c'. r = (ESP_OK, Some c') \<and> wifi_started t = wifi_started s) s"
    if "sim_flash (world s) = []" for c s
    using that
    by (simp add: bridge_credentials_load_or_create_def bridge_credentials_clear_def Let_def
        sim_storage_def sim_load_def sim_store_def sim_network_def create_credentials_def
        store_credentials_def generate_password_def)
  have services: "wp (start_services sim_hardware True (Some c)) (\<lambda>r t. \<exists>sys. r = Inr sys) s"
    if "\<not> wifi_started s" for c s
    using that
    by (simp add: start_services_def sim_hardware_def Let_def wifi_manager_start_def bring_up_def
        sim_radio_def wifi_manager_ssid_def pairing_service_start_def sim_platform_def sim_board_def
        bridge_server_start_def start_metrics_task_def)
  have "wp (app_main sim_hardware blank_credentials) (\<lambda>r t. \<exists>sys. r = Inr sys) sim_off"
    unfolding app_main_def Let_def
    apply (simp add: sim_hardware_def sim_boot_steps [unfolded sim_hardware_def])
    apply (rule wp_mono [OF credentials])
    apply (simp add: sim_off_def sim_bridge_def sim_start_def)
    apply (auto simp: sim_boot_steps fresh_transport_def sim_off_def services [unfolded sim_hardware_def])
    done
  then show ?thesis by (auto simp: wp_def split: prod.splits)
qed

theorem boot_hands_out_one_secret_witness:
  "\<exists>sys t. run_state (app_main sim_hardware blank_credentials) sim_off = (Inr sys, t) \<and>
     wifi_started t \<and> snd (sys_server sys) = cr_pairing_secret (pc_credentials (sys_pairing sys))"
proof -
  obtain sys t where run: "run_state (app_main sim_hardware blank_credentials) sim_off = (Inr sys, t)"
    using sim_boots by blast
  from boot_hands_out_one_secret [OF sim_boot_laws run] run show ?thesis by (auto simp: Let_def)
qed

end
