(* ===== verification/Spec2Isabelle.thy ===== *)
theory Spec2Isabelle
  imports Server_Security Transport_Supervision Bridge_Main
begin

text \<open>
  \<^bold>\<open>Flipforge Bridge.\<close> The firmware under \<open>src/main\<close> turns a Wi-Fi board into a bridge between a
  TCP client and a Flipper: a client authenticates with a pairing secret, asks for a proxy
  session, and from then on the bytes of the TCP stream and of the Flipper's RPC protocol are
  passed on in both directions. On the side of the Flipper the bytes travel in the frames of
  its expansion protocol over a UART, each data frame acknowledged, with heartbeats to keep the
  link alive and a supervisor that brings it up again.

  \<^bold>\<open>Theories\<close>, each with the sources it models, in the order of their dependencies.

  \<^descr>[\<open>Prelude\<close>] words, byte order (the \<open>read_u*_le\<close> and \<open>write_u*_le\<close> of both codecs), error codes,
    weakest preconditions over the library's state monad, invariants of operations, and the
    interfaces as locales: a machine with an invariant, a decoder fed byte by byte, a decoder
    that implements a simpler one. \<open>Bridge_Config\<close> holds the constants of \<open>bridge_config.h\<close>.
  \<^descr>[\<open>Expansion_Protocol\<close>] \<open>expansion_protocol.c\<close>: frames, encoder, byte-wise decoder on its C
    buffer. The decoder is refined to one on byte lists; encoder and decoder define the same
    format, every segmentation decodes, corruption is noticed, the buffer is not overrun.
  \<^descr>[\<open>Expansion_State_Machine\<close>] \<open>expansion_state_machine.c\<close>: the function that drives the link,
    equal to an inductive transition relation; retry bound and RPC window over all runs.
  \<^descr>[\<open>Bridge_IO\<close>] \<open>bridge_io.c\<close>: the write loop as a partial function over any callback (locale
    \<open>byte_writer\<close>), with what it has sent and when it returns; the exact room check.
  \<^descr>[\<open>Bridge_Message\<close>, \<open>Bridge_Session\<close>] \<open>bridge_session.c\<close> and \<open>bridge_auth.c\<close>: management messages,
    decoding independent of segmentation, session states, HMAC input, constant-time comparison.
  \<^descr>[\<open>Bridge_Metrics\<close>, \<open>Activity_Led\<close>] \<open>bridge_metrics.c\<close> and \<open>activity_led.c\<close>.
  \<^descr>[\<open>Bridge_Platform\<close>, \<open>Bridge_Network\<close>] the shared state of the tasks (the fields of
    \<open>struct ExpansionTransport\<close> and the file-level variables) and the calls of ESP-IDF, FreeRTOS,
    lwIP and mbedTLS as records of functions; \<open>socket_write\<close> and \<open>send_all\<close>.
  \<^descr>[\<open>Simulated_Platform\<close>, \<open>Simulated_Network\<close>] one concrete platform, on which every property
    with a hypothesis about the platform is instantiated.
  \<^descr>[\<open>Expansion_Transport\<close>] all functions of \<open>expansion_transport.c\<close>. \<open>Transport_Sending\<close>:
    what reaches the UART; \<open>Transport_Receiving\<close>: the receiver and heartbeat tasks;
    \<open>Transport_Supervision\<close>: establishing the link, its termination, the supervisor.
  \<^descr>[\<open>Rpc_Proxy\<close>] \<open>rpc_proxy.c\<close>: both directions of a session and what they forward.
  \<^descr>[\<open>Bridge_Server\<close>] \<open>bridge_server.c\<close>. \<open>Server_Correctness\<close>: every request's answer, and when a
    session is authenticated; \<open>Server_Security\<close>: whole connections, the clean-up, the one slot.
  \<^descr>[\<open>Bridge_Credentials\<close>, \<open>Pairing_Service\<close>, \<open>Wifi_Manager\<close>, \<open>Usb_Console\<close>] the files of these names.
  \<^descr>[\<open>Bridge_Main\<close>] \<open>bridge_main.c\<close>: \<open>app_main\<close> as the composition of all of them.

  \<^bold>\<open>Modelling.\<close> An operation is a value of the state monad over the state its task can see. An
  error code is a value of \<open>esp_err\<close>, and every early return is a branch. A call of the platform
  that cannot block is a function on the outside \<open>'w\<close>; one that can block is a function on the
  whole shared state, since other tasks run meanwhile, so a property proved for every such
  function holds for every interleaving at the blocking calls. A section under a mutex or in a
  critical section is one step. Nothing is assumed of the platform in the definitions; a
  property that needs a law of a call has it as a hypothesis with a name: \<open>uart_laws\<close>,
  \<open>rx_laws\<close>, \<open>clock_laws\<close>, \<open>line_laws\<close>, \<open>supervisor_rely\<close>, \<open>proxy_laws\<close>, \<open>queue_laws\<close>,
  \<open>server_laws\<close>, \<open>slot_held\<close>, \<open>nvs_laws\<close>, \<open>radio_laws\<close>, \<open>usb_laws\<close>, \<open>boot_laws\<close>. Pointers to the one
  transport are whether they are null. Logs of the bytes a task sent and received (\<open>out\<close>, \<open>got\<close>)
  and of sampled buttons are kept beside the program's data for the properties to speak about.

  \<^bold>\<open>Bounds.\<close> Endless loops (the tasks) take a number of rounds, and properties hold for every
  number. The wait for a frame takes a number of polls; \<open>establish_terminates\<close> shows that
  250001 of them are enough on a clock that advances with every poll, since the deadline is
  250 ms. The write loop is a partial function that is shown to return. \<open>client_input\<close>,
  \<open>send_chunks\<close> and the codecs are total.

  \<^bold>\<open>Not modelled.\<close> Log output; the register-level set-up inside the platform calls (pins, clock
  sources, stack sizes and priorities of tasks); preemption between two steps that do not
  block, apart from the sections under a lock; the pulse of the LED beyond one round of its
  task. The host tests under \<open>src/tests\<close> and the scripts under \<open>src/tools\<close> are not part of the
  firmware.
\<close>

section \<open>From the pairing line to an authenticated session\<close>

text \<open>
  C4. Pairing works from end to end: after a start of the firmware, a client that takes the
  secret from the line that the pairing task prints, and answers the challenge of its session
  with the HMAC under that secret, is authenticated by the server.
\<close>

theorem paired_client_is_accepted:
  assumes "boot_laws H stored ap" and "run_state (app_main H c0) s = (Inr sys, t)"
    and "pairing_secret context = take BRIDGE_PAIRING_SECRET_BYTES (snd (sys_server sys))"
    and "ss_state (session c) = BridgeSessionAwaitingAuthentication"
    and "msg_flags request = 0" and "msg_status request = BridgeStatusOk"
    and "msg_version request = FLIPFORGE_BRIDGE_PROTOCOL_VERSION"
    and "proves N (line_secret (pairing_line (sys_pairing sys))) (session c) request"
    and "run_state (handle_management_message P N context request) c = (r, c')"
  shows "ss_state (session c') = BridgeSessionAuthenticated"
proof -
  from wpD [OF app_main_boots [OF assms(1)] assms(2)]
  have "pairing_secret context = cr_pairing_secret (pc_credentials (sys_pairing sys))"
    using assms(3) by (auto simp: booted_def)
  moreover have "line_secret (pairing_line (sys_pairing sys)) =
      cr_pairing_secret (pc_credentials (sys_pairing sys))"
    by (rule line_secret_of)
  ultimately have "session_after N (pairing_secret context) (session c) request =
      (session c)\<lparr>ss_state := BridgeSessionAuthenticated\<rparr>"
    using assms(4-8) by (simp add: session_after_def proves_request)
  moreover have "wp (handle_management_message P N context request) (\<lambda>r c'. session c' =
      session_after N (pairing_secret context) (session c) request) c"
    by (rule wp_mono [OF handle_before_authentication [where I = "\<lambda>_. True"]]) (use assms(4) in auto)
  ultimately show ?thesis using wpD [OF _ assms(9)] by fastforce
qed

theorem paired_client_is_accepted_witness:
  "\<exists>sys t. run_state (app_main sim_hardware blank_credentials) sim_off = (Inr sys, t) \<and>
     ss_state (session (snd (run_state (handle_management_message sim_platform sim_network
       (sim_context\<lparr>pairing_secret := take 32 (snd (sys_server sys))\<rparr>)
       (sim_request BridgeCommandAuthenticate (line_secret (pairing_line (sys_pairing sys)))))
       (sim_client BridgeSessionAwaitingAuthentication ExpansionStateReady sim_start)))) =
     BridgeSessionAuthenticated"
proof -
  obtain sys t where run: "run_state (app_main sim_hardware blank_credentials) sim_off = (Inr sys, t)"
    using sim_boots by blast
  let ?secret = "line_secret (pairing_line (sys_pairing sys))"
  have "length ?secret = 32"
    using wpD [OF app_main_boots [OF sim_boot_laws] run] by (auto simp: booted_def line_secret_of)
  then have "proves sim_network ?secret (sim_session BridgeSessionAwaitingAuthentication)
      (sim_request BridgeCommandAuthenticate ?secret)"
    by (simp add: proves_def sim_request_def sim_network_def payload_array_def nth_append)
  then have "ss_state (session (snd (run_state (handle_management_message sim_platform sim_network
       (sim_context\<lparr>pairing_secret := take 32 (snd (sys_server sys))\<rparr>)
       (sim_request BridgeCommandAuthenticate ?secret))
       (sim_client BridgeSessionAwaitingAuthentication ExpansionStateReady sim_start)))) =
     BridgeSessionAuthenticated"
    by (intro paired_client_is_accepted [OF sim_boot_laws run _ _ _ _ _ _ surjective_pairing])
       (simp_all add: sim_client_def sim_session_def sim_request_def)
  with run show ?thesis by blast
qed

end
